theory Spec2Isabelle
  imports Main "HOL-Library.Word" "HOL-Library.Char_ord" "HOL-Library.List_Lexorder"
begin

unbundle bit_operations_syntax

section \<open>Machine integers, failures and the module buffer\<close>

type_synonym u8 = "8 word"
type_synonym u16 = "16 word"
type_synonym u32 = "32 word"
type_synonym u64 = "64 word"

text \<open>
  The C++ exceptions of \<^verbatim>\<open>main.cpp\<close> all derive from \<^verbatim>\<open>std::exception\<close> and carry
  the text that \<^verbatim>\<open>what()\<close> returns. A call of the source ends without returning
  either by such an exception or, since \<^verbatim>\<open>map_module\<close> reads the module buffer
  through reinterpreted pointers with no range checks, by a read outside the buffer
  (undefined behaviour in C++; here the value \<open>out_of_bounds\<close>).
\<close>

datatype exn = runtime_error string | out_of_range string

fun what :: "exn \<Rightarrow> string" where
  "what (runtime_error m) = m"
| "what (out_of_range m) = m"

datatype abort = thrown exn | out_of_bounds

definition bnd :: "abort + 'a \<Rightarrow> ('a \<Rightarrow> abort + 'b) \<Rightarrow> abort + 'b" where
  "bnd m f = (case m of Inl a \<Rightarrow> Inl a | Inr x \<Rightarrow> f x)"

text \<open>The \<open>n\<close> bytes at offset \<open>off\<close> of the buffer. A copy of no bytes reads nothing,
  wherever its source points.\<close>

definition read_bytes :: "u8 list \<Rightarrow> nat \<Rightarrow> nat \<Rightarrow> abort + u8 list" where
  "read_bytes data off n =
     (if n = 0 then Inr []
      else if off + n \<le> length data then Inr (take n (drop off data))
      else Inl out_of_bounds)"

text \<open>x86-64 is little-endian: the first byte is the least significant.\<close>

definition le_nat :: "u8 list \<Rightarrow> nat" where
  "le_nat bs = foldr (\<lambda>b acc. unat b + 256 * acc) bs 0"

definition read_u16 :: "u8 list \<Rightarrow> nat \<Rightarrow> abort + u16" where
  "read_u16 data off = bnd (read_bytes data off 2) (\<lambda>bs. Inr (word_of_nat (le_nat bs)))"

definition read_u32 :: "u8 list \<Rightarrow> nat \<Rightarrow> abort + u32" where
  "read_u32 data off = bnd (read_bytes data off 4) (\<lambda>bs. Inr (word_of_nat (le_nat bs)))"

definition read_u64 :: "u8 list \<Rightarrow> nat \<Rightarrow> abort + u64" where
  "read_u64 data off = bnd (read_bytes data off 8) (\<lambda>bs. Inr (word_of_nat (le_nat bs)))"

text \<open>
  A \<^verbatim>\<open>const char*\<close> into the buffer, converted to \<^verbatim>\<open>std::string\<close>: the bytes up to
  the first NUL. With no NUL before the end of the buffer the read leaves the buffer.
\<close>

definition read_cstring :: "u8 list \<Rightarrow> nat \<Rightarrow> abort + string" where
  "read_cstring data off =
     (if 0 \<in> set (drop off data)
      then Inr (map (\<lambda>b. char_of (unat b)) (takeWhile (\<lambda>b. b \<noteq> 0) (drop off data)))
      else Inl out_of_bounds)"

section \<open>std::map\<close>

text \<open>
  \<^verbatim>\<open>std::map\<close> keeps its entries ordered by key, with one entry per key, and is iterated
  in that order: a list of pairs sorted by key. \<open>std_map_assign\<close> is \<^verbatim>\<open>m[k] = v\<close>,
  \<open>std_map_at\<close> is \<^verbatim>\<open>m.at(k)\<close>, which throws \<^verbatim>\<open>std::out_of_range\<close> for a missing
  key (the text of its \<^verbatim>\<open>what()\<close> is the standard library's).
\<close>

fun std_map_assign :: "'k::linorder \<Rightarrow> 'v \<Rightarrow> ('k \<times> 'v) list \<Rightarrow> ('k \<times> 'v) list" where
  "std_map_assign k v [] = [(k, v)]"
| "std_map_assign k v ((k', v') # m) =
     (if k < k' then (k, v) # (k', v') # m
      else if k = k' then (k, v) # m
      else (k', v') # std_map_assign k v m)"

definition std_map_at :: "('k \<times> 'v) list \<Rightarrow> 'k \<Rightarrow> abort + 'v" where
  "std_map_at m k =
     (case map_of m k of
        None \<Rightarrow> Inl (thrown (out_of_range ''invalid map<K, T> key''))
      | Some v \<Rightarrow> Inr v)"

section \<open>PE structures (winnt.h layout for x86-64)\<close>

text \<open>
  The Windows headers are not part of the repository; the field offsets below are those
  of \<^verbatim>\<open>IMAGE_DOS_HEADER\<close>, \<^verbatim>\<open>IMAGE_NT_HEADERS64\<close>, \<^verbatim>\<open>IMAGE_SECTION_HEADER\<close> and
  \<^verbatim>\<open>IMAGE_EXPORT_DIRECTORY\<close>. Every function takes the buffer and the byte offset of
  the structure in it, as the source takes a pointer into \<^verbatim>\<open>module_data\<close>.
\<close>

definition IMAGE_DLLCHARACTERISTICS_DYNAMIC_BASE :: u16 where
  "IMAGE_DLLCHARACTERISTICS_DYNAMIC_BASE = 0x0040"

definition IMAGE_SCN_MEM_EXECUTE :: u32 where
  "IMAGE_SCN_MEM_EXECUTE = 0x20000000"

definition IMAGE_SCN_MEM_READ :: u32 where
  "IMAGE_SCN_MEM_READ = 0x40000000"

definition IMAGE_SCN_MEM_WRITE :: u32 where
  "IMAGE_SCN_MEM_WRITE = 0x80000000"

text \<open>\<^verbatim>\<open>dos_header->e_lfanew\<close> is a signed LONG at offset 0x3C; \<^verbatim>\<open>ptr + e_lfanew\<close>
  with a negative value points before the buffer.\<close>

definition nt_headers_of :: "u8 list \<Rightarrow> abort + nat" where
  "nt_headers_of data =
     bnd (read_u32 data 0x3C)
       (\<lambda>e_lfanew. if sint e_lfanew < 0 then Inl out_of_bounds else Inr (unat e_lfanew))"

definition NumberOfSections :: "u8 list \<Rightarrow> nat \<Rightarrow> abort + u16" where
  "NumberOfSections data nt = read_u16 data (nt + 4 + 2)"

definition SizeOfOptionalHeader :: "u8 list \<Rightarrow> nat \<Rightarrow> abort + u16" where
  "SizeOfOptionalHeader data nt = read_u16 data (nt + 4 + 16)"

definition ImageBase :: "u8 list \<Rightarrow> nat \<Rightarrow> abort + u64" where
  "ImageBase data nt = read_u64 data (nt + 24 + 24)"

definition SizeOfImage :: "u8 list \<Rightarrow> nat \<Rightarrow> abort + u32" where
  "SizeOfImage data nt = read_u32 data (nt + 24 + 56)"

definition SizeOfHeaders :: "u8 list \<Rightarrow> nat \<Rightarrow> abort + u32" where
  "SizeOfHeaders data nt = read_u32 data (nt + 24 + 60)"

definition DllCharacteristics :: "u8 list \<Rightarrow> nat \<Rightarrow> abort + u16" where
  "DllCharacteristics data nt = read_u16 data (nt + 24 + 70)"

text \<open>\<^verbatim>\<open>DataDirectory[IMAGE_DIRECTORY_ENTRY_EXPORT]\<close>: entry 0 of the array at offset 112
  of the optional header, a pair of DWORDs (VirtualAddress, Size).\<close>

definition export_directory_entry :: "u8 list \<Rightarrow> nat \<Rightarrow> abort + u32 \<times> u32" where
  "export_directory_entry data nt =
     bnd (read_u32 data (nt + 24 + 112)) (\<lambda>va.
     bnd (read_u32 data (nt + 24 + 112 + 4)) (\<lambda>sz. Inr (va, sz)))"

text \<open>\<^verbatim>\<open>IMAGE_FIRST_SECTION(nt_headers)\<close>: the section table follows the optional
  header, whose size the file header gives.\<close>

definition IMAGE_FIRST_SECTION :: "u8 list \<Rightarrow> nat \<Rightarrow> abort + nat" where
  "IMAGE_FIRST_SECTION data nt =
     bnd (SizeOfOptionalHeader data nt) (\<lambda>n. Inr (nt + 24 + unat n))"

record section_header =
  VirtualSize :: u32
  VirtualAddress :: u32
  SizeOfRawData :: u32
  PointerToRawData :: u32
  Characteristics :: u32

definition read_section_header :: "u8 list \<Rightarrow> nat \<Rightarrow> abort + section_header" where
  "read_section_header data off =
     bnd (read_bytes data off 40) (\<lambda>hdr.
       Inr \<lparr> VirtualSize = word_of_nat (le_nat (take 4 (drop 8 hdr))),
             VirtualAddress = word_of_nat (le_nat (take 4 (drop 12 hdr))),
             SizeOfRawData = word_of_nat (le_nat (take 4 (drop 16 hdr))),
             PointerToRawData = word_of_nat (le_nat (take 4 (drop 20 hdr))),
             Characteristics = word_of_nat (le_nat (take 4 (drop 36 hdr))) \<rparr>)"

record export_directory =
  NumberOfNames :: u32
  AddressOfFunctions :: u32
  AddressOfNames :: u32
  AddressOfNameOrdinals :: u32

definition read_export_directory :: "u8 list \<Rightarrow> nat \<Rightarrow> abort + export_directory" where
  "read_export_directory data off =
     bnd (read_u32 data (off + 24)) (\<lambda>n.
     bnd (read_u32 data (off + 32)) (\<lambda>names.
     bnd (read_u32 data (off + 36)) (\<lambda>ordinals.
     bnd (read_u32 data (off + 28)) (\<lambda>functions.
       Inr \<lparr> NumberOfNames = n, AddressOfFunctions = functions,
             AddressOfNames = names, AddressOfNameOrdinals = ordinals \<rparr>))))"

section \<open>Type reflection: type_info\<close>

text \<open>\<^verbatim>\<open>std::to_string\<close> of a \<^verbatim>\<open>size_t\<close>: decimal, no leading zeros (a 64-bit value has
  at most 20 digits).\<close>

definition to_string :: "u64 \<Rightarrow> string" where
  "to_string v =
     (let ds = dropWhile (\<lambda>c. c = CHR ''0'')
                 (map (\<lambda>i. char_of (48 + unat v div 10 ^ i mod 10)) (rev [0..<20]))
      in if ds = [] then ''0'' else ds)"

text \<open>
  \<^verbatim>\<open>type_info<T>\<close> holds the name of \<open>T\<close> (\<^verbatim>\<open>type_name_\<close>) and \<^verbatim>\<open>members_\<close>, a
  \<^verbatim>\<open>std::map<size_t, std::string>\<close> from member offset to member name. The reflection
  library that enumerates the members of \<open>T\<close> is not under src: the constructor takes the
  name and the (offset, name) pairs in the order \<^verbatim>\<open>reflect::for_each\<close> visits them and
  stores each with \<^verbatim>\<open>members_[member_offset] = member_name\<close>.
\<close>

record type_info =
  type_name :: string
  members :: "(u64 \<times> string) list"

definition make_type_info :: "string \<Rightarrow> (u64 \<times> string) list \<Rightarrow> type_info" where
  "make_type_info name reflected =
     \<lparr> type_name = name,
       members = foldl (\<lambda>m (member_offset, member_name).
                   std_map_assign member_offset member_name m) [] reflected \<rparr>"

text \<open>The loop of \<^verbatim>\<open>get_member_name\<close> over \<^verbatim>\<open>members_\<close>, with the two locals
  \<^verbatim>\<open>last_offset\<close> and \<^verbatim>\<open>last_member\<close>.\<close>

fun member_name_loop :: "u64 \<Rightarrow> u64 \<Rightarrow> string \<Rightarrow> (u64 \<times> string) list \<Rightarrow> string" where
  "member_name_loop offset last_offset last_member [] = ''<N/A>''"
| "member_name_loop offset last_offset last_member (member # rest) =
     (if offset = fst member then snd member
      else if offset < fst member
      then last_member @ ''+'' @ to_string (offset - last_offset)
      else member_name_loop offset (fst member) (snd member) rest)"

definition get_member_name :: "type_info \<Rightarrow> u64 \<Rightarrow> string" where
  "get_member_name info offset = member_name_loop offset 0 [] (members info)"

definition get_type_name :: "type_info \<Rightarrow> string" where
  "get_type_name info = type_name info"

section \<open>Guest structures\<close>

text \<open>
  The Windows structures that \<^verbatim>\<open>main.cpp\<close> fills in, with the fields it assigns (their
  declarations are in headers that are not under src). Pointers are guest addresses.
\<close>

record NT_TIB =
  StackBase :: u64
  StackLimit :: u64
  Self :: u64

record TEB =
  NtTib :: NT_TIB
  ProcessEnvironmentBlock :: u64

record PEB =
  ImageBaseAddress :: u64
  ProcessHeap :: u64
  ProcessHeaps :: u64
  ProcessParameters :: u64

record UNICODE_STRING =
  Length :: u16
  MaximumLength :: u16
  Buffer :: u64

record RTL_USER_PROCESS_PARAMETERS =
  Flags :: u32
  ImagePathName :: UNICODE_STRING
  CommandLine :: UNICODE_STRING

record KUSER_SHARED_DATA =
  ImageNumberLow :: u16
  ImageNumberHigh :: u16
  ProcessorFeatures :: "u8 list"
  other_fields :: "u8 list"

datatype guest_struct =
    TEB_struct TEB
  | PEB_struct PEB
  | PARAMETERS_struct RTL_USER_PROCESS_PARAMETERS
  | KUSD_struct KUSER_SHARED_DATA

section \<open>The emulator interface\<close>

text \<open>
  Modelled from the spec: the emulator's \<^verbatim>\<open>memory_permission\<close> flags (read, write,
  exec and their unions; the emulator's headers are not under src). A permission value is
  the set of its flags: \<^verbatim>\<open>memory_permission::none\<close> is the empty set and \<^verbatim>\<open>|=\<close> is union.
\<close>

datatype permission_flag = perm_read | perm_write | perm_exec

type_synonym memory_permission = "permission_flag set"

datatype x64_register = rax | rbx | rcx | rdx | r8 | r9 | rdi | rsi | rsp | rip | msr

text \<open>The closures that \<^verbatim>\<open>run\<close> and \<^verbatim>\<open>watch_object\<close> hand to the emulator, named by
  what they capture.\<close>

datatype callback =
    export_trace string
  | struct_watch type_info u64
  | syscall_handler
  | global_trace

text \<open>
  Modelled from the spec: the operations consumed from the CPU emulator collaborator
  (section 6 of the spec; the class \<^verbatim>\<open>x64_emulator\<close> is not under src). The emulator is
  an interface over a state \<open>'e\<close> of its own; nothing is assumed about what an operation
  does to that state. Every call is also appended to a history, with the answer the
  emulator gave. What \<^verbatim>\<open>start\<close> returns is the exception it raised, if any, and the
  text the callbacks printed while the guest ran.
\<close>

record 'e x64_emulator =
  emu_allocate_memory :: "u64 \<Rightarrow> u64 \<Rightarrow> memory_permission \<Rightarrow> 'e \<Rightarrow> bool \<times> 'e"
  emu_find_free_allocation_base :: "u64 \<Rightarrow> 'e \<Rightarrow> u64 \<times> 'e"
  emu_write_memory :: "u64 \<Rightarrow> u8 list \<Rightarrow> 'e \<Rightarrow> 'e"
  emu_protect_memory :: "u64 \<Rightarrow> u64 \<Rightarrow> memory_permission \<Rightarrow> 'e \<Rightarrow> 'e"
  emu_reg :: "x64_register \<Rightarrow> 'e \<Rightarrow> u64"
  emu_set_reg :: "x64_register \<Rightarrow> u64 \<Rightarrow> 'e \<Rightarrow> 'e"
  emu_write_msr :: "u32 \<Rightarrow> u64 \<Rightarrow> 'e \<Rightarrow> 'e"
  emu_hook_memory_read :: "u64 \<Rightarrow> u64 \<Rightarrow> callback \<Rightarrow> 'e \<Rightarrow> 'e"
  emu_hook_memory_execution :: "u64 \<Rightarrow> u64 \<Rightarrow> callback \<Rightarrow> 'e \<Rightarrow> 'e"
  emu_hook_instruction_syscall :: "callback \<Rightarrow> 'e \<Rightarrow> 'e"
  emu_start :: "u64 \<Rightarrow> 'e \<Rightarrow> (exn option \<times> string list) \<times> 'e"

datatype emu_call =
    allocate_memory_call u64 u64 memory_permission bool
  | find_free_allocation_base_call u64 u64
  | write_memory_call u64 "u8 list"
  | protect_memory_call u64 u64 memory_permission
  | set_reg_call x64_register u64
  | write_msr_call u32 u64
  | hook_memory_read_call u64 u64 callback
  | hook_memory_execution_call u64 u64 callback
  | hook_instruction_syscall_call callback
  | start_call u64 "exn option"

text \<open>
  The state a function of \<^verbatim>\<open>main.cpp\<close> works on: the emulator, the history of the calls
  made on it, the standard output, and the typed objects in guest memory (see
  \<open>emulator_object\<close> below).
\<close>

record 'e world =
  emu_state :: 'e
  calls :: "emu_call list"
  stdout :: "string list"
  guest :: "u64 \<Rightarrow> guest_struct option"

definition allocate_memory ::
  "'e x64_emulator \<Rightarrow> u64 \<Rightarrow> u64 \<Rightarrow> memory_permission \<Rightarrow> 'e world \<Rightarrow> bool \<times> 'e world" where
  "allocate_memory emu address n perms w =
     (case emu_allocate_memory emu address n perms (emu_state w) of
        (ok, e) \<Rightarrow>
          (ok, w\<lparr> emu_state := e,
                  calls := calls w @ [allocate_memory_call address n perms ok] \<rparr>))"

definition find_free_allocation_base ::
  "'e x64_emulator \<Rightarrow> u64 \<Rightarrow> 'e world \<Rightarrow> u64 \<times> 'e world" where
  "find_free_allocation_base emu n w =
     (case emu_find_free_allocation_base emu n (emu_state w) of
        (base, e) \<Rightarrow>
          (base, w\<lparr> emu_state := e,
                    calls := calls w @ [find_free_allocation_base_call n base] \<rparr>))"

definition write_memory :: "'e x64_emulator \<Rightarrow> u64 \<Rightarrow> u8 list \<Rightarrow> 'e world \<Rightarrow> 'e world" where
  "write_memory emu address bytes w =
     w\<lparr> emu_state := emu_write_memory emu address bytes (emu_state w),
        calls := calls w @ [write_memory_call address bytes] \<rparr>"

definition protect_memory ::
  "'e x64_emulator \<Rightarrow> u64 \<Rightarrow> u64 \<Rightarrow> memory_permission \<Rightarrow> 'e world \<Rightarrow> 'e world" where
  "protect_memory emu address n perms w =
     w\<lparr> emu_state := emu_protect_memory emu address n perms (emu_state w),
        calls := calls w @ [protect_memory_call address n perms] \<rparr>"

definition reg :: "'e x64_emulator \<Rightarrow> x64_register \<Rightarrow> 'e world \<Rightarrow> u64" where
  "reg emu r w = emu_reg emu r (emu_state w)"

definition set_reg :: "'e x64_emulator \<Rightarrow> x64_register \<Rightarrow> u64 \<Rightarrow> 'e world \<Rightarrow> 'e world" where
  "set_reg emu r v w =
     w\<lparr> emu_state := emu_set_reg emu r v (emu_state w),
        calls := calls w @ [set_reg_call r v] \<rparr>"

text \<open>\<^verbatim>\<open>emu.write_register(x64_register::msr, &value, sizeof(value))\<close> with the pair
  (id, value).\<close>

definition write_msr :: "'e x64_emulator \<Rightarrow> u32 \<Rightarrow> u64 \<Rightarrow> 'e world \<Rightarrow> 'e world" where
  "write_msr emu i v w =
     w\<lparr> emu_state := emu_write_msr emu i v (emu_state w),
        calls := calls w @ [write_msr_call i v] \<rparr>"

definition hook_memory_read ::
  "'e x64_emulator \<Rightarrow> u64 \<Rightarrow> u64 \<Rightarrow> callback \<Rightarrow> 'e world \<Rightarrow> 'e world" where
  "hook_memory_read emu address n cb w =
     w\<lparr> emu_state := emu_hook_memory_read emu address n cb (emu_state w),
        calls := calls w @ [hook_memory_read_call address n cb] \<rparr>"

definition hook_memory_execution ::
  "'e x64_emulator \<Rightarrow> u64 \<Rightarrow> u64 \<Rightarrow> callback \<Rightarrow> 'e world \<Rightarrow> 'e world" where
  "hook_memory_execution emu address n cb w =
     w\<lparr> emu_state := emu_hook_memory_execution emu address n cb (emu_state w),
        calls := calls w @ [hook_memory_execution_call address n cb] \<rparr>"

definition hook_instruction_syscall :: "'e x64_emulator \<Rightarrow> callback \<Rightarrow> 'e world \<Rightarrow> 'e world" where
  "hook_instruction_syscall emu cb w =
     w\<lparr> emu_state := emu_hook_instruction_syscall emu cb (emu_state w),
        calls := calls w @ [hook_instruction_syscall_call cb] \<rparr>"

definition start :: "'e x64_emulator \<Rightarrow> u64 \<Rightarrow> 'e world \<Rightarrow> exn option \<times> 'e world" where
  "start emu entry w =
     (case emu_start emu entry (emu_state w) of
        ((raised, printed), e) \<Rightarrow>
          (raised, w\<lparr> emu_state := e,
                      calls := calls w @ [start_call entry raised],
                      stdout := stdout w @ printed \<rparr>))"

definition printf :: "string \<Rightarrow> 'e world \<Rightarrow> 'e world" where
  "printf s w = w\<lparr> stdout := stdout w @ [s] \<rparr>"

definition puts :: "string \<Rightarrow> 'e world \<Rightarrow> 'e world" where
  "puts s w = w\<lparr> stdout := stdout w @ [s @ [CHR 0x0A]] \<rparr>"

text \<open>The conversion \<^verbatim>\<open>%llX\<close>: upper-case hexadecimal, no leading zeros, at least one
  digit.\<close>

definition hex_digit :: "nat \<Rightarrow> char" where
  "hex_digit d = (if d < 10 then char_of (48 + d) else char_of (55 + d))"

definition format_llX :: "u64 \<Rightarrow> string" where
  "format_llX x =
     (let ds = dropWhile (\<lambda>c. c = CHR ''0'')
                 (map (\<lambda>i. hex_digit (unat (drop_bit (4 * i) x AND 0xF))) (rev [0..<16]))
      in if ds = [] then ''0'' else ds)"

text \<open>
  Modelled from the spec: \<^verbatim>\<open>page_align_up\<close> (declared in the emulator's headers, not
  under src) rounds a byte count up to the next multiple of the page size 0x1000, in
  64-bit arithmetic.
\<close>

definition page_align_up :: "u64 \<Rightarrow> u64" where
  "page_align_up v = (v + 0xFFF) AND NOT 0xFFF"

section \<open>The PE mapper: map_module\<close>

record mapped_binary =
  image_base :: u64
  size_of_image :: u64
  exports :: "(string \<times> u64) list"

text \<open>Lines 87 to 97: the allocation at the preferred base and the fallback.\<close>

definition allocate_image ::
  "'e x64_emulator \<Rightarrow> u8 list \<Rightarrow> nat \<Rightarrow> u64 \<Rightarrow> u64 \<Rightarrow> 'e world \<Rightarrow> (abort + u64) \<times> 'e world" where
  "allocate_image emu module_data nt preferred n w =
     (case allocate_memory emu preferred n {perm_read} w of
        (True, w1) \<Rightarrow> (Inr preferred, w1)
      | (False, w1) \<Rightarrow>
          (case find_free_allocation_base emu n w1 of
             (base, w2) \<Rightarrow>
               (case DllCharacteristics module_data nt of
                  Inl a \<Rightarrow> (Inl a, w2)
                | Inr dc \<Rightarrow>
                    if dc AND IMAGE_DLLCHARACTERISTICS_DYNAMIC_BASE = 0
                    then (Inl (thrown (runtime_error ''Failed to map binary'')), w2)
                    else (case allocate_memory emu base n {perm_read} w2 of
                            (False, w3) \<Rightarrow>
                              (Inl (thrown (runtime_error ''Failed to map binary'')), w3)
                          | (True, w3) \<Rightarrow> (Inr base, w3)))))"

definition section_permissions :: "u32 \<Rightarrow> memory_permission" where
  "section_permissions c =
     (if c AND IMAGE_SCN_MEM_EXECUTE \<noteq> 0 then {perm_exec} else {}) \<union>
     (if c AND IMAGE_SCN_MEM_READ \<noteq> 0 then {perm_read} else {}) \<union>
     (if c AND IMAGE_SCN_MEM_WRITE \<noteq> 0 then {perm_write} else {})"

text \<open>The body of the loop over the section headers (lines 105 to 136).\<close>

definition map_section ::
  "'e x64_emulator \<Rightarrow> u8 list \<Rightarrow> u64 \<Rightarrow> section_header \<Rightarrow> 'e world \<Rightarrow> (abort + unit) \<times> 'e world" where
  "map_section emu module_data base section w =
     (let target_ptr = base + ucast (VirtualAddress section);
          copied =
            (if SizeOfRawData section > 0
             then (case read_bytes module_data (unat (PointerToRawData section))
                          (unat (min (SizeOfRawData section) (VirtualSize section))) of
                     Inl a \<Rightarrow> (Inl a, w)
                   | Inr bytes \<Rightarrow> (Inr (), write_memory emu target_ptr bytes w))
             else (Inr (), w))
      in case copied of
           (Inl a, w1) \<Rightarrow> (Inl a, w1)
         | (Inr _, w1) \<Rightarrow>
             (Inr (),
              protect_memory emu target_ptr
                (page_align_up (ucast (max (SizeOfRawData section) (VirtualSize section))))
                (section_permissions (Characteristics section)) w1))"

fun map_sections ::
  "'e x64_emulator \<Rightarrow> u8 list \<Rightarrow> u64 \<Rightarrow> nat \<Rightarrow> nat \<Rightarrow> 'e world \<Rightarrow> (abort + unit) \<times> 'e world" where
  "map_sections emu module_data base off 0 w = (Inr (), w)"
| "map_sections emu module_data base off (Suc k) w =
     (case read_section_header module_data off of
        Inl a \<Rightarrow> (Inl a, w)
      | Inr section \<Rightarrow>
          (case map_section emu module_data base section w of
             (Inl a, w1) \<Rightarrow> (Inl a, w1)
           | (Inr _, w1) \<Rightarrow> map_sections emu module_data base (off + 40) k w1))"

text \<open>The loop over the export names (lines 154 to 161): \<open>i\<close> is the loop counter and
  \<open>k\<close> the number of iterations left.\<close>

fun collect_exports ::
  "u8 list \<Rightarrow> u64 \<Rightarrow> export_directory \<Rightarrow> nat \<Rightarrow> nat \<Rightarrow> (string \<times> u64) list
     \<Rightarrow> abort + (string \<times> u64) list" where
  "collect_exports module_data base dir i 0 ex = Inr ex"
| "collect_exports module_data base dir i (Suc k) ex =
     bnd (read_u32 module_data (unat (AddressOfNames dir) + 4 * i)) (\<lambda>name_rva.
     bnd (read_u16 module_data (unat (AddressOfNameOrdinals dir) + 2 * i)) (\<lambda>ordinal.
     bnd (read_u32 module_data (unat (AddressOfFunctions dir) + 4 * unat ordinal)) (\<lambda>function_rva.
     bnd (read_cstring module_data (unat name_rva)) (\<lambda>function_name.
       collect_exports module_data base dir (i + 1) k
         (std_map_assign function_name (base + ucast function_rva) ex)))))"

text \<open>Lines 138 to 163: the export directory.\<close>

definition read_exports :: "u8 list \<Rightarrow> nat \<Rightarrow> u64 \<Rightarrow> abort + (string \<times> u64) list" where
  "read_exports module_data nt base =
     bnd (export_directory_entry module_data nt) (\<lambda>(va, sz).
       if va = 0 \<or> sz = 0 then Inr []
       else bnd (read_export_directory module_data (unat va)) (\<lambda>dir.
              collect_exports module_data base dir 0 (unat (NumberOfNames dir)) []))"

definition and_then ::
  "('w \<Rightarrow> (abort + 'a) \<times> 'w) \<Rightarrow> ('a \<Rightarrow> 'w \<Rightarrow> (abort + 'b) \<times> 'w) \<Rightarrow> 'w \<Rightarrow> (abort + 'b) \<times> 'w" where
  "and_then m f w = (case m w of (Inl a, w1) \<Rightarrow> (Inl a, w1) | (Inr x, w1) \<Rightarrow> f x w1)"

definition lift :: "abort + 'a \<Rightarrow> 'w \<Rightarrow> (abort + 'a) \<times> 'w" where
  "lift r w = (r, w)"

definition effect :: "('w \<Rightarrow> 'w) \<Rightarrow> 'w \<Rightarrow> (abort + unit) \<times> 'w" where
  "effect f w = (Inr (), f w)"

text \<open>Lines 99 to 163: what \<^verbatim>\<open>map_module\<close> does once the image has its base.\<close>

definition map_image ::
  "'e x64_emulator \<Rightarrow> u8 list \<Rightarrow> string \<Rightarrow> nat \<Rightarrow> u64 \<Rightarrow> u64 \<Rightarrow> 'e world
     \<Rightarrow> (abort + mapped_binary) \<times> 'e world" where
  "map_image emu module_data name nt n base =
     and_then (effect (printf (''Mapping '' @ name @ '' at '' @ format_llX base @ [CHR 0x0A]))) (\<lambda>_.
     and_then (lift (SizeOfHeaders module_data nt)) (\<lambda>size_of_headers.
     and_then (lift (read_bytes module_data 0 (unat size_of_headers))) (\<lambda>headers.
     and_then (effect (write_memory emu base headers)) (\<lambda>_.
     and_then (lift (IMAGE_FIRST_SECTION module_data nt)) (\<lambda>first.
     and_then (lift (NumberOfSections module_data nt)) (\<lambda>count.
     and_then (map_sections emu module_data base first (unat count)) (\<lambda>_.
     and_then (lift (read_exports module_data nt base)) (\<lambda>ex.
       lift (Inr \<lparr> image_base = base, size_of_image = n, exports = ex \<rparr>)))))))))"

definition map_module ::
  "'e x64_emulator \<Rightarrow> u8 list \<Rightarrow> string \<Rightarrow> 'e world \<Rightarrow> (abort + mapped_binary) \<times> 'e world" where
  "map_module emu module_data name =
     and_then (lift (nt_headers_of module_data)) (\<lambda>nt.
     and_then (lift (ImageBase module_data nt)) (\<lambda>preferred.
     and_then (lift (SizeOfImage module_data nt)) (\<lambda>size32.
     and_then (allocate_image emu module_data nt preferred (ucast size32)) (\<lambda>base.
       map_image emu module_data name nt (ucast size32) base))))"

section \<open>Typed guest objects and the bump allocator\<close>

text \<open>
  Modelled from the spec: \<^verbatim>\<open>emulator_object<T>\<close> (the typed guest object of sections 3
  and 4.1 of the spec; \<^verbatim>\<open>emulator_utils.hpp\<close> is not under src) is a guest address seen as
  a \<open>T\<close>; \<^verbatim>\<open>access(f)\<close> reads the object, applies \<open>f\<close> and writes it back. The objects
  live in the \<open>guest\<close> component of the state, one per address. Guest memory that was never
  written reads as zero.
\<close>

definition zero_TEB :: TEB where
  "zero_TEB = \<lparr> NtTib = \<lparr> StackBase = 0, StackLimit = 0, Self = 0 \<rparr>,
                ProcessEnvironmentBlock = 0 \<rparr>"

definition zero_PEB :: PEB where
  "zero_PEB = \<lparr> ImageBaseAddress = 0, ProcessHeap = 0, ProcessHeaps = 0,
                ProcessParameters = 0 \<rparr>"

definition zero_UNICODE_STRING :: UNICODE_STRING where
  "zero_UNICODE_STRING = \<lparr> Length = 0, MaximumLength = 0, Buffer = 0 \<rparr>"

definition zero_PARAMETERS :: RTL_USER_PROCESS_PARAMETERS where
  "zero_PARAMETERS = \<lparr> Flags = 0, ImagePathName = zero_UNICODE_STRING,
                       CommandLine = zero_UNICODE_STRING \<rparr>"

definition read_TEB :: "'e world \<Rightarrow> u64 \<Rightarrow> TEB" where
  "read_TEB w address = (case guest w address of Some (TEB_struct t) \<Rightarrow> t | _ \<Rightarrow> zero_TEB)"

definition read_PEB :: "'e world \<Rightarrow> u64 \<Rightarrow> PEB" where
  "read_PEB w address = (case guest w address of Some (PEB_struct p) \<Rightarrow> p | _ \<Rightarrow> zero_PEB)"

definition read_PARAMETERS :: "'e world \<Rightarrow> u64 \<Rightarrow> RTL_USER_PROCESS_PARAMETERS" where
  "read_PARAMETERS w address =
     (case guest w address of Some (PARAMETERS_struct p) \<Rightarrow> p | _ \<Rightarrow> zero_PARAMETERS)"

definition access_TEB :: "u64 \<Rightarrow> (TEB \<Rightarrow> TEB) \<Rightarrow> 'e world \<Rightarrow> 'e world" where
  "access_TEB address f w =
     w\<lparr> guest := (guest w)(address \<mapsto> TEB_struct (f (read_TEB w address))) \<rparr>"

definition access_PEB :: "u64 \<Rightarrow> (PEB \<Rightarrow> PEB) \<Rightarrow> 'e world \<Rightarrow> 'e world" where
  "access_PEB address f w =
     w\<lparr> guest := (guest w)(address \<mapsto> PEB_struct (f (read_PEB w address))) \<rparr>"

definition access_PARAMETERS ::
  "u64 \<Rightarrow> (RTL_USER_PROCESS_PARAMETERS \<Rightarrow> RTL_USER_PROCESS_PARAMETERS) \<Rightarrow> 'e world \<Rightarrow> 'e world" where
  "access_PARAMETERS address f w =
     w\<lparr> guest := (guest w)(address \<mapsto> PARAMETERS_struct (f (read_PARAMETERS w address))) \<rparr>"

text \<open>
  Modelled from the spec: \<^verbatim>\<open>emulator_allocator\<close> (the bump region of sections 3 and 4.2
  of the spec; \<^verbatim>\<open>emulator_utils.hpp\<close> is not under src). \<open>reserve\<close> rounds the watermark
  up to the alignment, advances it by the size and returns the start; it fails when the
  advance would exceed the region. The spec gives no text for that failure; the text
  below stands for it. The fields are the region's base, its size and the watermark.
\<close>

record emulator_allocator =
  region_address :: u64
  region_size :: u64
  active_address :: u64

definition align_up :: "u64 \<Rightarrow> u64 \<Rightarrow> nat" where
  "align_up v alignment = (unat v + unat alignment - 1) div unat alignment * unat alignment"

definition reserve ::
  "u64 \<Rightarrow> u64 \<Rightarrow> emulator_allocator \<Rightarrow> abort + u64 \<times> emulator_allocator" where
  "reserve count alignment a =
     (let potential_start = align_up (active_address a) alignment;
          potential_end = potential_start + unat count
      in if unat (region_address a) + unat (region_size a) < potential_end
         then Inl (thrown (runtime_error ''Out of memory''))
         else Inr (word_of_nat potential_start,
                   a\<lparr> active_address := word_of_nat potential_end \<rparr>))"

text \<open>
  What the program takes from outside \<^verbatim>\<open>main.cpp\<close>: for each guest structure its size,
  its alignment and what the reflection library reports (its name and members); the offset
  of \<^verbatim>\<open>NtTib\<close> in \<^verbatim>\<open>TEB\<close>; the files it reads; how \<^verbatim>\<open>generic_string()\<close> renders a
  path; and the host's own \<^verbatim>\<open>KUSER_SHARED_DATA\<close> page.
\<close>

datatype guest_type = TEB_type | PEB_type | PARAMETERS_type | KUSD_type | CONTEXT_type

record struct_layout =
  size_of :: u64
  align_of :: u64
  reflected_name :: string
  reflected_members :: "(u64 \<times> string) list"

record platform =
  layout :: "guest_type \<Rightarrow> struct_layout"
  offset_of_NtTib :: u64
  files :: "string \<Rightarrow> u8 list option"
  generic_string :: "string \<Rightarrow> string"
  host_kusd :: KUSER_SHARED_DATA

text \<open>\<^verbatim>\<open>gs.reserve<T>()\<close>.\<close>

definition reserve_struct ::
  "platform \<Rightarrow> guest_type \<Rightarrow> emulator_allocator \<Rightarrow> abort + u64 \<times> emulator_allocator" where
  "reserve_struct pf T a = reserve (size_of (layout pf T)) (align_of (layout pf T)) a"

text \<open>
  Modelled from the spec: \<^verbatim>\<open>make_unicode_string\<close> (section 4.2 of the spec) reserves
  \<open>(len + 1) * 2\<close> bytes, writes the string as UTF-16LE with a trailing NUL and fills the
  \<^verbatim>\<open>UNICODE_STRING\<close> header. The string is given as its UTF-16 code units.
\<close>

definition utf16le :: "u16 list \<Rightarrow> u8 list" where
  "utf16le units = concat (map (\<lambda>u. [ucast u, ucast (drop_bit 8 u)]) units)"

definition make_unicode_string ::
  "'e x64_emulator \<Rightarrow> u16 list \<Rightarrow> emulator_allocator \<Rightarrow> 'e world
     \<Rightarrow> (abort + UNICODE_STRING \<times> emulator_allocator) \<times> 'e world" where
  "make_unicode_string emu str a w =
     (case reserve (word_of_nat ((length str + 1) * 2)) 2 a of
        Inl e \<Rightarrow> (Inl e, w)
      | Inr (buffer, a1) \<Rightarrow>
          (Inr (\<lparr> Length = word_of_nat (2 * length str),
                  MaximumLength = word_of_nat (2 * (length str + 1)),
                  Buffer = buffer \<rparr>, a1),
           write_memory emu buffer (utf16le (str @ [0])) w))"

section \<open>The process builder: setup_context\<close>

definition GS_SEGMENT_ADDR :: u64 where
  "GS_SEGMENT_ADDR = 0x6000000"

definition GS_SEGMENT_SIZE :: u64 where
  "GS_SEGMENT_SIZE = push_bit 20 20"

definition IA32_GS_BASE_MSR :: u32 where
  "IA32_GS_BASE_MSR = 0xC0000101"

definition STACK_SIZE :: u64 where
  "STACK_SIZE = 0x40000"

definition STACK_ADDRESS :: u64 where
  "STACK_ADDRESS = 0x800000000000 - STACK_SIZE"

definition KUSD_ADDRESS :: u64 where
  "KUSD_ADDRESS = 0x7ffe0000"

definition IMAGE_FILE_MACHINE_I386 :: u16 where
  "IMAGE_FILE_MACHINE_I386 = 0x014c"

definition IMAGE_FILE_MACHINE_AMD64 :: u16 where
  "IMAGE_FILE_MACHINE_AMD64 = 0x8664"

definition setup_stack :: "'e x64_emulator \<Rightarrow> u64 \<Rightarrow> u64 \<Rightarrow> 'e world \<Rightarrow> 'e world" where
  "setup_stack emu stack_base stack_size w =
     (let w1 = snd (allocate_memory emu stack_base stack_size {perm_read, perm_write} w);
          stack_end = stack_base + stack_size
      in set_reg emu rsp stack_end w1)"

definition setup_gs_segment ::
  "'e x64_emulator \<Rightarrow> u64 \<Rightarrow> u64 \<Rightarrow> 'e world \<Rightarrow> emulator_allocator \<times> 'e world" where
  "setup_gs_segment emu segment_base n w =
     (let w1 = write_msr emu IA32_GS_BASE_MSR segment_base w;
          w2 = snd (allocate_memory emu segment_base n {perm_read, perm_write} w1)
      in (\<lparr> region_address = segment_base, region_size = n, active_address = segment_base \<rparr>, w2))"

text \<open>\<^verbatim>\<open>setup_kusd\<close> copies the host's page and overwrites three fields
  (\<^verbatim>\<open>ProcessorFeatures\<close> is an array of 64 bytes).\<close>

definition setup_kusd :: "'e x64_emulator \<Rightarrow> platform \<Rightarrow> 'e world \<Rightarrow> u64 \<times> 'e world" where
  "setup_kusd emu pf w =
     (let w1 = snd (allocate_memory emu KUSD_ADDRESS
                      (page_align_up (size_of (layout pf KUSD_type))) {perm_read} w);
          kusd = (host_kusd pf)\<lparr> ImageNumberLow := IMAGE_FILE_MACHINE_I386,
                                  ImageNumberHigh := IMAGE_FILE_MACHINE_AMD64,
                                  ProcessorFeatures := replicate 64 0 \<rparr>
      in (KUSD_ADDRESS, w1\<lparr> guest := (guest w1)(KUSD_ADDRESS \<mapsto> KUSD_struct kusd) \<rparr>))"

record process_context =
  executable :: mapped_binary
  ntdll :: mapped_binary
  gs_segment :: emulator_allocator
  teb :: u64
  peb :: u64
  process_params :: u64
  kusd :: u64

definition no_binary :: mapped_binary where
  "no_binary = \<lparr> image_base = 0, size_of_image = 0, exports = [] \<rparr>"

definition backslash :: char where
  "backslash = CHR 0x5C"

text \<open>The path \<^verbatim>\<open>C:\Users\mauri\Desktop\ConsoleApplication6.exe\<close>.\<close>

definition application_path :: string where
  "application_path =
     ''C:'' @ [backslash] @ ''Users'' @ [backslash] @ ''mauri'' @ [backslash] @
     ''Desktop'' @ [backslash] @ ''ConsoleApplication6.exe''"

definition wide :: "string \<Rightarrow> u16 list" where
  "wide s = map of_char s"

definition step :: "('w \<Rightarrow> 'a \<times> 'w) \<Rightarrow> 'w \<Rightarrow> (abort + 'a) \<times> 'w" where
  "step f w = (case f w of (x, w1) \<Rightarrow> (Inr x, w1))"

definition setup_context ::
  "'e x64_emulator \<Rightarrow> platform \<Rightarrow> 'e world \<Rightarrow> (abort + process_context) \<times> 'e world" where
  "setup_context emu pf =
     and_then (effect (setup_stack emu STACK_ADDRESS STACK_SIZE)) (\<lambda>_.
     and_then (step (setup_kusd emu pf)) (\<lambda>kusd_object.
     and_then (step (setup_gs_segment emu GS_SEGMENT_ADDR GS_SEGMENT_SIZE)) (\<lambda>gs.
     and_then (lift (reserve_struct pf TEB_type gs)) (\<lambda>(teb_object, gs1).
     and_then (lift (reserve_struct pf PEB_type gs1)) (\<lambda>(peb_object, gs2).
     and_then (lift (reserve_struct pf PARAMETERS_type gs2)) (\<lambda>(params_object, gs3).
     and_then (effect (access_TEB teb_object (\<lambda>t.
         t\<lparr> NtTib := (NtTib t)\<lparr> StackLimit := STACK_ADDRESS,
                                  StackBase := STACK_ADDRESS + STACK_SIZE,
                                  Self := teb_object + offset_of_NtTib pf \<rparr>,
            ProcessEnvironmentBlock := peb_object \<rparr>))) (\<lambda>_.
     and_then (effect (access_PEB peb_object (\<lambda>p.
         p\<lparr> ImageBaseAddress := 0, ProcessHeap := 0, ProcessHeaps := 0,
            ProcessParameters := params_object \<rparr>))) (\<lambda>_.
     and_then (make_unicode_string emu (wide application_path) gs3) (\<lambda>(image_path_name, gs4).
     and_then (make_unicode_string emu (wide application_path) gs4) (\<lambda>(command_line, gs5).
     and_then (effect (access_PARAMETERS params_object (\<lambda>p.
         p\<lparr> Flags := 0x6001, ImagePathName := image_path_name,
            CommandLine := command_line \<rparr>))) (\<lambda>_.
       lift (Inr \<lparr> executable = no_binary, ntdll = no_binary, gs_segment = gs5,
                   teb = teb_object, peb = peb_object, process_params = params_object,
                   kusd = kusd_object \<rparr>))))))))))))"

section \<open>Section headers and export entries, as the statements below name them\<close>

text \<open>The \<open>k\<close> section headers from offset \<open>off\<close>, in the order of the section table.\<close>

fun section_headers :: "u8 list \<Rightarrow> nat \<Rightarrow> nat \<Rightarrow> abort + section_header list" where
  "section_headers module_data off 0 = Inr []"
| "section_headers module_data off (Suc k) =
     bnd (read_section_header module_data off) (\<lambda>s.
     bnd (section_headers module_data (off + 40) k) (\<lambda>rest. Inr (s # rest)))"

text \<open>
  What the specification says is done for one section: the copy of
  \<open>min SizeOfRawData VirtualSize\<close> bytes from file offset \<open>PointerToRawData\<close> to
  \<open>image_base + VirtualAddress\<close>, unless \<open>SizeOfRawData\<close> is 0, then the protection of
  \<open>page_align_up (max SizeOfRawData VirtualSize)\<close> bytes there.
\<close>

definition section_calls :: "u8 list \<Rightarrow> u64 \<Rightarrow> section_header \<Rightarrow> emu_call list" where
  "section_calls module_data base s =
     (if SizeOfRawData s = 0 then []
      else [write_memory_call (base + ucast (VirtualAddress s))
              (take (unat (min (SizeOfRawData s) (VirtualSize s)))
                 (drop (unat (PointerToRawData s)) module_data))]) @
     [protect_memory_call (base + ucast (VirtualAddress s))
        (page_align_up (ucast (max (SizeOfRawData s) (VirtualSize s))))
        (section_permissions (Characteristics s))]"

text \<open>
  Iteration \<open>i\<close> of the loop over the export names, as lines 150 to 157 read it:
  \<open>file_export_name\<close> is the string at \<^verbatim>\<open>ptr + names[i]\<close> and \<open>file_export_rva\<close> is
  \<^verbatim>\<open>functions[ordinals[i]]\<close>, every table and string taken at its offset in the file
  buffer \<^verbatim>\<open>ptr\<close>. \<open>file_export_entries\<close> lists the pairs of name and
  \<open>image_base + functions[ordinals[i]]\<close> for \<open>k\<close> iterations from \<open>i\<close> on.
\<close>

definition file_export_name :: "u8 list \<Rightarrow> export_directory \<Rightarrow> nat \<Rightarrow> abort + string" where
  "file_export_name module_data dir i =
     bnd (read_u32 module_data (unat (AddressOfNames dir) + 4 * i)) (\<lambda>name_rva.
       read_cstring module_data (unat name_rva))"

definition file_export_rva :: "u8 list \<Rightarrow> export_directory \<Rightarrow> nat \<Rightarrow> abort + u32" where
  "file_export_rva module_data dir i =
     bnd (read_u16 module_data (unat (AddressOfNameOrdinals dir) + 2 * i)) (\<lambda>ordinal.
       read_u32 module_data (unat (AddressOfFunctions dir) + 4 * unat ordinal))"

fun file_export_entries ::
  "u8 list \<Rightarrow> u64 \<Rightarrow> export_directory \<Rightarrow> nat \<Rightarrow> nat \<Rightarrow> abort + (string \<times> u64) list" where
  "file_export_entries module_data base dir i 0 = Inr []"
| "file_export_entries module_data base dir i (Suc k) =
     bnd (file_export_name module_data dir i) (\<lambda>name.
     bnd (file_export_rva module_data dir i) (\<lambda>rva.
     bnd (file_export_entries module_data base dir (i + 1) k) (\<lambda>rest.
       Inr ((name, base + ucast rva) # rest))))"

section \<open>The export directory of the mapped image, as the PE format defines it\<close>

text \<open>
  The fields of the export directory are relative virtual addresses (RVAs): offsets into
  the image as mapped, not into the file. In the mapped image the headers, the first
  \<open>SizeOfHeaders\<close> bytes of the file, lie at RVA 0, and the
  \<open>min SizeOfRawData VirtualSize\<close> bytes of a section from file offset
  \<open>PointerToRawData\<close> lie at RVA \<open>VirtualAddress\<close>. \<open>rva_to_offset\<close> is the file offset
  of the byte mapped at an RVA: in the last section of the table that holds the RVA
  (a later copy overwrites an earlier one), else the RVA itself within the headers.
\<close>

definition in_section :: "section_header \<Rightarrow> nat \<Rightarrow> bool" where
  "in_section s r \<longleftrightarrow>
     0 < SizeOfRawData s \<and> unat (VirtualAddress s) \<le> r \<and>
     r < unat (VirtualAddress s) + unat (min (SizeOfRawData s) (VirtualSize s))"

definition rva_to_offset :: "nat \<Rightarrow> section_header list \<Rightarrow> nat \<Rightarrow> nat option" where
  "rva_to_offset size_of_headers secs r =
     (case find (\<lambda>s. in_section s r) (rev secs) of
        Some s \<Rightarrow> Some (unat (PointerToRawData s) + (r - unat (VirtualAddress s)))
      | None \<Rightarrow> if r < size_of_headers then Some r else None)"

text \<open>The size of the headers and the section table of a file.\<close>

definition image_layout :: "u8 list \<Rightarrow> abort + nat \<times> section_header list" where
  "image_layout module_data =
     bnd (nt_headers_of module_data) (\<lambda>nt.
     bnd (SizeOfHeaders module_data nt) (\<lambda>size_of_headers.
     bnd (IMAGE_FIRST_SECTION module_data nt) (\<lambda>first.
     bnd (NumberOfSections module_data nt) (\<lambda>count.
     bnd (section_headers module_data first (unat count)) (\<lambda>secs.
       Inr (unat size_of_headers, secs))))))"

text \<open>The byte of the mapped image at an RVA, if the image has one there.\<close>

definition image_byte :: "u8 list \<Rightarrow> nat \<Rightarrow> u8 option" where
  "image_byte module_data r =
     (case image_layout module_data of
        Inl a \<Rightarrow> None
      | Inr (size_of_headers, secs) \<Rightarrow>
          (case rva_to_offset size_of_headers secs r of
             None \<Rightarrow> None
           | Some off \<Rightarrow>
               if off < length module_data then Some (module_data ! off) else None))"

text \<open>Little-endian values and NUL-terminated strings of an image \<open>img\<close>, given byte by
  byte. \<open>image_cstring img r n\<close> is the string at RVA \<open>r\<close> whose NUL is among the next
  \<open>n\<close> bytes.\<close>

definition image_bytes :: "(nat \<Rightarrow> u8 option) \<Rightarrow> nat \<Rightarrow> nat \<Rightarrow> u8 list option" where
  "image_bytes img r n = those (map img [r..<r + n])"

definition image_u16 :: "(nat \<Rightarrow> u8 option) \<Rightarrow> nat \<Rightarrow> u16 option" where
  "image_u16 img r = map_option (\<lambda>bs. word_of_nat (le_nat bs)) (image_bytes img r 2)"

definition image_u32 :: "(nat \<Rightarrow> u8 option) \<Rightarrow> nat \<Rightarrow> u32 option" where
  "image_u32 img r = map_option (\<lambda>bs. word_of_nat (le_nat bs)) (image_bytes img r 4)"

fun image_cstring :: "(nat \<Rightarrow> u8 option) \<Rightarrow> nat \<Rightarrow> nat \<Rightarrow> string option" where
  "image_cstring img r 0 = None"
| "image_cstring img r (Suc n) =
     (case img r of
        None \<Rightarrow> None
      | Some b \<Rightarrow>
          if b = 0 then Some []
          else map_option ((#) (char_of (unat b))) (image_cstring img (r + 1) n))"

text \<open>
  The export directory at RVA \<open>r\<close> of the mapped image, and entry \<open>i\<close> of its name
  table: \<open>image_export_name\<close> is the string at the RVA \<open>AddressOfNames[i]\<close> and
  \<open>image_export_rva\<close> is \<open>functions[ordinals[i]]\<close>, with
  \<open>ordinals[i] = AddressOfNameOrdinals[i]\<close>, the three tables at their RVAs. A string of
  the image is not longer than the file it came from.
\<close>

definition image_export_directory :: "u8 list \<Rightarrow> nat \<Rightarrow> export_directory option" where
  "image_export_directory module_data r =
     Option.bind (image_u32 (image_byte module_data) (r + 24)) (\<lambda>n.
     Option.bind (image_u32 (image_byte module_data) (r + 28)) (\<lambda>functions.
     Option.bind (image_u32 (image_byte module_data) (r + 32)) (\<lambda>names.
     Option.bind (image_u32 (image_byte module_data) (r + 36)) (\<lambda>ordinals.
       Some \<lparr> NumberOfNames = n, AddressOfFunctions = functions,
              AddressOfNames = names, AddressOfNameOrdinals = ordinals \<rparr>))))"

definition image_export_name :: "u8 list \<Rightarrow> export_directory \<Rightarrow> nat \<Rightarrow> string option" where
  "image_export_name module_data dir i =
     Option.bind (image_u32 (image_byte module_data) (unat (AddressOfNames dir) + 4 * i))
       (\<lambda>name_rva. image_cstring (image_byte module_data) (unat name_rva) (length module_data))"

definition image_export_rva :: "u8 list \<Rightarrow> export_directory \<Rightarrow> nat \<Rightarrow> u32 option" where
  "image_export_rva module_data dir i =
     Option.bind (image_u16 (image_byte module_data) (unat (AddressOfNameOrdinals dir) + 2 * i))
       (\<lambda>ordinal. image_u32 (image_byte module_data)
                     (unat (AddressOfFunctions dir) + 4 * unat ordinal))"

text \<open>
  \<open>file_offsets_are_rvas\<close>: every byte of the file lies, in the mapped image, at the RVA
  equal to its file offset. For such a file an RVA and the same offset into the file
  buffer name the same byte.
\<close>

definition file_offsets_are_rvas :: "u8 list \<Rightarrow> bool" where
  "file_offsets_are_rvas module_data \<longleftrightarrow>
     list_all (\<lambda>r. image_byte module_data r = Some (module_data ! r))
       [0..<length module_data]"

section \<open>The run loop: run and main\<close>

text \<open>\<^verbatim>\<open>load_file\<close>: a stream that cannot be opened yields no bytes.\<close>

definition load_file :: "platform \<Rightarrow> string \<Rightarrow> u8 list" where
  "load_file pf file = (case files pf file of None \<Rightarrow> [] | Some data \<Rightarrow> data)"

definition map_file ::
  "'e x64_emulator \<Rightarrow> platform \<Rightarrow> string \<Rightarrow> 'e world \<Rightarrow> (abort + mapped_binary) \<times> 'e world" where
  "map_file emu pf file = map_module emu (load_file pf file) (generic_string pf file)"

definition watch_object ::
  "'e x64_emulator \<Rightarrow> platform \<Rightarrow> guest_type \<Rightarrow> u64 \<Rightarrow> 'e world \<Rightarrow> 'e world" where
  "watch_object emu pf T object =
     (let info = make_type_info (reflected_name (layout pf T)) (reflected_members (layout pf T))
      in hook_memory_read emu object (size_of (layout pf T)) (struct_watch info object))"

text \<open>
  \<^verbatim>\<open>std::unordered_map::try_emplace\<close> inserts only when the key is absent. The order in
  which an unordered map is iterated is unspecified; the model keeps the entries in the
  order of insertion, and the properties below do not depend on the order.
\<close>

definition try_emplace :: "'k \<Rightarrow> 'v \<Rightarrow> ('k \<times> 'v) list \<Rightarrow> ('k \<times> 'v) list" where
  "try_emplace k v m = (if k \<in> fst ` set m then m else m @ [(k, v)])"

text \<open>Lines 308 to 312.\<close>

definition export_remap :: "(string \<times> u64) list \<Rightarrow> (u64 \<times> string) list" where
  "export_remap ex = foldl (\<lambda>m exp. try_emplace (snd exp) (fst exp) m) [] ex"

text \<open>Lines 314 to 327.\<close>

definition install_export_hooks ::
  "'e x64_emulator \<Rightarrow> (u64 \<times> string) list \<Rightarrow> 'e world \<Rightarrow> 'e world" where
  "install_export_hooks emu remap w =
     foldl (\<lambda>w1 exp. hook_memory_execution emu (fst exp) 0 (export_trace (snd exp)) w1) w remap"

definition ntdll_path :: string where
  "ntdll_path =
     ''C:'' @ [backslash] @ ''Windows'' @ [backslash] @ ''System32'' @ [backslash] @
     ''ntdll.dll''"

text \<open>Lines 365 to 373: the call of \<^verbatim>\<open>start\<close> in its \<^verbatim>\<open>try\<close> block.\<close>

definition start_guarded :: "'e x64_emulator \<Rightarrow> u64 \<Rightarrow> 'e world \<Rightarrow> (abort + unit) \<times> 'e world" where
  "start_guarded emu entry w =
     (case start emu entry w of
        (None, w1) \<Rightarrow> (Inr (), w1)
      | (Some e, w1) \<Rightarrow>
          (Inl (thrown e),
           printf (''Emulation failed at: '' @ format_llX (reg emu rip w1) @ [CHR 0x0A]) w1))"

text \<open>Lines 291 to 300: the context, the two images and the image base in the PEB.\<close>

definition build_process ::
  "'e x64_emulator \<Rightarrow> platform \<Rightarrow> 'e world \<Rightarrow> (abort + process_context) \<times> 'e world" where
  "build_process emu pf =
     and_then (setup_context emu pf) (\<lambda>context0.
     and_then (map_file emu pf application_path) (\<lambda>exe.
     and_then (effect (access_PEB (peb context0) (\<lambda>p.
         p\<lparr> ImageBaseAddress := image_base exe \<rparr>))) (\<lambda>_.
     and_then (map_file emu pf ntdll_path) (\<lambda>dll.
       lift (Inr (context0\<lparr> executable := exe, ntdll := dll \<rparr>))))))"

text \<open>Lines 302 to 375.\<close>

definition run_process ::
  "'e x64_emulator \<Rightarrow> platform \<Rightarrow> process_context \<Rightarrow> 'e world \<Rightarrow> (abort + unit) \<times> 'e world" where
  "run_process emu pf context0 =
     and_then (lift (std_map_at (exports (ntdll context0)) ''LdrInitializeThunk'')) (\<lambda>entry1.
     and_then (lift (std_map_at (exports (ntdll context0)) ''RtlUserThreadStart'')) (\<lambda>entry2.
     and_then (effect (install_export_hooks emu (export_remap (exports (ntdll context0))))) (\<lambda>_.
     and_then (effect (hook_instruction_syscall emu syscall_handler)) (\<lambda>_.
     and_then (effect (watch_object emu pf TEB_type (teb context0))) (\<lambda>_.
     and_then (effect (watch_object emu pf PEB_type (peb context0))) (\<lambda>_.
     and_then (effect (watch_object emu pf PARAMETERS_type (process_params context0))) (\<lambda>_.
     and_then (effect (watch_object emu pf KUSD_type (kusd context0))) (\<lambda>_.
     and_then (effect (hook_memory_execution emu 0 (- 1) global_trace)) (\<lambda>_.
     and_then (lift (reserve_struct pf CONTEXT_type (gs_segment context0))) (\<lambda>(execution_context, gs).
     and_then (effect (set_reg emu rcx execution_context)) (\<lambda>_.
     and_then (effect (set_reg emu rdx (image_base (ntdll context0)))) (\<lambda>_.
     and_then (start_guarded emu entry1) (\<lambda>_.
       effect (printf (''Emulation done.'' @ [CHR 0x0A])))))))))))))))"

definition run :: "'e x64_emulator \<Rightarrow> platform \<Rightarrow> 'e world \<Rightarrow> (abort + unit) \<times> 'e world" where
  "run emu pf = and_then (build_process emu pf) (run_process emu pf)"

text \<open>
  \<^verbatim>\<open>main\<close> returns 0 when \<^verbatim>\<open>run\<close> returns, and prints \<^verbatim>\<open>what()\<close> and returns 1 when
  \<^verbatim>\<open>run\<close> throws. After a read outside a buffer the program has no defined result.
\<close>

definition main :: "'e x64_emulator \<Rightarrow> platform \<Rightarrow> 'e world \<Rightarrow> int option \<times> 'e world" where
  "main emu pf w =
     (case run emu pf w of
        (Inr _, w1) \<Rightarrow> (Some 0, w1)
      | (Inl (thrown uce), w1) \<Rightarrow> (Some 1, puts (what uce) w1)
      | (Inl out_of_bounds, w1) \<Rightarrow> (None, w1))"

text \<open>The calls that install a hook.\<close>

fun is_hook_call :: "emu_call \<Rightarrow> bool" where
  "is_hook_call (hook_memory_read_call a n cb) = True"
| "is_hook_call (hook_memory_execution_call a n cb) = True"
| "is_hook_call (hook_instruction_syscall_call cb) = True"
| "is_hook_call c = False"

section \<open>Examples: a small emulator and a small PE image\<close>

text \<open>
  An emulator for the examples below: its state is the list of mapped ranges, the register
  file and the fault its \<^verbatim>\<open>start\<close> raises, if any. An allocation fails when it overlaps a
  mapped range.
\<close>

record test_state =
  regions :: "(u64 \<times> u64) list"
  registers :: "(x64_register \<times> u64) list"
  fault :: "exn option"

definition overlaps :: "u64 \<Rightarrow> u64 \<Rightarrow> u64 \<times> u64 \<Rightarrow> bool" where
  "overlaps a n r = (unat a < unat (fst r) + unat (snd r) \<and> unat (fst r) < unat a + unat n)"

definition test_emu :: "test_state x64_emulator" where
  "test_emu =
     \<lparr> emu_allocate_memory = (\<lambda>a n p e.
          if list_ex (overlaps a n) (regions e) \<or> 0x800000000000 < unat a + unat n
          then (False, e)
          else (True, e\<lparr> regions := (a, n) # regions e \<rparr>)),
       emu_find_free_allocation_base = (\<lambda>n e.
          (page_align_up (foldr (\<lambda>r m. max (fst r + snd r) m) (regions e) 0x10000), e)),
       emu_write_memory = (\<lambda>a bs e. e),
       emu_protect_memory = (\<lambda>a n p e. e),
       emu_reg = (\<lambda>r e. case map_of (registers e) r of None \<Rightarrow> 0 | Some v \<Rightarrow> v),
       emu_set_reg = (\<lambda>r v e. e\<lparr> registers := (r, v) # registers e \<rparr>),
       emu_write_msr = (\<lambda>i v e. e),
       emu_hook_memory_read = (\<lambda>a n c e. e),
       emu_hook_memory_execution = (\<lambda>a n c e. e),
       emu_hook_instruction_syscall = (\<lambda>c e. e),
       emu_start = (\<lambda>a e. ((fault e, []), e\<lparr> registers := (rip, a + 3) # registers e \<rparr>)) \<rparr>"

definition test_world :: "(u64 \<times> u64) list \<Rightarrow> test_state world" where
  "test_world rs =
     \<lparr> emu_state = \<lparr> regions = rs, registers = [], fault = None \<rparr>, calls = [], stdout = [],
       guest = (\<lambda>a. None) \<rparr>"

text \<open>A state in which \<^verbatim>\<open>start\<close> throws.\<close>

definition faulting_world :: "exn \<Rightarrow> test_state world" where
  "faulting_world e =
     \<lparr> emu_state = \<lparr> regions = [], registers = [], fault = Some e \<rparr>, calls = [],
       stdout = [], guest = (\<lambda>a. None) \<rparr>"

definition u16_bytes :: "u16 \<Rightarrow> u8 list" where
  "u16_bytes v = [ucast v, ucast (drop_bit 8 v)]"

definition u32_bytes :: "u32 \<Rightarrow> u8 list" where
  "u32_bytes v = [ucast v, ucast (drop_bit 8 v), ucast (drop_bit 16 v), ucast (drop_bit 24 v)]"

definition u64_bytes :: "u64 \<Rightarrow> u8 list" where
  "u64_bytes v = u32_bytes (ucast v) @ u32_bytes (ucast (drop_bit 32 v))"

definition cstr :: "string \<Rightarrow> u8 list" where
  "cstr s = map of_char s @ [0]"

text \<open>
  A PE image builder: a file of 512 bytes, all of them headers (\<open>SizeOfHeaders\<close> is
  512), so that every byte of the file is mapped at the RVA equal to its file offset. NT
  headers at 0x40, image size 0x2000, one section (virtual address 0x1000, virtual size
  0x10, 8 raw bytes at file offset 368, readable and executable) and an export directory
  at 384 with three names and two functions: the first and the third name are function
  0, at 0x500, and the second name is function 1. The parameters are
  \<^verbatim>\<open>DllCharacteristics\<close>, the preferred base, the address of function 1, the name table
  (the places of three strings) and the strings, stored from 452 and padded with zeros.
\<close>

definition pe_image :: "u16 \<Rightarrow> u64 \<Rightarrow> u32 \<Rightarrow> u32 list \<Rightarrow> string list \<Rightarrow> u8 list" where
  "pe_image dc base rva name_table strings =
     replicate 60 0 @ u32_bytes 64 @
     replicate 6 0 @ u16_bytes 1 @ replicate 12 0 @ u16_bytes 240 @ replicate 2 0 @
     replicate 24 0 @ u64_bytes base @ replicate 24 0 @ u32_bytes 0x2000 @
       u32_bytes 512 @ replicate 6 0 @ u16_bytes dc @ replicate 40 0 @
       u32_bytes 384 @ u32_bytes 80 @ replicate 120 0 @
     replicate 8 0 @ u32_bytes 0x10 @ u32_bytes 0x1000 @ u32_bytes 0x8 @ u32_bytes 368 @
       replicate 12 0 @ u32_bytes 0x60000000 @
     replicate 16 0x90 @
     replicate 24 0 @ u32_bytes 3 @ u32_bytes 444 @ u32_bytes 424 @ u32_bytes 436 @
     concat (map u32_bytes name_table) @
     u16_bytes 0 @ u16_bytes 1 @ u16_bytes 0 @ replicate 2 0 @
     u32_bytes 0x500 @ u32_bytes rva @
     concat (map cstr strings) @
     replicate (60 - length (concat (map cstr strings))) 0"

text \<open>
  The image of the examples: preferred base 0x180000000, the strings foo (at 452), bar
  (at 456) and baz (at 460), and the name table bar, \<open>name1\<close>, foo (460 for baz).
\<close>

definition test_image :: "u16 \<Rightarrow> u32 \<Rightarrow> u32 \<Rightarrow> u8 list" where
  "test_image dc rva name1 =
     pe_image dc 0x180000000 rva [456, name1, 452] [''foo'', ''bar'', ''baz'']"

text \<open>A library image at 0x7FF800000000 whose names are those \<^verbatim>\<open>run\<close> looks up:
  \<^verbatim>\<open>LdrInitializeThunk\<close> and \<^verbatim>\<open>RtlUserThreadStart\<close> are function 0 and
  \<^verbatim>\<open>RtlImageNtHeaderEx\<close> is function 1, at 0x600.\<close>

definition test_ntdll :: "u8 list" where
  "test_ntdll =
     pe_image 0x40 0x7FF800000000 0x600 [452, 490, 471]
       [''LdrInitializeThunk'', ''RtlUserThreadStart'', ''RtlImageNtHeaderEx'']"

definition test_layout :: "guest_type \<Rightarrow> struct_layout" where
  "test_layout T =
     (case T of
        TEB_type \<Rightarrow>
          \<lparr> size_of = 0x1838, align_of = 8, reflected_name = ''TEB'',
            reflected_members = [(0, ''NtTib''), (0x60, ''ProcessEnvironmentBlock'')] \<rparr>
      | PEB_type \<Rightarrow>
          \<lparr> size_of = 0x7C8, align_of = 8, reflected_name = ''PEB'',
            reflected_members = [(0x10, ''ImageBaseAddress''), (0x20, ''ProcessParameters'')] \<rparr>
      | PARAMETERS_type \<Rightarrow>
          \<lparr> size_of = 0x440, align_of = 8, reflected_name = ''RTL_USER_PROCESS_PARAMETERS'',
            reflected_members = [(8, ''Flags''), (0x60, ''ImagePathName''),
                                 (0x70, ''CommandLine'')] \<rparr>
      | KUSD_type \<Rightarrow>
          \<lparr> size_of = 0x720, align_of = 4, reflected_name = ''KUSER_SHARED_DATA'',
            reflected_members = [(0x2C, ''ImageNumberLow''), (0x2E, ''ImageNumberHigh'')] \<rparr>
      | CONTEXT_type \<Rightarrow>
          \<lparr> size_of = 0x4D0, align_of = 16, reflected_name = ''CONTEXT'',
            reflected_members = [] \<rparr>)"

definition test_platform :: platform where
  "test_platform =
     \<lparr> layout = test_layout,
       offset_of_NtTib = 0,
       files = (\<lambda>file. if file = application_path then Some (test_image 0 0x600 460)
                        else if file = ntdll_path then Some test_ntdll
                        else None),
       generic_string = (\<lambda>file. file),
       host_kusd = \<lparr> ImageNumberLow = 0, ImageNumberHigh = 0, ProcessorFeatures = [],
                     other_fields = [] \<rparr> \<rparr>"

text \<open>The process that \<^verbatim>\<open>run\<close> builds from the two images above.\<close>

definition test_context :: process_context where
  "test_context =
     \<lparr> executable = \<lparr> image_base = 0x180000000, size_of_image = 0x2000,
                       exports = [(''bar'', 0x180000500), (''baz'', 0x180000600),
                                  (''foo'', 0x180000500)] \<rparr>,
       ntdll = \<lparr> image_base = 0x7FF800000000, size_of_image = 0x2000,
                  exports = [(''LdrInitializeThunk'', 0x7FF800000500),
                             (''RtlImageNtHeaderEx'', 0x7FF800000600),
                             (''RtlUserThreadStart'', 0x7FF800000500)] \<rparr>,
       gs_segment = \<lparr> region_address = 0x6000000, region_size = 0x1400000,
                       active_address = 0x60024FC \<rparr>,
       teb = 0x6000000, peb = 0x6001838, process_params = 0x6002000,
       kusd = 0x7ffe0000 \<rparr>"

section \<open>Properties\<close>

subsection \<open>Evaluation of the examples by rewriting\<close>

lemmas img_defs = test_image_def pe_image_def u32_bytes_def u64_bytes_def u16_bytes_def cstr_def
lemmas rd_defs = read_u64_def read_u32_def read_u16_def read_bytes_def bnd_def le_nat_def
lemmas emu_defs = allocate_memory_def find_free_allocation_base_def test_emu_def
  test_world_def overlaps_def page_align_up_def

lemma pair_fst: "fst p = a \<Longrightarrow> p = (a, snd p)"
  by auto

lemmas hdr_defs = nt_headers_of_def ImageBase_def SizeOfImage_def SizeOfHeaders_def
  DllCharacteristics_def NumberOfSections_def SizeOfOptionalHeader_def IMAGE_FIRST_SECTION_def
  export_directory_entry_def read_export_directory_def read_section_header_def
  read_cstring_def
lemmas map_defs = map_module_def map_image_def allocate_image_def map_section_def
  read_exports_def section_permissions_def IMAGE_SCN_MEM_EXECUTE_def IMAGE_SCN_MEM_READ_def
  IMAGE_SCN_MEM_WRITE_def IMAGE_DLLCHARACTERISTICS_DYNAMIC_BASE_def
  write_memory_def protect_memory_def printf_def format_llX_def hex_digit_def
  and_then_def lift_def effect_def

lemma collect_exports_numeral:
  "collect_exports module_data base dir i (numeral k) ex =
     bnd (read_u32 module_data (unat (AddressOfNames dir) + 4 * i)) (\<lambda>name_rva.
     bnd (read_u16 module_data (unat (AddressOfNameOrdinals dir) + 2 * i)) (\<lambda>ordinal.
     bnd (read_u32 module_data (unat (AddressOfFunctions dir) + 4 * unat ordinal)) (\<lambda>function_rva.
     bnd (read_cstring module_data (unat name_rva)) (\<lambda>function_name.
       collect_exports module_data base dir (i + 1) (pred_numeral k)
         (std_map_assign function_name (base + ucast function_rva) ex)))))"
  by (simp add: numeral_eq_Suc)

lemma replicate_numeral: "replicate (numeral k) x = x # replicate (pred_numeral k) x"
  by (simp add: numeral_eq_Suc)

lemma upt_numeral: "[i..<numeral n] = (if i < numeral n then i # [Suc i..<numeral n] else [])"
  by (rule upt_rec)

lemmas eval_simps = replicate_numeral upt_numeral collect_exports_numeral char_of_eq_iff
  less_char_def

subsection \<open>Sequencing and failures\<close>

lemma and_then_Inl: "m w = (Inl a, w1) \<Longrightarrow> and_then m f w = (Inl a, w1)"
  by (simp add: and_then_def)

lemma and_then_Inr: "m w = (Inr x, w1) \<Longrightarrow> and_then m f w = f x w1"
  by (simp add: and_then_def)

lemma and_then_lift_Inr [simp]: "and_then (lift (Inr x)) f w = f x w"
  by (simp add: and_then_def lift_def)

lemma and_then_lift_Inl [simp]: "and_then (lift (Inl a)) f w = (Inl a, w)"
  by (simp add: and_then_def lift_def)

lemma and_then_effect [simp]: "and_then (effect g) f w = f () (g w)"
  by (simp add: and_then_def effect_def)

lemma and_then_cases:
  assumes "and_then m f w = (r, w')"
  obtains (abort) a where "m w = (Inl a, w')" "r = Inl a"
        | (continue) x w1 where "m w = (Inr x, w1)" "f x w1 = (r, w')"
  using assms by (auto simp: and_then_def split: prod.splits sum.splits)

lemma and_then_lift_cases:
  assumes "and_then (lift v) f w = (r, w')"
  obtains (abort) a where "v = Inl a" "r = Inl a" "w' = w"
        | (continue) x where "v = Inr x" "f x w = (r, w')"
  using assms by (cases v) auto

lemma map_section_calls:
  "map_section emu data base section w = (r, w') \<Longrightarrow> \<exists>rest. calls w' = calls w @ rest"
  by (auto simp: map_section_def Let_def write_memory_def protect_memory_def
           split: if_splits sum.splits)

lemma map_section_abort:
  "map_section emu data base section w = (Inl a, w') \<Longrightarrow> a = out_of_bounds \<and> w' = w"
  by (auto simp: map_section_def Let_def read_bytes_def split: if_splits sum.splits)

lemma map_section_stdout:
  "map_section emu data base section w = (r, w') \<Longrightarrow> stdout w' = stdout w"
  by (auto simp: map_section_def Let_def write_memory_def protect_memory_def
           split: if_splits sum.splits)

lemma bnd_Inl_iff: "bnd m f = Inl a \<longleftrightarrow> m = Inl a \<or> (\<exists>x. m = Inr x \<and> f x = Inl a)"
  by (cases m) (auto simp: bnd_def)

lemma read_bytes_abort: "read_bytes data off n = Inl a \<Longrightarrow> a = out_of_bounds"
  by (auto simp: read_bytes_def split: if_splits)

lemma read_u16_abort: "read_u16 data off = Inl a \<Longrightarrow> a = out_of_bounds"
  by (auto simp: read_u16_def bnd_Inl_iff dest: read_bytes_abort)

lemma read_u32_abort: "read_u32 data off = Inl a \<Longrightarrow> a = out_of_bounds"
  by (auto simp: read_u32_def bnd_Inl_iff dest: read_bytes_abort)

lemma read_u64_abort: "read_u64 data off = Inl a \<Longrightarrow> a = out_of_bounds"
  by (auto simp: read_u64_def bnd_Inl_iff dest: read_bytes_abort)

lemma read_cstring_abort: "read_cstring data off = Inl a \<Longrightarrow> a = out_of_bounds"
  by (auto simp: read_cstring_def split: if_splits)

lemma read_section_header_abort: "read_section_header data off = Inl a \<Longrightarrow> a = out_of_bounds"
  by (auto simp: read_section_header_def bnd_Inl_iff dest: read_bytes_abort)

lemma map_sections_abort:
  "map_sections emu data base off k w = (Inl a, w') \<Longrightarrow> a = out_of_bounds"
proof (induction k arbitrary: off w)
  case 0
  then show ?case by simp
next
  case (Suc k)
  then show ?case
    by (auto split: sum.splits prod.splits
             dest: read_section_header_abort map_section_abort)
qed

lemma collect_exports_abort:
  "collect_exports data base dir i k ex = Inl a \<Longrightarrow> a = out_of_bounds"
proof (induction k arbitrary: i ex)
  case 0
  then show ?case by simp
next
  case (Suc k)
  then show ?case
    by (auto simp: bnd_Inl_iff dest: read_u32_abort read_u16_abort read_cstring_abort)
qed

lemma read_exports_abort: "read_exports data nt base = Inl a \<Longrightarrow> a = out_of_bounds"
  by (auto simp: read_exports_def export_directory_entry_def read_export_directory_def
                 bnd_Inl_iff
           split: if_splits dest: read_u32_abort collect_exports_abort)

lemma map_image_abort:
  assumes "map_image emu data name nt n base w = (Inl a, w')"
  shows "a = out_of_bounds"
  using assms unfolding map_image_def
  by (auto elim!: and_then_lift_cases and_then_cases
           simp: SizeOfHeaders_def IMAGE_FIRST_SECTION_def SizeOfOptionalHeader_def
                 NumberOfSections_def bnd_Inl_iff lift_def effect_def
           dest: read_u32_abort read_u16_abort read_bytes_abort map_sections_abort
                 read_exports_abort)


lemma allocate_image_result:
  assumes "allocate_memory emu preferred n {perm_read} w = (ok1, w1)"
      and "find_free_allocation_base emu n w1 = (base, w2)"
      and "allocate_memory emu base n {perm_read} w2 = (ok2, w3)"
  shows "allocate_image emu data nt preferred n w =
           (if ok1 then (Inr preferred, w1)
            else case DllCharacteristics data nt of
                   Inl a \<Rightarrow> (Inl a, w2)
                 | Inr dc \<Rightarrow>
                     if dc AND IMAGE_DLLCHARACTERISTICS_DYNAMIC_BASE = 0
                     then (Inl (thrown (runtime_error ''Failed to map binary'')), w2)
                     else if ok2 then (Inr base, w3)
                     else (Inl (thrown (runtime_error ''Failed to map binary'')), w3))"
  using assms by (cases ok1; cases ok2) (simp_all add: allocate_image_def split: sum.splits)

lemma map_image_base:
  assumes "map_image emu data name nt n base w = (Inr b, w')"
  shows "image_base b = base \<and> size_of_image b = n"
  using assms unfolding map_image_def
  by (auto elim!: and_then_lift_cases and_then_cases simp: lift_def effect_def)

text \<open>
  Claim C1. Suppose the allocation at the preferred base (\<^verbatim>\<open>OptionalHeader.ImageBase\<close>,
  size \<^verbatim>\<open>SizeOfImage\<close>, read-only) fails. Without \<^verbatim>\<open>DYNAMIC_BASE\<close> in
  \<^verbatim>\<open>DllCharacteristics\<close>, \<open>map_module\<close> throws "Failed to map binary". With it, the
  allocation is retried at the base that \<open>find_free_allocation_base\<close> returned for the
  image size: if the retry succeeds the mapping goes on at that base, which becomes
  \<open>image_base\<close> (the only way left to fail is a read outside the buffer), and if the
  retry fails \<open>map_module\<close> throws "Failed to map binary". The source asks for the free
  base before it looks at \<^verbatim>\<open>DllCharacteristics\<close>, so the query is made in both cases.
\<close>

theorem map_module_fallback:
  assumes "nt_headers_of data = Inr nt"
      and "ImageBase data nt = Inr preferred"
      and "SizeOfImage data nt = Inr size32"
      and "DllCharacteristics data nt = Inr dc"
      and "allocate_memory emu preferred (ucast size32) {perm_read} w = (False, w1)"
      and "find_free_allocation_base emu (ucast size32) w1 = (base, w2)"
      and "allocate_memory emu base (ucast size32) {perm_read} w2 = (ok, w3)"
  shows "if dc AND IMAGE_DLLCHARACTERISTICS_DYNAMIC_BASE = 0
         then map_module emu data name w =
                (Inl (thrown (runtime_error ''Failed to map binary'')), w2)
         else if ok
         then map_module emu data name w = map_image emu data name nt (ucast size32) base w3 \<and>
              (case fst (map_module emu data name w) of
                 Inr b \<Rightarrow> image_base b = base
               | Inl a \<Rightarrow> a = out_of_bounds)
         else map_module emu data name w =
                (Inl (thrown (runtime_error ''Failed to map binary'')), w3)"
proof -
  have alloc: "allocate_image emu data nt preferred (ucast size32) w =
          (if dc AND IMAGE_DLLCHARACTERISTICS_DYNAMIC_BASE = 0
           then (Inl (thrown (runtime_error ''Failed to map binary'')), w2)
           else if ok then (Inr base, w3)
           else (Inl (thrown (runtime_error ''Failed to map binary'')), w3))"
    using allocate_image_result [OF assms(5-7), of data nt] assms(4) by simp
  have unfold: "map_module emu data name w =
          and_then (allocate_image emu data nt preferred (ucast size32))
            (\<lambda>base. map_image emu data name nt (ucast size32) base) w"
    by (simp add: map_module_def assms(1-3))
  show ?thesis
  proof (cases "dc AND IMAGE_DLLCHARACTERISTICS_DYNAMIC_BASE = 0")
    case True
    then show ?thesis by (simp add: unfold and_then_def alloc)
  next
    case no_fixed: False
    show ?thesis
    proof (cases ok)
      case False
      with no_fixed show ?thesis by (simp add: unfold and_then_def alloc)
    next
      case True
      with no_fixed have eq: "map_module emu data name w =
          map_image emu data name nt (ucast size32) base w3"
        by (simp add: unfold and_then_def alloc)
      obtain r w' where r: "map_image emu data name nt (ucast size32) base w3 = (r, w')"
        by (cases "map_image emu data name nt (ucast size32) base w3")
      have "case r of Inr b \<Rightarrow> image_base b = base | Inl a \<Rightarrow> a = out_of_bounds"
        using map_image_base [of emu data name nt "ucast size32" base w3 _ w']
              map_image_abort [of emu data name nt "ucast size32" base w3 _ w'] r
        by (cases r) auto
      with no_fixed True eq r show ?thesis by simp
    qed
  qed
qed


lemma allocate_image_thrown:
  assumes "allocate_image emu data nt preferred n w = (Inl (thrown e), w')"
  shows "e = runtime_error ''Failed to map binary'' \<and> stdout w' = stdout w \<and>
         (\<exists>base.
            calls w' = calls w @ [allocate_memory_call preferred n {perm_read} False,
                                 find_free_allocation_base_call n base] \<or>
            calls w' = calls w @ [allocate_memory_call preferred n {perm_read} False,
                                 find_free_allocation_base_call n base,
                                 allocate_memory_call base n {perm_read} False])"
  using assms
  by (auto simp: allocate_image_def allocate_memory_def find_free_allocation_base_def
                 DllCharacteristics_def
           split: prod.splits sum.splits if_splits bool.splits dest: read_u16_abort)

lemma header_aborts:
  "nt_headers_of data = Inl a \<Longrightarrow> a = out_of_bounds"
  "ImageBase data nt = Inl a \<Longrightarrow> a = out_of_bounds"
  "SizeOfImage data nt = Inl a \<Longrightarrow> a = out_of_bounds"
  by (auto simp: nt_headers_of_def ImageBase_def SizeOfImage_def bnd_Inl_iff
           split: if_splits dest: read_u32_abort read_u64_abort)

lemma allocation_stage_thrown:
  assumes "and_then (allocate_image emu data nt preferred n)
             (\<lambda>base. map_image emu data name nt n base) w = (Inl (thrown e), w')"
  shows "e = runtime_error ''Failed to map binary'' \<and> stdout w' = stdout w \<and>
         (\<exists>base.
            calls w' = calls w @ [allocate_memory_call preferred n {perm_read} False,
                                 find_free_allocation_base_call n base] \<or>
            calls w' = calls w @ [allocate_memory_call preferred n {perm_read} False,
                                 find_free_allocation_base_call n base,
                                 allocate_memory_call base n {perm_read} False])"
  using assms
proof (cases rule: and_then_cases)
  case (abort a)
  then show ?thesis using allocate_image_thrown [of emu data nt preferred n w e w'] by simp
next
  case (continue base w1)
  then show ?thesis using map_image_abort by blast
qed

text \<open>
  Claim C10. A failed mapping is atomic for guest memory: when \<open>map_module\<close> throws,
  the exception is "Failed to map binary", nothing was printed, and the only calls it made
  on the emulator are the failed allocation at the preferred base, the query for a free
  base and, possibly, the failed allocation at that base. No allocation succeeded, no
  byte was written and no protection was changed.
\<close>

theorem map_module_failure_atomic:
  assumes "map_module emu data name w = (Inl (thrown e), w')"
  shows "e = runtime_error ''Failed to map binary'' \<and> stdout w' = stdout w \<and>
         (\<exists>preferred n base.
            calls w' = calls w @ [allocate_memory_call preferred n {perm_read} False,
                                 find_free_allocation_base_call n base] \<or>
            calls w' = calls w @ [allocate_memory_call preferred n {perm_read} False,
                                 find_free_allocation_base_call n base,
                                 allocate_memory_call base n {perm_read} False])"
  using assms unfolding map_module_def
  by (elim and_then_lift_cases)
     (auto dest: header_aborts dest!: allocation_stage_thrown)

subsection \<open>Sections\<close>

lemma map_section_success:
  assumes "map_section emu data base s w = (Inr u, w')"
  shows "calls w' = calls w @ section_calls data base s"
  using assms
  by (auto simp: map_section_def section_calls_def Let_def read_bytes_def write_memory_def
                 protect_memory_def word_greater_zero_iff
           split: if_splits sum.splits)

lemma map_sections_success:
  "map_sections emu data base off k w = (Inr u, w') \<Longrightarrow>
     \<exists>secs. section_headers data off k = Inr secs \<and>
            calls w' = calls w @ concat (map (section_calls data base) secs)"
proof (induction k arbitrary: off w)
  case 0
  then show ?case by simp
next
  case (Suc k)
  from Suc.prems obtain s w1 where
    s: "read_section_header data off = Inr s" and
    m: "map_section emu data base s w = (Inr (), w1)" and
    rest: "map_sections emu data base (off + 40) k w1 = (Inr u, w')"
    by (auto split: sum.splits prod.splits)
  from Suc.IH [OF rest] obtain secs where
    "section_headers data (off + 40) k = Inr secs"
    "calls w' = calls w1 @ concat (map (section_calls data base) secs)"
    by blast
  with s map_section_success [OF m] show ?case
    by (simp add: bnd_def)
qed

lemma allocate_image_success:
  assumes "allocate_image emu data nt preferred n w = (Inr base, w1)"
  shows "\<exists>allocs. calls w1 = calls w @ allocs \<and>
           allocs \<noteq> [] \<and> last allocs = allocate_memory_call base n {perm_read} True"
  using assms
  by (auto simp: allocate_image_def allocate_memory_def find_free_allocation_base_def
           split: prod.splits sum.splits if_splits bool.splits)

lemma map_image_success:
  assumes "map_image emu data name nt n base w = (Inr b, w')"
  shows "\<exists>size_of_headers first count secs.
           SizeOfHeaders data nt = Inr size_of_headers \<and>
           IMAGE_FIRST_SECTION data nt = Inr first \<and>
           NumberOfSections data nt = Inr count \<and>
           section_headers data first (unat count) = Inr secs \<and>
           calls w' = calls w @ [write_memory_call base (take (unat size_of_headers) data)] @
                        concat (map (section_calls data base) secs)"
  using assms unfolding map_image_def
  by (auto elim!: and_then_lift_cases and_then_cases
           simp: lift_def effect_def printf_def write_memory_def read_bytes_def
           split: if_splits dest!: map_sections_success)

lemma section_permissions_flags:
  "(perm_exec \<in> section_permissions c \<longleftrightarrow> c AND IMAGE_SCN_MEM_EXECUTE \<noteq> 0) \<and>
   (perm_read \<in> section_permissions c \<longleftrightarrow> c AND IMAGE_SCN_MEM_READ \<noteq> 0) \<and>
   (perm_write \<in> section_permissions c \<longleftrightarrow> c AND IMAGE_SCN_MEM_WRITE \<noteq> 0)"
  by (simp add: section_permissions_def)

lemma section_permissions_none:
  assumes "c AND (IMAGE_SCN_MEM_EXECUTE OR IMAGE_SCN_MEM_READ OR IMAGE_SCN_MEM_WRITE) = 0"
  shows "section_permissions c = {}"
proof -
  have "c AND IMAGE_SCN_MEM_EXECUTE = 0 \<and> c AND IMAGE_SCN_MEM_READ = 0 \<and>
        c AND IMAGE_SCN_MEM_WRITE = 0"
    using assms by (simp add: bit.conj_disj_distrib or_eq_0_iff)
  then show ?thesis by (simp add: section_permissions_def)
qed

text \<open>
  Claim C5. When \<open>map_module\<close> returns, the calls it made on the emulator are the
  allocation, the write of the headers and then, for every section header in the order of
  the section table, the calls of \<open>section_calls\<close>: the copy of
  \<open>min SizeOfRawData VirtualSize\<close> bytes from file offset \<open>PointerToRawData\<close> to
  \<open>image_base + VirtualAddress\<close> (no copy when \<open>SizeOfRawData\<close> is 0) followed by the
  protection of \<open>page_align_up (max SizeOfRawData VirtualSize)\<close> bytes at that address.
  The permissions hold \<open>exec\<close>, \<open>read\<close>, \<open>write\<close> exactly when the characteristics have
  \<^verbatim>\<open>IMAGE_SCN_MEM_EXECUTE\<close>, \<^verbatim>\<open>IMAGE_SCN_MEM_READ\<close>, \<^verbatim>\<open>IMAGE_SCN_MEM_WRITE\<close>; with none
  of the three the section gets no access.
\<close>

theorem map_module_sections:
  assumes "map_module emu data name w = (Inr b, w')"
  shows "\<exists>nt size_of_headers first count secs allocs.
           nt_headers_of data = Inr nt \<and>
           SizeOfHeaders data nt = Inr size_of_headers \<and>
           IMAGE_FIRST_SECTION data nt = Inr first \<and>
           NumberOfSections data nt = Inr count \<and>
           section_headers data first (unat count) = Inr secs \<and>
           calls w' = calls w @ allocs @
                        [write_memory_call (image_base b) (take (unat size_of_headers) data)] @
                        concat (map (section_calls data (image_base b)) secs) \<and>
           last allocs = allocate_memory_call (image_base b) (size_of_image b) {perm_read} True \<and>
           (\<forall>s \<in> set secs.
              (perm_exec \<in> section_permissions (Characteristics s) \<longleftrightarrow>
                 Characteristics s AND IMAGE_SCN_MEM_EXECUTE \<noteq> 0) \<and>
              (perm_read \<in> section_permissions (Characteristics s) \<longleftrightarrow>
                 Characteristics s AND IMAGE_SCN_MEM_READ \<noteq> 0) \<and>
              (perm_write \<in> section_permissions (Characteristics s) \<longleftrightarrow>
                 Characteristics s AND IMAGE_SCN_MEM_WRITE \<noteq> 0) \<and>
              (Characteristics s AND
                 (IMAGE_SCN_MEM_EXECUTE OR IMAGE_SCN_MEM_READ OR IMAGE_SCN_MEM_WRITE) = 0 \<longrightarrow>
               section_permissions (Characteristics s) = {}))"
proof -
  from assms obtain nt preferred and size32 :: u32 and base w1 where
    nt: "nt_headers_of data = Inr nt" and
    alloc: "allocate_image emu data nt preferred (ucast size32) w = (Inr base, w1)" and
    img: "map_image emu data name nt (ucast size32) base w1 = (Inr b, w')"
    unfolding map_module_def
    by (elim and_then_lift_cases and_then_cases) auto
  from allocate_image_success [OF alloc] obtain allocs where
    allocs: "calls w1 = calls w @ allocs"
            "last allocs = allocate_memory_call base (ucast size32) {perm_read} True"
    by blast
  from map_image_success [OF img] obtain size_of_headers first count secs where
    secs: "SizeOfHeaders data nt = Inr size_of_headers"
          "IMAGE_FIRST_SECTION data nt = Inr first"
          "NumberOfSections data nt = Inr count"
          "section_headers data first (unat count) = Inr secs"
          "calls w' = calls w1 @ [write_memory_call base (take (unat size_of_headers) data)] @
                        concat (map (section_calls data base) secs)"
    by blast
  from map_image_base [OF img] have b: "image_base b = base" "size_of_image b = ucast size32"
    by simp_all
  show ?thesis
    using nt secs allocs b section_permissions_flags section_permissions_none
    by (intro exI [of _ nt] exI [of _ size_of_headers] exI [of _ first] exI [of _ count]
              exI [of _ secs] exI [of _ allocs]) simp
qed

subsection \<open>std::map as a sorted list\<close>

lemma std_map_assign_keys:
  "fst ` set (std_map_assign k v m) = insert k (fst ` set m)"
proof (induction m)
  case Nil
  then show ?case by simp
next
  case (Cons e m)
  obtain k' v' where e: "e = (k', v')" by (cases e)
  show ?case using Cons by (simp add: e insert_commute)
qed

lemma std_map_assign_sorted:
  "sorted_wrt (<) (map fst m) \<Longrightarrow> sorted_wrt (<) (map fst (std_map_assign k v m))"
proof (induction m)
  case Nil
  then show ?case by simp
next
  case (Cons e m)
  then show ?case
    using std_map_assign_keys [of k v m]
    by (cases e) (auto simp: image_iff)
qed

lemma sorted_map_of_None:
  fixes k :: "'k::linorder"
  shows "\<forall>e \<in> set m. k < fst e \<Longrightarrow> map_of m k = None"
  by (induction m) auto

lemma std_map_assign_map_of:
  "sorted_wrt (<) (map fst m) \<Longrightarrow> map_of (std_map_assign k v m) = (map_of m)(k \<mapsto> v)"
proof (induction m)
  case Nil
  then show ?case by simp
next
  case (Cons e m)
  obtain k' v' where e: "e = (k', v')" by (cases e)
  show ?case
  proof (cases "k < k'")
    case True
    then show ?thesis by (auto simp: e)
  next
    case False
    then show ?thesis using Cons by (auto simp: e)
  qed
qed

lemma std_map_assign_set:
  "sorted_wrt (<) (map fst m) \<Longrightarrow>
     set (std_map_assign k v m) = insert (k, v) {e \<in> set m. fst e \<noteq> k}"
proof (induction m)
  case Nil
  then show ?case by simp
next
  case (Cons e m)
  then show ?case by (cases e) (auto 4 3)
qed

subsection \<open>Exports\<close>

lemma bnd_Inr_iff: "bnd m f = Inr y \<longleftrightarrow> (\<exists>x. m = Inr x \<and> f x = Inr y)"
  by (cases m) (auto simp: bnd_def)

lemma collect_exports_entries:
  "collect_exports data base dir i k ex = Inr ex' \<Longrightarrow>
     \<exists>es. file_export_entries data base dir i k = Inr es \<and>
          ex' = foldl (\<lambda>m e. std_map_assign (fst e) (snd e) m) ex es"
proof (induction k arbitrary: i ex)
  case 0
  then show ?case by simp
next
  case (Suc k)
  from Suc.prems obtain name_rva ordinal rva name where
    reads: "read_u32 data (unat (AddressOfNames dir) + 4 * i) = Inr name_rva"
           "read_u16 data (unat (AddressOfNameOrdinals dir) + 2 * i) = Inr ordinal"
           "read_u32 data (unat (AddressOfFunctions dir) + 4 * unat ordinal) = Inr rva"
           "read_cstring data (unat name_rva) = Inr name" and
    rest: "collect_exports data base dir (i + 1) k
             (std_map_assign name (base + ucast rva) ex) = Inr ex'"
    by (auto simp: bnd_Inr_iff)
  from Suc.IH [OF rest] obtain es where
    "file_export_entries data base dir (i + 1) k = Inr es"
    "ex' = foldl (\<lambda>m e. std_map_assign (fst e) (snd e) m)
             (std_map_assign name (base + ucast rva) ex) es"
    by blast
  with reads show ?case
    by (simp add: file_export_name_def file_export_rva_def bnd_def)
qed

lemma export_entries_nth:
  "file_export_entries data base dir i k = Inr es \<Longrightarrow>
     length es = k \<and>
     (\<forall>j<k. file_export_name data dir (i + j) = Inr (fst (es ! j)) \<and>
            (\<exists>rva. file_export_rva data dir (i + j) = Inr rva \<and> snd (es ! j) = base + ucast rva))"
proof (induction k arbitrary: i es)
  case 0
  then show ?case by simp
next
  case (Suc k)
  from Suc.prems obtain name rva rest where
    head: "file_export_name data dir i = Inr name" "file_export_rva data dir i = Inr rva" and
    rest: "file_export_entries data base dir (i + 1) k = Inr rest" and
    es: "es = (name, base + ucast rva) # rest"
    by (auto simp: bnd_Inr_iff)
  from Suc.IH [OF rest] have
    len: "length rest = k" and
    nth: "\<And>j. j < k \<Longrightarrow> file_export_name data dir (i + 1 + j) = Inr (fst (rest ! j)) \<and>
            (\<exists>rva. file_export_rva data dir (i + 1 + j) = Inr rva \<and> snd (rest ! j) = base + ucast rva)"
    by auto
  show ?case
  proof (intro conjI allI impI)
    show "length es = Suc k" by (simp add: es len)
  next
    fix j assume "j < Suc k"
    then show "file_export_name data dir (i + j) = Inr (fst (es ! j))"
      using head nth [of "j - 1"] by (cases j) (auto simp: es)
  next
    fix j assume "j < Suc k"
    then show "\<exists>rva. file_export_rva data dir (i + j) = Inr rva \<and> snd (es ! j) = base + ucast rva"
      using head nth [of "j - 1"] by (cases j) (auto simp: es)
  qed
qed

lemma assign_all_sorted:
  "sorted_wrt (<) (map fst ex) \<Longrightarrow>
     sorted_wrt (<) (map fst (foldl (\<lambda>m e. std_map_assign (fst e) (snd e) m) ex es))"
  by (induction es arbitrary: ex) (simp_all add: std_map_assign_sorted)

lemma assign_all_map_of:
  "sorted_wrt (<) (map fst ex) \<Longrightarrow>
     map_of (foldl (\<lambda>m e. std_map_assign (fst e) (snd e) m) ex es) = map_of ex ++ map_of (rev es)"
proof (induction es arbitrary: ex)
  case Nil
  then show ?case by simp
next
  case (Cons e es)
  have step: "map_of (foldl (\<lambda>m e. std_map_assign (fst e) (snd e) m) ex (e # es)) =
        (map_of ex)(fst e \<mapsto> snd e) ++ map_of (rev es)"
    using Cons.IH [OF std_map_assign_sorted [OF Cons.prems, of "fst e" "snd e"]]
    by (simp only: foldl_Cons std_map_assign_map_of [OF Cons.prems])
  show ?case
    unfolding step by (rule ext) (simp add: map_add_def split: option.splits)
qed


lemma assign_all_keys:
  "fst ` set (foldl (\<lambda>m e. std_map_assign (fst e) (snd e) m) ex es) =
     fst ` set ex \<union> fst ` set es"
  by (induction es arbitrary: ex) (auto simp: std_map_assign_keys)

lemma map_of_rev_last:
  assumes "j < length es"
      and "\<And>l. j < l \<Longrightarrow> l < length es \<Longrightarrow> fst (es ! l) \<noteq> fst (es ! j)"
  shows "map_of (rev es) (fst (es ! j)) = Some (snd (es ! j))"
proof -
  have split: "es = take j es @ es ! j # drop (Suc j) es"
    using assms(1) by (rule id_take_nth_drop)
  have "fst (es ! j) \<notin> fst ` set (drop (Suc j) es)"
  proof
    assume "fst (es ! j) \<in> fst ` set (drop (Suc j) es)"
    then obtain e where e: "e \<in> set (drop (Suc j) es)" "fst e = fst (es ! j)"
      by auto
    then obtain l where "l < length (drop (Suc j) es)" "drop (Suc j) es ! l = e"
      by (auto simp: in_set_conv_nth)
    then have "Suc j + l < length es" "es ! (Suc j + l) = e"
      by auto
    with assms(2) [of "Suc j + l"] e show False by simp
  qed
  then have none: "map_of (rev (drop (Suc j) es)) (fst (es ! j)) = None"
    by (simp add: map_of_eq_None_iff)
  have "rev es = rev (drop (Suc j) es) @ es ! j # rev (take j es)"
    by (subst split) simp
  then show ?thesis
    using none by (simp add: map_add_def)
qed

lemma last_index_with_key:
  "i < length es \<Longrightarrow>
     \<exists>j. i \<le> j \<and> j < length es \<and> fst (es ! j) = fst (es ! i) \<and>
         (\<forall>l. j < l \<and> l < length es \<longrightarrow> fst (es ! l) \<noteq> fst (es ! i))"
proof (induction "length es - i" arbitrary: i rule: less_induct)
  case less
  show ?case
  proof (cases "\<exists>l. i < l \<and> l < length es \<and> fst (es ! l) = fst (es ! i)")
    case True
    then obtain l where l: "i < l" "l < length es" "fst (es ! l) = fst (es ! i)"
      by blast
    then have "length es - l < length es - i"
      by simp
    from less.hyps [OF this l(2)] obtain j where
      j: "l \<le> j" "j < length es" "fst (es ! j) = fst (es ! l)"
         "\<forall>m. j < m \<and> m < length es \<longrightarrow> fst (es ! m) \<noteq> fst (es ! l)"
      by blast
    show ?thesis
    proof (intro exI [of _ j] conjI)
      show "i \<le> j" using l(1) j(1) by simp
      show "j < length es" by (rule j(2))
      show "fst (es ! j) = fst (es ! i)" by (simp only: j(3) l(3))
      show "\<forall>m. j < m \<and> m < length es \<longrightarrow> fst (es ! m) \<noteq> fst (es ! i)"
        using j(4) by (simp only: l(3))
    qed
  next
    case False
    show ?thesis
    proof (intro exI [of _ i] conjI)
      show "\<forall>l. i < l \<and> l < length es \<longrightarrow> fst (es ! l) \<noteq> fst (es ! i)"
        using False by blast
    qed (simp_all add: less.prems)
  qed
qed

lemma read_exports_entries:
  assumes "read_exports data nt base = Inr ex"
  shows "\<exists>va sz. export_directory_entry data nt = Inr (va, sz) \<and>
           (if va = 0 \<or> sz = 0 then ex = []
            else \<exists>dir es.
                   read_export_directory data (unat va) = Inr dir \<and>
                   file_export_entries data base dir 0 (unat (NumberOfNames dir)) = Inr es \<and>
                   ex = foldl (\<lambda>m e. std_map_assign (fst e) (snd e) m) [] es)"
proof -
  from assms obtain va sz where
    entry: "export_directory_entry data nt = Inr (va, sz)" and
    rest: "(if va = 0 \<or> sz = 0 then Inr []
            else bnd (read_export_directory data (unat va)) (\<lambda>dir.
                   collect_exports data base dir 0 (unat (NumberOfNames dir)) [])) = Inr ex"
    by (auto simp: read_exports_def bnd_Inr_iff)
  show ?thesis
  proof (cases "va = 0 \<or> sz = 0")
    case True
    with entry rest show ?thesis by auto
  next
    case False
    with rest obtain dir where
      dir: "read_export_directory data (unat va) = Inr dir" and
      "collect_exports data base dir 0 (unat (NumberOfNames dir)) [] = Inr ex"
      by (auto simp: bnd_Inr_iff)
    with collect_exports_entries [of data base dir 0 "unat (NumberOfNames dir)" "[]" ex]
    obtain es where
      "file_export_entries data base dir 0 (unat (NumberOfNames dir)) = Inr es"
      "ex = foldl (\<lambda>m e. std_map_assign (fst e) (snd e) m) [] es"
      by blast
    with False entry dir show ?thesis by auto
  qed
qed

lemma map_module_read_exports:
  assumes "map_module emu data name w = (Inr b, w')"
  shows "\<exists>nt. nt_headers_of data = Inr nt \<and>
              read_exports data nt (image_base b) = Inr (exports b)"
proof -
  from assms obtain nt preferred and size32 :: u32 and base w1 where
    nt: "nt_headers_of data = Inr nt" and
    img: "map_image emu data name nt (ucast size32) base w1 = (Inr b, w')"
    unfolding map_module_def
    by (elim and_then_lift_cases and_then_cases) auto
  from img have "read_exports data nt base = Inr (exports b) \<and> image_base b = base"
    unfolding map_image_def
    by (elim and_then_lift_cases and_then_cases) (auto simp: lift_def)
  with nt show ?thesis by auto
qed

text \<open>What \<open>map_module\<close> returns as \<open>exports\<close>, in terms of what the loop read from the
  file buffer.\<close>

lemma map_module_export_entries:
  assumes "map_module emu data name w = (Inr b, w')"
  shows "sorted_wrt (<) (map fst (exports b)) \<and>
         (\<exists>nt va sz.
            nt_headers_of data = Inr nt \<and>
            export_directory_entry data nt = Inr (va, sz) \<and>
            (if va = 0 \<or> sz = 0 then exports b = []
             else \<exists>dir es.
                    read_export_directory data (unat va) = Inr dir \<and>
                    file_export_entries data (image_base b) dir 0 (unat (NumberOfNames dir)) = Inr es \<and>
                    length es = unat (NumberOfNames dir) \<and>
                    fst ` set (exports b) = fst ` set es \<and>
                    (\<forall>i<length es. \<exists>j. i \<le> j \<and> j < length es \<and>
                       fst (es ! j) = fst (es ! i) \<and>
                       (\<forall>l. j < l \<and> l < length es \<longrightarrow> fst (es ! l) \<noteq> fst (es ! i)) \<and>
                       map_of (exports b) (fst (es ! i)) = Some (snd (es ! j)))))"
proof -
  from map_module_read_exports [OF assms] obtain nt where
    nt: "nt_headers_of data = Inr nt" and
    ex: "read_exports data nt (image_base b) = Inr (exports b)"
    by blast
  from read_exports_entries [OF ex] obtain va sz where
    entry: "export_directory_entry data nt = Inr (va, sz)" and
    cases: "if va = 0 \<or> sz = 0 then exports b = []
            else \<exists>dir es.
                   read_export_directory data (unat va) = Inr dir \<and>
                   file_export_entries data (image_base b) dir 0 (unat (NumberOfNames dir)) = Inr es \<and>
                   exports b = foldl (\<lambda>m e. std_map_assign (fst e) (snd e) m) [] es"
    by (elim exE conjE)
  show ?thesis
  proof (cases "va = 0 \<or> sz = 0")
    case True
    with cases have empty: "exports b = []" by simp
    then have sorted: "sorted_wrt (<) (map fst (exports b))" by simp
    show ?thesis
      by (rule conjI [OF sorted], rule exI [of _ nt], rule exI [of _ va], rule exI [of _ sz])
         (simp only: nt entry True if_True empty simp_thms)
  next
    case False
    with cases obtain dir es where
      dir: "read_export_directory data (unat va) = Inr dir" and
      es: "file_export_entries data (image_base b) dir 0 (unat (NumberOfNames dir)) = Inr es" and
      b: "exports b = foldl (\<lambda>m e. std_map_assign (fst e) (snd e) m) [] es"
      by auto
    have sorted: "sorted_wrt (<) (map fst (exports b))"
      unfolding b by (rule assign_all_sorted) simp
    have len: "length es = unat (NumberOfNames dir)"
      using export_entries_nth [OF es] by simp
    have keys: "fst ` set (exports b) = fst ` set es"
      unfolding b by (simp add: assign_all_keys)
    have lookup: "map_of (exports b) = map_of (rev es)"
      unfolding b by (subst assign_all_map_of) simp_all
    have last: "\<forall>i<length es. \<exists>j. i \<le> j \<and> j < length es \<and> fst (es ! j) = fst (es ! i) \<and>
                  (\<forall>l. j < l \<and> l < length es \<longrightarrow> fst (es ! l) \<noteq> fst (es ! i)) \<and>
                  map_of (exports b) (fst (es ! i)) = Some (snd (es ! j))"
    proof (intro allI impI)
      fix i assume "i < length es"
      from last_index_with_key [OF this] obtain j where
        j: "i \<le> j" "j < length es" "fst (es ! j) = fst (es ! i)"
           "\<forall>l. j < l \<and> l < length es \<longrightarrow> fst (es ! l) \<noteq> fst (es ! i)"
        by blast
      have "map_of (rev es) (fst (es ! j)) = Some (snd (es ! j))"
      proof (rule map_of_rev_last)
        show "j < length es" by (rule j(2))
        show "fst (es ! l) \<noteq> fst (es ! j)" if "j < l" "l < length es" for l
          using j(3,4) that by simp
      qed
      with j lookup show "\<exists>j. i \<le> j \<and> j < length es \<and> fst (es ! j) = fst (es ! i) \<and>
                  (\<forall>l. j < l \<and> l < length es \<longrightarrow> fst (es ! l) \<noteq> fst (es ! i)) \<and>
                  map_of (exports b) (fst (es ! i)) = Some (snd (es ! j))"
        by (intro exI [of _ j]) simp
    qed
    have inner: "\<exists>dir es.
                    read_export_directory data (unat va) = Inr dir \<and>
                    file_export_entries data (image_base b) dir 0 (unat (NumberOfNames dir)) = Inr es \<and>
                    length es = unat (NumberOfNames dir) \<and>
                    fst ` set (exports b) = fst ` set es \<and>
                    (\<forall>i<length es. \<exists>j. i \<le> j \<and> j < length es \<and>
                       fst (es ! j) = fst (es ! i) \<and>
                       (\<forall>l. j < l \<and> l < length es \<longrightarrow> fst (es ! l) \<noteq> fst (es ! i)) \<and>
                       map_of (exports b) (fst (es ! i)) = Some (snd (es ! j)))"
      by (rule exI [of _ dir], rule exI [of _ es]) (intro conjI dir es len keys last)
    show ?thesis
      by (rule conjI [OF sorted], rule exI [of _ nt], rule exI [of _ va], rule exI [of _ sz])
         (simp only: nt entry False if_False inner simp_thms)
  qed
qed

subsection \<open>Files whose offsets are their RVAs\<close>

lemma flat_byte:
  assumes "file_offsets_are_rvas data" and "r < length data"
  shows "image_byte data r = Some (data ! r)"
  using assms by (simp add: file_offsets_are_rvas_def list_all_iff)

lemma those_image_range:
  assumes "\<And>k. k < length data \<Longrightarrow> img k = Some (data ! k)"
      and "r + n \<le> length data"
  shows "those (map img [r..<r + n]) = Some (take n (drop r data))"
  using assms(2)
proof (induction n arbitrary: r)
  case 0
  then show ?case by simp
next
  case (Suc n)
  from Suc.prems have r: "r < length data" and rest: "Suc r + n \<le> length data"
    by simp_all
  have "[r..<r + Suc n] = r # [Suc r..<Suc r + n]"
    by (simp add: upt_rec)
  moreover have "take (Suc n) (drop r data) = data ! r # take n (drop (Suc r) data)"
    using r by (simp add: Cons_nth_drop_Suc [symmetric])
  ultimately show ?case
    using Suc.IH [OF rest] assms(1) [OF r] by simp
qed

lemma flat_bytes:
  assumes "file_offsets_are_rvas data" and "read_bytes data r n = Inr bs" and "0 < n"
  shows "image_bytes (image_byte data) r n = Some bs"
proof -
  from assms(2,3) have "r + n \<le> length data" and bs: "bs = take n (drop r data)"
    by (auto simp: read_bytes_def split: if_splits)
  then show ?thesis
    unfolding image_bytes_def bs
    by (intro those_image_range flat_byte [OF assms(1)])
qed

lemma flat_u16:
  assumes "file_offsets_are_rvas data" and "read_u16 data r = Inr v"
  shows "image_u16 (image_byte data) r = Some v"
proof -
  from assms(2) obtain bs where "read_bytes data r 2 = Inr bs" "v = word_of_nat (le_nat bs)"
    by (auto simp: read_u16_def bnd_Inr_iff)
  with flat_bytes [OF assms(1) this(1)] show ?thesis
    by (simp add: image_u16_def)
qed

lemma flat_u32:
  assumes "file_offsets_are_rvas data" and "read_u32 data r = Inr v"
  shows "image_u32 (image_byte data) r = Some v"
proof -
  from assms(2) obtain bs where "read_bytes data r 4 = Inr bs" "v = word_of_nat (le_nat bs)"
    by (auto simp: read_u32_def bnd_Inr_iff)
  with flat_bytes [OF assms(1) this(1)] show ?thesis
    by (simp add: image_u32_def)
qed

lemma image_cstring_file:
  assumes "\<And>k. k < length data \<Longrightarrow> img k = Some (data ! k)"
      and "0 \<in> set (drop r data)"
      and "length data \<le> r + n"
  shows "image_cstring img r n =
           Some (map (\<lambda>b. char_of (unat b)) (takeWhile (\<lambda>b. b \<noteq> 0) (drop r data)))"
  using assms(2,3)
proof (induction n arbitrary: r)
  case 0
  then show ?case by simp
next
  case (Suc n)
  from Suc.prems(1) have r: "r < length data"
    by (cases "r < length data") simp_all
  then have split: "drop r data = data ! r # drop (Suc r) data"
    by (simp add: Cons_nth_drop_Suc)
  show ?case
  proof (cases "data ! r = 0")
    case True
    then show ?thesis
      using assms(1) [OF r] by (simp add: split)
  next
    case False
    with Suc.prems(1) have "0 \<in> set (drop (Suc r) data)"
      by (simp add: split)
    moreover from Suc.prems(2) have "length data \<le> Suc r + n"
      by simp
    ultimately have "image_cstring img (Suc r) n =
        Some (map (\<lambda>b. char_of (unat b)) (takeWhile (\<lambda>b. b \<noteq> 0) (drop (Suc r) data)))"
      by (rule Suc.IH)
    then show ?thesis
      using False assms(1) [OF r] by (simp add: split)
  qed
qed

lemma flat_cstring:
  assumes "file_offsets_are_rvas data" and "read_cstring data r = Inr s"
  shows "image_cstring (image_byte data) r (length data) = Some s"
proof -
  from assms(2) have "0 \<in> set (drop r data)"
    and "s = map (\<lambda>b. char_of (unat b)) (takeWhile (\<lambda>b. b \<noteq> 0) (drop r data))"
    by (auto simp: read_cstring_def split: if_splits)
  then show ?thesis
    using image_cstring_file [of data "image_byte data" r "length data"]
          flat_byte [OF assms(1)]
    by simp
qed

lemma flat_export_directory:
  assumes "file_offsets_are_rvas data" and "read_export_directory data r = Inr dir"
  shows "image_export_directory data r = Some dir"
  using assms(2)
  by (auto simp: read_export_directory_def image_export_directory_def bnd_Inr_iff
                 flat_u32 [OF assms(1)])

lemma flat_export_name:
  assumes "file_offsets_are_rvas data" and "file_export_name data dir i = Inr n"
  shows "image_export_name data dir i = Some n"
  using assms(2)
  by (auto simp: file_export_name_def image_export_name_def bnd_Inr_iff
                 flat_u32 [OF assms(1)] flat_cstring [OF assms(1)])

lemma flat_export_rva:
  assumes "file_offsets_are_rvas data" and "file_export_rva data dir i = Inr rva"
  shows "image_export_rva data dir i = Some rva"
  using assms(2)
  by (auto simp: file_export_rva_def image_export_rva_def bnd_Inr_iff
                 flat_u32 [OF assms(1)] flat_u16 [OF assms(1)])

lemma flat_export_entries:
  assumes "file_offsets_are_rvas data"
      and "file_export_entries data base dir 0 k = Inr es"
      and "i < k"
  shows "image_export_name data dir i = Some (fst (es ! i)) \<and>
         (\<exists>rva. image_export_rva data dir i = Some rva \<and> snd (es ! i) = base + ucast rva)"
proof -
  from export_entries_nth [OF assms(2)] assms(3) obtain rva where
    "file_export_name data dir i = Inr (fst (es ! i))"
    "file_export_rva data dir i = Inr rva" "snd (es ! i) = base + ucast rva"
    by fastforce
  then show ?thesis
    using flat_export_name [OF assms(1)] flat_export_rva [OF assms(1)] by blast
qed

text \<open>
  Claim C2, as amended. When \<open>map_module\<close> returns, \<open>exports\<close> is sorted by name with one
  entry per name. With the export directory absent or empty it is empty. Otherwise, for
  a file whose offsets are its RVAs, with the export directory, its three tables and the
  names read in the mapped image: for every \<open>i\<close> below \<open>NumberOfNames\<close>, with \<open>name i\<close>
  the string at \<open>AddressOfNames[i]\<close>,
  \<open>exports[name i] = image_base + functions[ordinals[j]]\<close>, where \<open>j\<close> is the last index
  whose name is \<open>name i\<close> (so \<open>j = i\<close> when no later entry repeats the name), and the
  names of \<open>exports\<close> are exactly the names of the table. As stated, with \<open>j = i\<close> for every
  \<open>i\<close>, the claim fails on a name table that repeats a name: \<^verbatim>\<open>exports[name] = \<dots>\<close>
  overwrites. Two names with one address are both kept. \<open>map_module\<close> takes every RVA of
  the export directory as an offset into the file; nothing is stated here about a file
  in which the two differ.
\<close>

theorem map_module_exports:
  assumes "map_module emu data name w = (Inr b, w')"
  shows "sorted_wrt (<) (map fst (exports b)) \<and>
         (\<exists>nt va sz.
            nt_headers_of data = Inr nt \<and>
            export_directory_entry data nt = Inr (va, sz) \<and>
            (if va = 0 \<or> sz = 0 then exports b = []
             else file_offsets_are_rvas data \<longrightarrow>
                  (\<exists>dir. image_export_directory data (unat va) = Some dir \<and>
                     fst ` set (exports b) =
                       {n. \<exists>i<unat (NumberOfNames dir). image_export_name data dir i = Some n} \<and>
                     (\<forall>i<unat (NumberOfNames dir). \<exists>n j rva.
                        image_export_name data dir i = Some n \<and>
                        i \<le> j \<and> j < unat (NumberOfNames dir) \<and>
                        image_export_name data dir j = Some n \<and>
                        (\<forall>l. j < l \<and> l < unat (NumberOfNames dir) \<longrightarrow>
                           image_export_name data dir l \<noteq> Some n) \<and>
                        image_export_rva data dir j = Some rva \<and>
                        map_of (exports b) n = Some (image_base b + ucast rva)))))"
proof -
  from map_module_export_entries [OF assms] obtain nt va sz where
    sorted: "sorted_wrt (<) (map fst (exports b))" and
    nt: "nt_headers_of data = Inr nt" and
    entry: "export_directory_entry data nt = Inr (va, sz)" and
    cases: "if va = 0 \<or> sz = 0 then exports b = []
             else \<exists>dir es.
                    read_export_directory data (unat va) = Inr dir \<and>
                    file_export_entries data (image_base b) dir 0 (unat (NumberOfNames dir)) = Inr es \<and>
                    length es = unat (NumberOfNames dir) \<and>
                    fst ` set (exports b) = fst ` set es \<and>
                    (\<forall>i<length es. \<exists>j. i \<le> j \<and> j < length es \<and>
                       fst (es ! j) = fst (es ! i) \<and>
                       (\<forall>l. j < l \<and> l < length es \<longrightarrow> fst (es ! l) \<noteq> fst (es ! i)) \<and>
                       map_of (exports b) (fst (es ! i)) = Some (snd (es ! j)))"
    by (elim exE conjE)
  show ?thesis
  proof (cases "va = 0 \<or> sz = 0")
    case True
    with cases have empty: "exports b = []" by simp
    show ?thesis
      by (rule conjI [OF sorted], rule exI [of _ nt], rule exI [of _ va], rule exI [of _ sz])
         (simp only: nt entry True if_True empty simp_thms)
  next
    case False
    with cases obtain dir es where
      dir: "read_export_directory data (unat va) = Inr dir" and
      es: "file_export_entries data (image_base b) dir 0 (unat (NumberOfNames dir)) = Inr es" and
      len: "length es = unat (NumberOfNames dir)" and
      keys: "fst ` set (exports b) = fst ` set es" and
      last: "\<And>i. i < length es \<Longrightarrow> \<exists>j. i \<le> j \<and> j < length es \<and>
                       fst (es ! j) = fst (es ! i) \<and>
                       (\<forall>l. j < l \<and> l < length es \<longrightarrow> fst (es ! l) \<noteq> fst (es ! i)) \<and>
                       map_of (exports b) (fst (es ! i)) = Some (snd (es ! j))"
      by auto
    have inner: "\<exists>dir. image_export_directory data (unat va) = Some dir \<and>
                     fst ` set (exports b) =
                       {n. \<exists>i<unat (NumberOfNames dir). image_export_name data dir i = Some n} \<and>
                     (\<forall>i<unat (NumberOfNames dir). \<exists>n j rva.
                        image_export_name data dir i = Some n \<and>
                        i \<le> j \<and> j < unat (NumberOfNames dir) \<and>
                        image_export_name data dir j = Some n \<and>
                        (\<forall>l. j < l \<and> l < unat (NumberOfNames dir) \<longrightarrow>
                           image_export_name data dir l \<noteq> Some n) \<and>
                        image_export_rva data dir j = Some rva \<and>
                        map_of (exports b) n = Some (image_base b + ucast rva))"
      if flat: "file_offsets_are_rvas data"
    proof -
      note entries = flat_export_entries [OF flat es]
      have names: "image_export_name data dir i = Some (fst (es ! i))"
        if "i < unat (NumberOfNames dir)" for i
        using entries [OF that] by simp
      have "fst ` set es = {n. \<exists>i<unat (NumberOfNames dir). image_export_name data dir i = Some n}"
      proof (intro set_eqI iffI)
        fix n assume "n \<in> fst ` set es"
        then obtain i where "i < length es" "fst (es ! i) = n"
          by (auto simp: in_set_conv_nth)
        then show "n \<in> {n. \<exists>i<unat (NumberOfNames dir). image_export_name data dir i = Some n}"
          using names [of i] len by auto
      next
        fix n assume "n \<in> {n. \<exists>i<unat (NumberOfNames dir). image_export_name data dir i = Some n}"
        then obtain i where "i < unat (NumberOfNames dir)" "image_export_name data dir i = Some n"
          by blast
        then show "n \<in> fst ` set es"
          using names [of i] len by (metis nth_mem image_eqI option.inject)
      qed
      then have keys': "fst ` set (exports b) =
          {n. \<exists>i<unat (NumberOfNames dir). image_export_name data dir i = Some n}"
        by (simp only: keys)
      have each: "\<exists>n j rva.
                        image_export_name data dir i = Some n \<and>
                        i \<le> j \<and> j < unat (NumberOfNames dir) \<and>
                        image_export_name data dir j = Some n \<and>
                        (\<forall>l. j < l \<and> l < unat (NumberOfNames dir) \<longrightarrow>
                           image_export_name data dir l \<noteq> Some n) \<and>
                        image_export_rva data dir j = Some rva \<and>
                        map_of (exports b) n = Some (image_base b + ucast rva)"
        if i: "i < unat (NumberOfNames dir)" for i
      proof -
        from last [of i] i len obtain j where
          j: "i \<le> j" "j < unat (NumberOfNames dir)" "fst (es ! j) = fst (es ! i)"
             "\<And>l. j < l \<Longrightarrow> l < unat (NumberOfNames dir) \<Longrightarrow> fst (es ! l) \<noteq> fst (es ! i)"
             "map_of (exports b) (fst (es ! i)) = Some (snd (es ! j))"
          by auto
        from entries [OF j(2)] obtain rva where
          rva: "image_export_rva data dir j = Some rva" "snd (es ! j) = image_base b + ucast rva"
          by blast
        show ?thesis
        proof (intro exI [of _ "fst (es ! i)"] exI [of _ j] exI [of _ rva] conjI allI impI)
          show "image_export_name data dir i = Some (fst (es ! i))"
            by (rule names [OF i])
          show "image_export_name data dir j = Some (fst (es ! i))"
            using names [OF j(2)] j(3) by simp
          show "image_export_name data dir l \<noteq> Some (fst (es ! i))"
            if "j < l \<and> l < unat (NumberOfNames dir)" for l
            using names [of l] j(4) [of l] that by simp
          show "map_of (exports b) (fst (es ! i)) = Some (image_base b + ucast rva)"
            using j(5) rva(2) by simp
        qed (rule j(1) j(2) rva(1))+
      qed
      show ?thesis
        using flat_export_directory [OF flat dir] keys' each
        by (intro exI [of _ dir] conjI allI impI)
    qed
    show ?thesis
      by (rule conjI [OF sorted], rule exI [of _ nt], rule exI [of _ va], rule exI [of _ sz])
         (simp only: nt entry False if_False simp_thms, rule impI, rule inner)
  qed
qed

lemma std_map_assign_subset: "set (std_map_assign k v m) \<subseteq> insert (k, v) (set m)"
  by (induction m) (auto split: if_splits)

lemma assign_all_subset:
  "set (foldl (\<lambda>m e. std_map_assign (fst e) (snd e) m) ex es) \<subseteq> set ex \<union> set es"
proof (induction es arbitrary: ex)
  case Nil
  then show ?case by simp
next
  case (Cons e es)
  have "set (foldl (\<lambda>m e. std_map_assign (fst e) (snd e) m) (std_map_assign (fst e) (snd e) ex) es)
          \<subseteq> set (std_map_assign (fst e) (snd e) ex) \<union> set es"
    by (rule Cons.IH)
  also have "\<dots> \<subseteq> insert e (set ex) \<union> set es"
    using std_map_assign_subset [of "fst e" "snd e" ex] by auto
  finally show ?case by auto
qed

lemma address_in_image:
  fixes base n :: u64 and rva :: u32
  assumes "unat base + unat n \<le> 2 ^ 64"
  shows "base \<le> base + ucast rva \<and> unat (base + ucast rva) < unat base + unat n
           \<longleftrightarrow> unat rva < unat n"
proof -
  have lt: "unat base < 2 ^ 64" "unat rva < 2 ^ 32"
    using unsigned_less [of base] unsigned_less [of rva] by simp_all
  have r: "unat (ucast rva :: u64) = unat rva"
    using lt(2) by (simp add: unsigned_ucast_eq take_bit_nat_eq_self_iff)
  show ?thesis
  proof (cases "unat base + unat rva < 2 ^ 64")
    case True
    then have "unat (base + ucast rva) = unat base + unat rva"
      by (simp add: unat_word_ariths r)
    then show ?thesis
      by (simp add: word_le_nat_alt)
  next
    case False
    then have wrap: "unat (base + ucast rva) = unat base + unat rva - 2 ^ 64"
      using lt by (simp add: unat_word_ariths r mod_if)
    have "\<not> unat base \<le> unat (base + ucast rva)"
      using lt wrap False by simp
    then have "\<not> base \<le> base + ucast rva"
      by (simp add: word_le_nat_alt)
    moreover have "\<not> unat rva < unat n"
      using False assms by simp
    ultimately show ?thesis by simp
  qed
qed

text \<open>
  Claim C3, as amended. Every address in \<open>exports\<close> is \<open>image_base + rva\<close> in 64-bit
  arithmetic for a 32-bit \<open>rva\<close>, and, when the image range does not wrap around, it lies
  in \<open>[image_base, image_base + size_of_image)\<close> exactly when \<open>rva < size_of_image\<close>.
  \<open>map_module\<close> does not compare \<open>rva\<close> with the image size, so the address of a function
  beyond the image lies outside the range. For a file whose offsets are its RVAs, \<open>rva\<close>
  is the entry \<open>functions[ordinals[i]]\<close> of the function table of the mapped image, for an
  index \<open>i\<close> of that name.
\<close>

theorem map_module_export_address:
  assumes "map_module emu data name w = (Inr b, w')"
      and "(n, a) \<in> set (exports b)"
  shows "\<exists>rva :: u32.
           a = image_base b + ucast rva \<and>
           (unat (image_base b) + unat (size_of_image b) \<le> 2 ^ 64 \<longrightarrow>
              (image_base b \<le> a \<and> unat a < unat (image_base b) + unat (size_of_image b)
                 \<longleftrightarrow> unat rva < unat (size_of_image b))) \<and>
           (file_offsets_are_rvas data \<longrightarrow>
              (\<exists>nt va sz dir i.
                 nt_headers_of data = Inr nt \<and>
                 export_directory_entry data nt = Inr (va, sz) \<and>
                 image_export_directory data (unat va) = Some dir \<and>
                 i < unat (NumberOfNames dir) \<and>
                 image_export_name data dir i = Some n \<and>
                 image_export_rva data dir i = Some rva))"
proof -
  from map_module_export_entries [OF assms(1)] obtain nt va sz where
    nt: "nt_headers_of data = Inr nt" and
    entry: "export_directory_entry data nt = Inr (va, sz)" and
    cases: "if va = 0 \<or> sz = 0 then exports b = []
             else \<exists>dir es.
                    read_export_directory data (unat va) = Inr dir \<and>
                    file_export_entries data (image_base b) dir 0 (unat (NumberOfNames dir)) = Inr es \<and>
                    length es = unat (NumberOfNames dir) \<and>
                    fst ` set (exports b) = fst ` set es \<and>
                    (\<forall>i<length es. \<exists>j. i \<le> j \<and> j < length es \<and>
                       fst (es ! j) = fst (es ! i) \<and>
                       (\<forall>l. j < l \<and> l < length es \<longrightarrow> fst (es ! l) \<noteq> fst (es ! i)) \<and>
                       map_of (exports b) (fst (es ! i)) = Some (snd (es ! j)))"
    by (elim exE conjE)
  from assms(2) cases have present: "\<not> (va = 0 \<or> sz = 0)"
    by (cases "va = 0 \<or> sz = 0") simp_all
  with cases obtain dir es where
    dir: "read_export_directory data (unat va) = Inr dir" and
    es: "file_export_entries data (image_base b) dir 0 (unat (NumberOfNames dir)) = Inr es" and
    len: "length es = unat (NumberOfNames dir)" and
    keys: "fst ` set (exports b) = fst ` set es" and
    last: "\<And>i. i < length es \<Longrightarrow> \<exists>j. i \<le> j \<and> j < length es \<and>
                       fst (es ! j) = fst (es ! i) \<and>
                       (\<forall>l. j < l \<and> l < length es \<longrightarrow> fst (es ! l) \<noteq> fst (es ! i)) \<and>
                       map_of (exports b) (fst (es ! i)) = Some (snd (es ! j))"
    by auto
  from assms(2) keys have "n \<in> fst ` set es"
    by force
  then obtain i0 where i0: "i0 < length es" "fst (es ! i0) = n"
    by (auto simp: in_set_conv_nth)
  from last [OF i0(1)] obtain i where
    i: "i < length es" "fst (es ! i) = n" "map_of (exports b) n = Some (snd (es ! i))"
    using i0(2) by auto
  from map_module_export_entries [OF assms(1)] have "distinct (map fst (exports b))"
    by (simp add: strict_sorted_iff)
  with assms(2) have "map_of (exports b) n = Some a"
    by simp
  with i(3) have a: "snd (es ! i) = a"
    by simp
  from export_entries_nth [OF es] i(1) len obtain rva where
    rva: "file_export_name data dir i = Inr (fst (es ! i))"
         "file_export_rva data dir i = Inr rva" "snd (es ! i) = image_base b + ucast rva"
    by fastforce
  have range: "unat (image_base b) + unat (size_of_image b) \<le> 2 ^ 64 \<longrightarrow>
              (image_base b \<le> a \<and> unat a < unat (image_base b) + unat (size_of_image b)
                 \<longleftrightarrow> unat rva < unat (size_of_image b))"
    unfolding a [symmetric] rva(3) by (rule impI) (rule address_in_image)
  have pe: "\<exists>nt va sz dir i.
                 nt_headers_of data = Inr nt \<and>
                 export_directory_entry data nt = Inr (va, sz) \<and>
                 image_export_directory data (unat va) = Some dir \<and>
                 i < unat (NumberOfNames dir) \<and>
                 image_export_name data dir i = Some n \<and>
                 image_export_rva data dir i = Some rva"
    if flat: "file_offsets_are_rvas data"
    using nt entry flat_export_directory [OF flat dir] i(1) len
          flat_export_name [OF flat rva(1)] i(2) flat_export_rva [OF flat rva(2)]
    by (intro exI [of _ nt] exI [of _ va] exI [of _ sz] exI [of _ dir] exI [of _ i]) simp
  show ?thesis
    using a rva(3) range pe
    by (intro exI [of _ rva] conjI impI) simp_all
qed

subsection \<open>Type reflection\<close>

lemma make_type_info_sorted:
  "sorted_wrt (<) (map fst (members (make_type_info name reflected)))"
proof -
  have "sorted_wrt (<) (map fst m) \<Longrightarrow>
          sorted_wrt (<) (map fst (foldl (\<lambda>m (member_offset, member_name).
             std_map_assign member_offset member_name m) m reflected))" for m
    by (induction reflected arbitrary: m) (auto simp: std_map_assign_sorted)
  from this [of "[]"] show ?thesis
    by (simp add: make_type_info_def)
qed

lemma member_name_loop_exact:
  "sorted_wrt (<) (map fst m) \<Longrightarrow> (offset, n) \<in> set m \<Longrightarrow>
     member_name_loop offset last_offset last_member m = n"
proof (induction m arbitrary: last_offset last_member)
  case Nil
  then show ?case by simp
next
  case (Cons e m)
  show ?case
  proof (cases "offset = fst e")
    case True
    with Cons.prems have "n = snd e"
      by (cases e) auto
    with True show ?thesis by simp
  next
    case False
    with Cons.prems have tail: "(offset, n) \<in> set m" "fst e < offset"
      by (cases e; force)+
    then have "\<not> offset < fst e"
      by simp
    with tail Cons.IH [of "fst e" "snd e"] Cons.prems(1) False show ?thesis
      by simp
  qed
qed

lemma member_name_loop_between:
  "sorted_wrt (<) (map fst (pre @ (o1, n1) # (o2, n2) # post)) \<Longrightarrow> o1 < offset \<Longrightarrow>
     offset < o2 \<Longrightarrow>
     member_name_loop offset last_offset last_member (pre @ (o1, n1) # (o2, n2) # post) =
       n1 @ ''+'' @ to_string (offset - o1)"
proof (induction pre arbitrary: last_offset last_member)
  case Nil
  then show ?case by auto
next
  case (Cons e pre)
  from Cons.prems have "fst e < o1"
    by simp
  with Cons.prems have "fst e < offset"
    by simp
  then have "\<not> offset < fst e" "offset \<noteq> fst e"
    by simp_all
  with Cons show ?case
    by simp
qed

lemma member_name_loop_beyond:
  "\<forall>e \<in> set m. fst e < offset \<Longrightarrow>
     member_name_loop offset last_offset last_member m = ''<N/A>''"
  by (induction m arbitrary: last_offset last_member) auto

text \<open>
  Claim C6, as amended. The member table of a \<open>type_info\<close> is ordered by offset, one entry
  per offset. \<open>get_member_name\<close> returns the name of the member at an offset of the table;
  strictly between two consecutive offsets \<open>o1 < offset < o2\<close> it returns the name at
  \<open>o1\<close>, then "+", then \<open>offset - o1\<close> in decimal; above every offset of the table, and
  for the empty table, it returns "<N/A>". Below the first offset of the table, which
  needs a first member that is not at offset 0, it returns "+" and the offset, with an
  empty name, and not "<N/A>" as the claim states.
\<close>

theorem get_member_name_decodes:
  assumes "info = make_type_info name reflected"
  shows "sorted_wrt (<) (map fst (members info)) \<and>
         (\<forall>e \<in> set (members info). get_member_name info (fst e) = snd e) \<and>
         (\<forall>pre o1 n1 o2 n2 post offset.
            members info = pre @ (o1, n1) # (o2, n2) # post \<and> o1 < offset \<and> offset < o2 \<longrightarrow>
            get_member_name info offset = n1 @ ''+'' @ to_string (offset - o1)) \<and>
         (\<forall>offset. (\<forall>e \<in> set (members info). fst e < offset) \<longrightarrow>
            get_member_name info offset = ''<N/A>'') \<and>
         (\<forall>o1 n1 rest offset.
            members info = (o1, n1) # rest \<and> offset < o1 \<longrightarrow>
            get_member_name info offset = ''+'' @ to_string offset)"
proof -
  have sorted: "sorted_wrt (<) (map fst (members info))"
    unfolding assms by (rule make_type_info_sorted)
  have exact: "\<forall>e \<in> set (members info). get_member_name info (fst e) = snd e"
    using member_name_loop_exact [OF sorted] by (auto simp: get_member_name_def)
  have between: "\<forall>pre o1 n1 o2 n2 post offset.
            members info = pre @ (o1, n1) # (o2, n2) # post \<and> o1 < offset \<and> offset < o2 \<longrightarrow>
            get_member_name info offset = n1 @ ''+'' @ to_string (offset - o1)"
  proof (intro allI impI, elim conjE)
    fix pre o1 n1 o2 n2 post offset
    assume m: "members info = pre @ (o1, n1) # (o2, n2) # post" and o: "o1 < offset" "offset < o2"
    from sorted have "sorted_wrt (<) (map fst (pre @ (o1, n1) # (o2, n2) # post))"
      by (simp only: m)
    from member_name_loop_between [OF this o]
    show "get_member_name info offset = n1 @ ''+'' @ to_string (offset - o1)"
      by (simp only: get_member_name_def m)
  qed
  have beyond: "\<forall>offset. (\<forall>e \<in> set (members info). fst e < offset) \<longrightarrow>
            get_member_name info offset = ''<N/A>''"
    by (simp add: get_member_name_def member_name_loop_beyond)
  have before: "\<forall>o1 n1 rest offset.
            members info = (o1, n1) # rest \<and> offset < o1 \<longrightarrow>
            get_member_name info offset = ''+'' @ to_string offset"
    by (auto simp: get_member_name_def)
  from sorted exact between beyond before show ?thesis
    by (intro conjI)
qed

lemma to_string_4: "to_string 4 = ''4''"
  by (simp add: to_string_def upt_numeral char_of_eq_iff)

lemma to_string_48: "to_string 48 = ''48''"
  by (simp add: to_string_def upt_numeral char_of_eq_iff)

theorem get_member_name_decodes_counterexample:
  "(4 :: u64) < 8 \<and>
   get_member_name (make_type_info ''T'' [(8, ''b'')]) 4 = ''+4'' \<and>
   get_member_name (make_type_info ''T'' [(8, ''b'')]) 4 \<noteq> ''<N/A>''"
  by (simp add: get_member_name_def make_type_info_def to_string_4)

lemma teb_members:
  "members (make_type_info ''TEB'' [(0, ''NtTib''), (0x60, ''ProcessEnvironmentBlock'')]) =
     [] @ (0, ''NtTib'') # (0x60, ''ProcessEnvironmentBlock'') # []"
  by (simp add: make_type_info_def)

theorem get_member_name_decodes_witness:
  "get_member_name (make_type_info ''TEB'' [(0, ''NtTib''), (0x60, ''ProcessEnvironmentBlock'')])
     0x60 = ''ProcessEnvironmentBlock'' \<and>
   get_member_name (make_type_info ''TEB'' [(0, ''NtTib''), (0x60, ''ProcessEnvironmentBlock'')])
     0x30 = ''NtTib+48'' \<and>
   get_member_name (make_type_info ''TEB'' [(0, ''NtTib''), (0x60, ''ProcessEnvironmentBlock'')])
     0x68 = ''<N/A>'' \<and>
   get_member_name (make_type_info ''void'' []) 0 = ''<N/A>''"
proof -
  note inst = get_member_name_decodes [OF refl,
      of "''TEB''" "[(0, ''NtTib''), (0x60, ''ProcessEnvironmentBlock'')]"]
  have exact: "get_member_name (make_type_info ''TEB'' [(0, ''NtTib''), (0x60, ''ProcessEnvironmentBlock'')])
     0x60 = ''ProcessEnvironmentBlock''"
    using inst [THEN conjunct2, THEN conjunct1] by (simp add: teb_members)
  have between: "get_member_name (make_type_info ''TEB'' [(0, ''NtTib''), (0x60, ''ProcessEnvironmentBlock'')])
     0x30 = ''NtTib+48''"
    using inst [THEN conjunct2, THEN conjunct2, THEN conjunct1, rule_format, of "[]" 0 "''NtTib''"
               "0x60" "''ProcessEnvironmentBlock''" "[]" "0x30"]
    by (simp add: teb_members to_string_48)
  have beyond: "get_member_name (make_type_info ''TEB'' [(0, ''NtTib''), (0x60, ''ProcessEnvironmentBlock'')])
     0x68 = ''<N/A>''"
    using inst [THEN conjunct2, THEN conjunct2, THEN conjunct2, THEN conjunct1, THEN spec, of "0x68"]
    by (simp add: teb_members)
  have empty: "get_member_name (make_type_info ''void'' []) 0 = ''<N/A>''"
    using get_member_name_decodes [OF refl, of "''void''" "[]", THEN conjunct2, THEN conjunct2,
             THEN conjunct2, THEN conjunct1, THEN spec, of 0]
    by (simp add: make_type_info_def)
  from exact between beyond empty show ?thesis
    by (intro conjI)
qed

subsection \<open>The export hooks\<close>

lemma try_emplace_keys: "fst ` set (try_emplace k v m) = insert k (fst ` set m)"
  by (auto simp: try_emplace_def)

lemma try_emplace_distinct: "distinct (map fst m) \<Longrightarrow> distinct (map fst (try_emplace k v m))"
  by (auto simp: try_emplace_def)

lemma remap_keys:
  "fst ` set (foldl (\<lambda>m exp. try_emplace (snd exp) (fst exp) m) acc ex) =
     fst ` set acc \<union> snd ` set ex"
  by (induction ex arbitrary: acc) (auto simp: try_emplace_keys)

lemma remap_distinct:
  "distinct (map fst acc) \<Longrightarrow>
     distinct (map fst (foldl (\<lambda>m exp. try_emplace (snd exp) (fst exp) m) acc ex))"
  by (induction ex arbitrary: acc) (simp_all add: try_emplace_distinct)

lemma remap_first:
  "(a, n) \<in> set (foldl (\<lambda>m exp. try_emplace (snd exp) (fst exp) m) acc ex) \<Longrightarrow>
     (a, n) \<in> set acc \<or>
     (a \<notin> fst ` set acc \<and> (\<exists>pre post. ex = pre @ (n, a) # post \<and> a \<notin> snd ` set pre))"
proof (induction ex arbitrary: acc)
  case Nil
  then show ?case by simp
next
  case (Cons e ex)
  let ?acc = "try_emplace (snd e) (fst e) acc"
  from Cons.prems have "(a, n) \<in> set (foldl (\<lambda>m exp. try_emplace (snd exp) (fst exp) m) ?acc ex)"
    by simp
  from Cons.IH [OF this] consider
    (old) "(a, n) \<in> set ?acc"
  | (new) pre post where "a \<notin> fst ` set ?acc" "ex = pre @ (n, a) # post" "a \<notin> snd ` set pre"
    by blast
  then show ?case
  proof cases
    case old
    show ?thesis
    proof (cases "(a, n) \<in> set acc")
      case True
      then show ?thesis by simp
    next
      case False
      with old have e: "snd e \<notin> fst ` set acc" "e = (n, a)"
        by (auto simp: try_emplace_def split: if_splits)
      then have "e # ex = [] @ (n, a) # ex" "a \<notin> snd ` set []" "a \<notin> fst ` set acc"
        by auto
      then show ?thesis by blast
    qed
  next
    case new
    from new(1) have "a \<notin> fst ` set acc" "a \<noteq> snd e"
      by (auto simp: try_emplace_keys)
    moreover from new(2) have "e # ex = (e # pre) @ (n, a) # post"
      by simp
    moreover from new(3) \<open>a \<noteq> snd e\<close> have "a \<notin> snd ` set (e # pre)"
      by auto
    ultimately show ?thesis by blast
  qed
qed

lemma export_remap_smallest:
  assumes "sorted_wrt (<) (map fst ex)" and "(a, n) \<in> set (export_remap ex)"
  shows "(n, a) \<in> set ex \<and> (\<forall>e \<in> set ex. snd e = a \<longrightarrow> n \<le> fst e)"
proof -
  from remap_first [of a n "[]" ex] assms(2) obtain pre post where
    ex: "ex = pre @ (n, a) # post" and pre: "a \<notin> snd ` set pre"
    by (auto simp: export_remap_def)
  have "n \<le> fst e" if "e \<in> set ex" "snd e = a" for e
  proof -
    from that pre ex have "e = (n, a) \<or> e \<in> set post"
      by auto
    moreover from assms(1) have "\<forall>e \<in> set post. n < fst e"
      by (simp add: ex sorted_wrt_append)
    ultimately show ?thesis
      by auto
  qed
  with ex show ?thesis
    by simp
qed

lemma install_export_hooks_calls:
  "calls (install_export_hooks emu remap w) =
     calls w @ map (\<lambda>e. hook_memory_execution_call (fst e) 0 (export_trace (snd e))) remap"
  unfolding install_export_hooks_def
  by (induction remap arbitrary: w) (simp_all add: hook_memory_execution_def)

text \<open>
  Claim C9. For the exports of a mapped module, \<open>run\<close> installs exactly one execution
  hook per entry of the reverse map, and the reverse map has one entry per export
  address. The name of an entry is an export name of its address and is the smallest,
  in the lexicographic order of strings, of the export names with that address: the
  exports are visited in the order of their names and the first insertion per address is
  kept. The hooks are listed in the order in which the reverse map is iterated.
\<close>

theorem export_hooks_smallest_name:
  assumes "map_module emu data name w0 = (Inr dll, w1)"
  shows "calls (install_export_hooks emu (export_remap (exports dll)) w) =
           calls w @ map (\<lambda>e. hook_memory_execution_call (fst e) 0 (export_trace (snd e)))
                       (export_remap (exports dll)) \<and>
         distinct (map fst (export_remap (exports dll))) \<and>
         fst ` set (export_remap (exports dll)) = snd ` set (exports dll) \<and>
         (\<forall>h \<in> set (export_remap (exports dll)).
            (snd h, fst h) \<in> set (exports dll) \<and>
            (\<forall>e \<in> set (exports dll). snd e = fst h \<longrightarrow> snd h \<le> fst e))"
proof -
  have sorted: "sorted_wrt (<) (map fst (exports dll))"
    using map_module_export_entries [OF assms] by (rule conjunct1)
  have distinct: "distinct (map fst (export_remap (exports dll)))"
    unfolding export_remap_def by (rule remap_distinct) simp
  have keys: "fst ` set (export_remap (exports dll)) = snd ` set (exports dll)"
    unfolding export_remap_def by (simp add: remap_keys)
  have smallest: "\<forall>h \<in> set (export_remap (exports dll)).
            (snd h, fst h) \<in> set (exports dll) \<and>
            (\<forall>e \<in> set (exports dll). snd e = fst h \<longrightarrow> snd h \<le> fst e)"
  proof
    fix h assume "h \<in> set (export_remap (exports dll))"
    then have "(fst h, snd h) \<in> set (export_remap (exports dll))"
      by simp
    from export_remap_smallest [OF sorted this]
    show "(snd h, fst h) \<in> set (exports dll) \<and>
            (\<forall>e \<in> set (exports dll). snd e = fst h \<longrightarrow> snd h \<le> fst e)" .
  qed
  from install_export_hooks_calls distinct keys smallest show ?thesis
    by (intro conjI)
qed

subsection \<open>The process builder\<close>

lemma align_up_ge:
  assumes "alignment \<noteq> 0"
  shows "unat v \<le> align_up v alignment"
proof -
  define a where "a = unat alignment"
  have a: "0 < a"
    using assms by (simp add: a_def unat_gt_0)
  define q where "q = (unat v + a - 1) div a"
  have "unat v + a - 1 = q * a + (unat v + a - 1) mod a"
    by (simp add: q_def)
  moreover have "(unat v + a - 1) mod a \<le> a - 1"
    using a by (simp add: less_Suc_eq_le [symmetric])
  ultimately have "unat v \<le> q * a"
    using a by linarith
  then show ?thesis
    by (simp add: align_up_def q_def a_def)
qed

lemma reserve_Inr:
  assumes "reserve n alignment a = Inr (addr, a')"
      and "alignment \<noteq> 0"
      and "unat (region_address a) + unat (region_size a) < 2 ^ 64"
  shows "unat (active_address a) \<le> unat addr \<and>
         unat (active_address a') = unat addr + unat n \<and>
         unat (active_address a') \<le> unat (region_address a) + unat (region_size a) \<and>
         region_address a' = region_address a \<and> region_size a' = region_size a"
proof -
  let ?start = "align_up (active_address a) alignment"
  from assms(1) have fit: "?start + unat n \<le> unat (region_address a) + unat (region_size a)"
    and addr: "addr = word_of_nat ?start"
    and a': "a' = a\<lparr> active_address := word_of_nat (?start + unat n) \<rparr>"
    by (auto simp: reserve_def Let_def split: if_splits)
  from fit assms(3) have small: "?start + unat n < 2 ^ 64" "?start < 2 ^ 64"
    by simp_all
  have "unat addr = ?start"
    using small(2) by (simp add: addr unat_of_nat)
  moreover have "unat (active_address a') = ?start + unat n"
    using small(1) by (simp add: a' unat_of_nat del: of_nat_add)
  ultimately show ?thesis
    using align_up_ge [OF assms(2), of "active_address a"] fit by (simp add: a')
qed


lemmas setup_defs = setup_context_def and_then_def lift_def effect_def step_def
  setup_kusd_def setup_gs_segment_def setup_stack_def Let_def make_unicode_string_def

lemma setup_context_reservations:
  assumes "setup_context emu pf w = (Inr context, w1)"
  shows "\<exists>gs1 gs2 gs3 gs4 s1 s2.
           reserve_struct pf TEB_type
             \<lparr> region_address = GS_SEGMENT_ADDR, region_size = GS_SEGMENT_SIZE,
               active_address = GS_SEGMENT_ADDR \<rparr> = Inr (teb context, gs1) \<and>
           reserve_struct pf PEB_type gs1 = Inr (peb context, gs2) \<and>
           reserve_struct pf PARAMETERS_type gs2 = Inr (process_params context, gs3) \<and>
           reserve (word_of_nat ((length (wide application_path) + 1) * 2)) 2 gs3 = Inr (s1, gs4) \<and>
           reserve (word_of_nat ((length (wide application_path) + 1) * 2)) 2 gs4 =
             Inr (s2, gs_segment context)"
  using assms
  by (auto simp: setup_defs split: prod.splits sum.splits)

lemma setup_context_reads:
  assumes "setup_context emu pf w = (Inr context, w1)"
      and "teb context \<noteq> peb context"
      and "teb context \<noteq> process_params context"
      and "peb context \<noteq> process_params context"
  shows "Self (NtTib (read_TEB w1 (teb context))) = teb context + offset_of_NtTib pf \<and>
         StackLimit (NtTib (read_TEB w1 (teb context))) = STACK_ADDRESS \<and>
         StackBase (NtTib (read_TEB w1 (teb context))) = STACK_ADDRESS + STACK_SIZE \<and>
         ProcessEnvironmentBlock (read_TEB w1 (teb context)) = peb context \<and>
         ProcessParameters (read_PEB w1 (peb context)) = process_params context \<and>
         ImageBaseAddress (read_PEB w1 (peb context)) = 0 \<and>
         Flags (read_PARAMETERS w1 (process_params context)) = 0x6001"
  using assms
  by (auto simp: setup_defs access_TEB_def access_PEB_def access_PARAMETERS_def
                 read_TEB_def read_PEB_def read_PARAMETERS_def write_memory_def
           split: prod.splits sum.splits)


lemma setup_context_layout:
  assumes "setup_context emu pf w = (Inr context, w1)"
      and "align_of (layout pf TEB_type) \<noteq> 0"
      and "align_of (layout pf PEB_type) \<noteq> 0"
      and "align_of (layout pf PARAMETERS_type) \<noteq> 0"
  shows "unat GS_SEGMENT_ADDR \<le> unat (teb context) \<and>
         unat (teb context) + unat (size_of (layout pf TEB_type)) \<le> unat (peb context) \<and>
         unat (peb context) + unat (size_of (layout pf PEB_type)) \<le> unat (process_params context) \<and>
         unat (process_params context) + unat (size_of (layout pf PARAMETERS_type))
           \<le> unat (active_address (gs_segment context)) \<and>
         unat (active_address (gs_segment context)) \<le> unat GS_SEGMENT_ADDR + unat GS_SEGMENT_SIZE \<and>
         region_address (gs_segment context) = GS_SEGMENT_ADDR \<and>
         region_size (gs_segment context) = GS_SEGMENT_SIZE"
proof -
  let ?gs = "\<lparr> region_address = GS_SEGMENT_ADDR, region_size = GS_SEGMENT_SIZE,
              active_address = GS_SEGMENT_ADDR \<rparr>"
  from setup_context_reservations [OF assms(1)] obtain gs1 gs2 gs3 gs4 s1 s2 where
    r1: "reserve (size_of (layout pf TEB_type)) (align_of (layout pf TEB_type)) ?gs =
           Inr (teb context, gs1)" and
    r2: "reserve (size_of (layout pf PEB_type)) (align_of (layout pf PEB_type)) gs1 =
           Inr (peb context, gs2)" and
    r3: "reserve (size_of (layout pf PARAMETERS_type)) (align_of (layout pf PARAMETERS_type)) gs2 =
           Inr (process_params context, gs3)" and
    r4: "reserve (word_of_nat ((length (wide application_path) + 1) * 2)) 2 gs3 = Inr (s1, gs4)" and
    r5: "reserve (word_of_nat ((length (wide application_path) + 1) * 2)) 2 gs4 =
           Inr (s2, gs_segment context)"
    unfolding reserve_struct_def by blast
  have region: "unat GS_SEGMENT_ADDR + unat GS_SEGMENT_SIZE < 2 ^ 64"
    by (simp add: GS_SEGMENT_ADDR_def GS_SEGMENT_SIZE_def)
  have two: "(2 :: u64) \<noteq> 0"
    by simp
  note f1 = reserve_Inr [OF r1 assms(2)]
  from f1 region have g1: "unat (region_address gs1) + unat (region_size gs1) < 2 ^ 64"
    by simp
  note f2 = reserve_Inr [OF r2 assms(3) g1]
  from f1 f2 region have g2: "unat (region_address gs2) + unat (region_size gs2) < 2 ^ 64"
    by simp
  note f3 = reserve_Inr [OF r3 assms(4) g2]
  from f1 f2 f3 region have g3: "unat (region_address gs3) + unat (region_size gs3) < 2 ^ 64"
    by simp
  note f4 = reserve_Inr [OF r4 two g3]
  from f1 f2 f3 f4 region have g4: "unat (region_address gs4) + unat (region_size gs4) < 2 ^ 64"
    by simp
  note f5 = reserve_Inr [OF r5 two g4]
  from f1 f2 f3 f4 f5 region show ?thesis
    by simp
qed

lemma and_then_guest:
  assumes "\<And>w. guest (snd (m w)) = guest w"
      and "\<And>x w. guest (snd (f x w)) = guest w"
  shows "guest (snd (and_then m f w)) = guest w"
proof (cases "m w")
  case (Pair r w1)
  with assms(1) [of w] have "guest w1 = guest w"
    by simp
  with Pair assms(2) show ?thesis
    by (cases r) (simp_all add: and_then_def)
qed

lemma lift_guest: "guest (snd (lift r w)) = guest w"
  by (simp add: lift_def)

lemma allocate_memory_guest: "guest (snd (allocate_memory emu a n p w)) = guest w"
  by (simp add: allocate_memory_def split: prod.splits)

lemma find_free_allocation_base_guest:
  "guest (snd (find_free_allocation_base emu n w)) = guest w"
  by (simp add: find_free_allocation_base_def split: prod.splits)

lemma allocate_image_guest:
  "guest (snd (allocate_image emu module_data nt preferred n w)) = guest w"
proof -
  have a: "guest w1 = guest w0" if "allocate_memory emu a k p w0 = (r, w1)"
    for a k p r and w0 w1 :: "'a world"
    using allocate_memory_guest [of emu a k p w0] that by simp
  have b: "guest w1 = guest w0" if "find_free_allocation_base emu k w0 = (r, w1)"
    for k r and w0 w1 :: "'a world"
    using find_free_allocation_base_guest [of emu k w0] that by simp
  show ?thesis
    by (auto simp: allocate_image_def dest!: a b split: prod.splits bool.splits sum.splits)
qed

lemma map_section_guest:
  "guest (snd (map_section emu module_data base section w)) = guest w"
  by (simp add: map_section_def Let_def write_memory_def protect_memory_def
           split: sum.splits prod.splits)

lemma map_sections_guest:
  "guest (snd (map_sections emu module_data base off k w)) = guest w"
proof (induction k arbitrary: off w)
  case 0
  show ?case by simp
next
  case (Suc k)
  show ?case
  proof (cases "read_section_header module_data off")
    case (Inl a)
    then show ?thesis by simp
  next
    case (Inr sec)
    obtain r w1 where m: "map_section emu module_data base sec w = (r, w1)"
      by (cases "map_section emu module_data base sec w")
    with map_section_guest [of emu module_data base sec w] have "guest w1 = guest w"
      by simp
    with Inr m Suc.IH [of "off + 40" w1] show ?thesis
      by (cases r) simp_all
  qed
qed

lemma map_module_guest: "guest (snd (map_module emu module_data name w)) = guest w"
  unfolding map_module_def map_image_def
  by (intro and_then_guest lift_guest allocate_image_guest map_sections_guest)
     (simp_all add: effect_def printf_def write_memory_def)

text \<open>What a successful \<open>build_process\<close> went through.\<close>

lemma build_process_stages:
  assumes "build_process emu pf w = (Inr context, w4)"
  shows "\<exists>context0 w1 w2.
           setup_context emu pf w = (Inr context0, w1) \<and>
           map_file emu pf application_path w1 = (Inr (executable context), w2) \<and>
           map_file emu pf ntdll_path
             (access_PEB (peb context0)
                (\<lambda>p. p\<lparr> ImageBaseAddress := image_base (executable context) \<rparr>) w2) =
             (Inr (ntdll context), w4) \<and>
           context = context0\<lparr> executable := executable context, ntdll := ntdll context \<rparr>"
  using assms
  by (auto simp: build_process_def and_then_def effect_def lift_def
           split: prod.splits sum.splits)

lemma build_process_context:
  assumes "build_process emu pf w = (Inr context, w4)"
  shows "\<exists>context0 w1. setup_context emu pf w = (Inr context0, w1) \<and>
           teb context = teb context0 \<and> peb context = peb context0 \<and>
           process_params context = process_params context0 \<and>
           kusd context = kusd context0 \<and> gs_segment context = gs_segment context0"
proof -
  from build_process_stages [OF assms] obtain context0 w1 where
    "setup_context emu pf w = (Inr context0, w1)"
    "context = context0\<lparr> executable := executable context, ntdll := ntdll context \<rparr>"
    by blast
  moreover from this(2) have "teb context = teb context0 \<and> peb context = peb context0 \<and>
           process_params context = process_params context0 \<and>
           kusd context = kusd context0 \<and> gs_segment context = gs_segment context0"
    by (metis process_context.select_convs process_context.surjective
          process_context.update_convs)
  ultimately show ?thesis
    by blast
qed

text \<open>
  Claim C4. After a successful process construction (\<open>build_process\<close>: the context, the
  executable and ntdll mapped, the image base stored), read back from guest memory:
  \<open>TEB.NtTib.Self\<close> is the guest address of \<open>TEB.NtTib\<close> (the address of the TEB plus the
  offset of \<open>NtTib\<close>), \<open>TEB.ProcessEnvironmentBlock\<close> is the address of the PEB,
  \<open>PEB.ProcessParameters\<close> is the address of the process parameters and
  \<open>PEB.ImageBaseAddress\<close> is the executable's \<open>image_base\<close>. The structures have non-zero
  alignments and the TEB and the PEB non-zero sizes.
\<close>

theorem process_pointer_links:
  assumes "build_process emu pf w = (Inr context, w4)"
      and "align_of (layout pf TEB_type) \<noteq> 0"
      and "align_of (layout pf PEB_type) \<noteq> 0"
      and "align_of (layout pf PARAMETERS_type) \<noteq> 0"
      and "size_of (layout pf TEB_type) \<noteq> 0"
      and "size_of (layout pf PEB_type) \<noteq> 0"
  shows "Self (NtTib (read_TEB w4 (teb context))) = teb context + offset_of_NtTib pf \<and>
         ProcessEnvironmentBlock (read_TEB w4 (teb context)) = peb context \<and>
         ProcessParameters (read_PEB w4 (peb context)) = process_params context \<and>
         ImageBaseAddress (read_PEB w4 (peb context)) = image_base (executable context)"
proof -
  from build_process_stages [OF assms(1)] obtain context0 w1 w2 where
    st: "setup_context emu pf w = (Inr context0, w1)" and
    exe: "map_file emu pf application_path w1 = (Inr (executable context), w2)" and
    dll: "map_file emu pf ntdll_path
             (access_PEB (peb context0)
                (\<lambda>p. p\<lparr> ImageBaseAddress := image_base (executable context) \<rparr>) w2) =
             (Inr (ntdll context), w4)" and
    eq: "context = context0\<lparr> executable := executable context, ntdll := ntdll context \<rparr>"
    by blast
  from eq have same: "teb context = teb context0" "peb context = peb context0"
    "process_params context = process_params context0"
    by (metis process_context.select_convs process_context.surjective
          process_context.update_convs)+
  from setup_context_layout [OF st assms(2-4)] assms(5,6) have
    "unat (teb context0) < unat (peb context0)"
    "unat (peb context0) < unat (process_params context0)"
    by (simp_all add: unat_gt_0 [symmetric] del: unat_gt_0)
  then have distinct: "teb context0 \<noteq> peb context0" "teb context0 \<noteq> process_params context0"
    "peb context0 \<noteq> process_params context0"
    by auto
  note reads = setup_context_reads [OF st distinct]
  have g2: "guest w2 = guest w1"
    using map_module_guest [of emu "load_file pf application_path"
            "generic_string pf application_path" w1] exe
    by (simp add: map_file_def)
  have g4: "guest w4 = guest (access_PEB (peb context0)
                (\<lambda>p. p\<lparr> ImageBaseAddress := image_base (executable context) \<rparr>) w2)"
    using map_module_guest [of emu "load_file pf ntdll_path" "generic_string pf ntdll_path"
            "access_PEB (peb context0)
                (\<lambda>p. p\<lparr> ImageBaseAddress := image_base (executable context) \<rparr>) w2"] dll
    by (simp add: map_file_def)
  have teb: "read_TEB w4 (teb context0) = read_TEB w1 (teb context0)"
    using distinct by (simp add: read_TEB_def g4 access_PEB_def g2)
  have peb: "read_PEB w4 (peb context0) =
               (read_PEB w1 (peb context0))\<lparr> ImageBaseAddress := image_base (executable context) \<rparr>"
    by (simp add: read_PEB_def g4 access_PEB_def g2)
  show ?thesis
    using reads by (simp add: same teb peb)
qed

subsection \<open>The run loop\<close>

lemma install_export_hooks_frame:
  "stdout (install_export_hooks emu remap w) = stdout w \<and>
   guest (install_export_hooks emu remap w) = guest w"
  unfolding install_export_hooks_def
  by (induction remap arbitrary: w) (simp_all add: hook_memory_execution_def)

lemma run_reaches_start:
  assumes "build_process emu pf w = (Inr context, w1)"
      and "std_map_at (exports (ntdll context)) ''LdrInitializeThunk'' = Inr entry1"
      and "std_map_at (exports (ntdll context)) ''RtlUserThreadStart'' = Inr entry2"
      and "reserve_struct pf CONTEXT_type (gs_segment context) = Inr (execution_context, gs)"
  shows "\<exists>w2 hooks.
           calls w2 = calls w1 @ hooks @
             [set_reg_call rcx execution_context,
              set_reg_call rdx (image_base (ntdll context))] \<and>
           list_all is_hook_call hooks \<and>
           stdout w2 = stdout w1 \<and>
           run emu pf w =
             (case start emu entry1 w2 of
                (None, w3) \<Rightarrow> (Inr (), printf (''Emulation done.'' @ [CHR 0x0A]) w3)
              | (Some e, w3) \<Rightarrow>
                  (Inl (thrown e),
                   printf (''Emulation failed at: '' @ format_llX (reg emu rip w3) @ [CHR 0x0A]) w3))"
proof -
  define w_hooks where "w_hooks =
    hook_memory_execution emu 0 (- 1) global_trace
      (watch_object emu pf KUSD_type (kusd context)
        (watch_object emu pf PARAMETERS_type (process_params context)
          (watch_object emu pf PEB_type (peb context)
            (watch_object emu pf TEB_type (teb context)
              (hook_instruction_syscall emu syscall_handler
                (install_export_hooks emu (export_remap (exports (ntdll context))) w1))))))"
  define w2 where "w2 =
    set_reg emu rdx (image_base (ntdll context)) (set_reg emu rcx execution_context w_hooks)"
  define hooks where "hooks =
    map (\<lambda>e. hook_memory_execution_call (fst e) 0 (export_trace (snd e)))
      (export_remap (exports (ntdll context))) @
    [hook_instruction_syscall_call syscall_handler,
     hook_memory_read_call (teb context) (size_of (layout pf TEB_type))
       (struct_watch (make_type_info (reflected_name (layout pf TEB_type))
          (reflected_members (layout pf TEB_type))) (teb context)),
     hook_memory_read_call (peb context) (size_of (layout pf PEB_type))
       (struct_watch (make_type_info (reflected_name (layout pf PEB_type))
          (reflected_members (layout pf PEB_type))) (peb context)),
     hook_memory_read_call (process_params context) (size_of (layout pf PARAMETERS_type))
       (struct_watch (make_type_info (reflected_name (layout pf PARAMETERS_type))
          (reflected_members (layout pf PARAMETERS_type))) (process_params context)),
     hook_memory_read_call (kusd context) (size_of (layout pf KUSD_type))
       (struct_watch (make_type_info (reflected_name (layout pf KUSD_type))
          (reflected_members (layout pf KUSD_type))) (kusd context)),
     hook_memory_execution_call 0 (- 1) global_trace]"
  have calls_hooks: "calls w_hooks = calls w1 @ hooks"
    by (simp add: w_hooks_def hooks_def install_export_hooks_calls watch_object_def
                  hook_memory_read_def hook_memory_execution_def hook_instruction_syscall_def
                  Let_def)
  have frame: "stdout w_hooks = stdout w1"
    by (simp add: w_hooks_def install_export_hooks_frame watch_object_def
                  hook_memory_read_def hook_memory_execution_def hook_instruction_syscall_def
                  Let_def)
  have rp: "run_process emu pf context w1 =
          (case start_guarded emu entry1 w2 of
             (Inl a, w3) \<Rightarrow> (Inl a, w3)
           | (Inr u, w3) \<Rightarrow> (Inr (), printf (''Emulation done.'' @ [CHR 0x0A]) w3))"
    by (simp add: run_process_def assms(2-4) w2_def w_hooks_def)
       (simp add: and_then_def effect_def split: prod.splits sum.splits)
  have run: "run emu pf w =
             (case start emu entry1 w2 of
                (None, w3) \<Rightarrow> (Inr (), printf (''Emulation done.'' @ [CHR 0x0A]) w3)
              | (Some e, w3) \<Rightarrow>
                  (Inl (thrown e),
                   printf (''Emulation failed at: '' @ format_llX (reg emu rip w3) @ [CHR 0x0A]) w3))"
    by (simp add: run_def and_then_def assms(1) rp start_guarded_def
             split: prod.splits option.splits)
  have "calls w2 = calls w1 @ hooks @
             [set_reg_call rcx execution_context,
              set_reg_call rdx (image_base (ntdll context))]"
    by (simp add: w2_def set_reg_def calls_hooks)
  moreover have "list_all is_hook_call hooks"
    by (simp add: hooks_def list_all_iff)
  moreover have "stdout w2 = stdout w1"
    by (simp add: w2_def set_reg_def frame)
  ultimately show ?thesis
    using run by blast
qed


lemma setup_context_region:
  assumes "setup_context emu pf w = (Inr context, w1)"
  shows "region_address (gs_segment context) = GS_SEGMENT_ADDR \<and>
         region_size (gs_segment context) = GS_SEGMENT_SIZE"
proof -
  have keep: "region_address a' = region_address a \<and> region_size a' = region_size a"
    if "reserve n al a = Inr (x, a')" for n al a x a'
    using that by (auto simp: reserve_def Let_def split: if_splits)
  from setup_context_reservations [OF assms] obtain gs1 gs2 gs3 gs4 s1 s2 where
    r: "reserve_struct pf TEB_type
             \<lparr> region_address = GS_SEGMENT_ADDR, region_size = GS_SEGMENT_SIZE,
               active_address = GS_SEGMENT_ADDR \<rparr> = Inr (teb context, gs1)"
       "reserve_struct pf PEB_type gs1 = Inr (peb context, gs2)"
       "reserve_struct pf PARAMETERS_type gs2 = Inr (process_params context, gs3)"
       "reserve (word_of_nat ((length (wide application_path) + 1) * 2)) 2 gs3 = Inr (s1, gs4)"
       "reserve (word_of_nat ((length (wide application_path) + 1) * 2)) 2 gs4 =
             Inr (s2, gs_segment context)"
    by blast
  from r [unfolded reserve_struct_def, THEN keep] show ?thesis
    by simp
qed

text \<open>
  Claim C7. When \<open>run\<close> has built the process, found the two exports and reserved the
  \<open>CONTEXT\<close>, the history of emulator calls ends with the hooks, then \<open>rcx\<close> set to the
  address of the \<open>CONTEXT\<close>, then \<open>rdx\<close> set to the image base of ntdll, then the start
  at the address of \<open>LdrInitializeThunk\<close> in the exports of ntdll. The \<open>CONTEXT\<close> is
  fresh: it lies at or above the watermark that the GS allocator had after the process
  was built, and inside the GS segment.
\<close>

theorem run_starts_at_LdrInitializeThunk:
  assumes "build_process emu pf w = (Inr context, w1)"
      and "std_map_at (exports (ntdll context)) ''LdrInitializeThunk'' = Inr entry1"
      and "std_map_at (exports (ntdll context)) ''RtlUserThreadStart'' = Inr entry2"
      and "reserve_struct pf CONTEXT_type (gs_segment context) = Inr (execution_context, gs)"
      and "align_of (layout pf CONTEXT_type) \<noteq> 0"
  shows "\<exists>hooks raised.
           calls (snd (run emu pf w)) = calls w1 @ hooks @
             [set_reg_call rcx execution_context,
              set_reg_call rdx (image_base (ntdll context)),
              start_call entry1 raised] \<and>
           list_all is_hook_call hooks \<and>
           unat (active_address (gs_segment context)) \<le> unat execution_context \<and>
           unat execution_context + unat (size_of (layout pf CONTEXT_type))
             \<le> unat GS_SEGMENT_ADDR + unat GS_SEGMENT_SIZE"
proof -
  from run_reaches_start [OF assms(1-4)] obtain w2 hooks where
    w2: "calls w2 = calls w1 @ hooks @
             [set_reg_call rcx execution_context,
              set_reg_call rdx (image_base (ntdll context))]" and
    hooks: "list_all is_hook_call hooks" and
    run: "run emu pf w =
             (case start emu entry1 w2 of
                (None, w3) \<Rightarrow> (Inr (), printf (''Emulation done.'' @ [CHR 0x0A]) w3)
              | (Some e, w3) \<Rightarrow>
                  (Inl (thrown e),
                   printf (''Emulation failed at: '' @ format_llX (reg emu rip w3) @ [CHR 0x0A]) w3))"
    by blast
  obtain raised printed e' where s: "emu_start emu entry1 (emu_state w2) = ((raised, printed), e')"
    by (metis surj_pair)
  have "calls (snd (run emu pf w)) = calls w2 @ [start_call entry1 raised]"
    by (cases raised) (simp_all add: run start_def s printf_def)
  with w2 have calls: "calls (snd (run emu pf w)) = calls w1 @ hooks @
             [set_reg_call rcx execution_context,
              set_reg_call rdx (image_base (ntdll context)),
              start_call entry1 raised]"
    by simp
  from build_process_context [OF assms(1)] obtain context0 w0 where
    ctx: "setup_context emu pf w = (Inr context0, w0)" and
    same: "gs_segment context = gs_segment context0"
    by blast
  from setup_context_region [OF ctx] same have region:
    "region_address (gs_segment context) = GS_SEGMENT_ADDR"
    "region_size (gs_segment context) = GS_SEGMENT_SIZE"
    by simp_all
  have "unat GS_SEGMENT_ADDR + unat GS_SEGMENT_SIZE < 2 ^ 64"
    by (simp add: GS_SEGMENT_ADDR_def GS_SEGMENT_SIZE_def)
  with reserve_Inr [OF assms(4) [unfolded reserve_struct_def] assms(5)] region
  have fresh: "unat (active_address (gs_segment context)) \<le> unat execution_context"
    "unat execution_context + unat (size_of (layout pf CONTEXT_type))
       \<le> unat GS_SEGMENT_ADDR + unat GS_SEGMENT_SIZE"
    by simp_all
  from calls hooks fresh show ?thesis
    by blast
qed

text \<open>
  Claim C8. \<open>main\<close> returns 0 when \<open>run\<close> returns, and when \<open>run\<close> throws it prints the
  text of the exception on a line of its own and returns 1. When \<open>run\<close> has built the
  process, found the two exports and reserved the \<open>CONTEXT\<close>, it sets \<open>rcx\<close> and \<open>rdx\<close>
  and calls \<open>start\<close>: if \<open>start\<close> returns, \<open>run\<close> prints "Emulation done." and returns; if
  \<open>start\<close> throws, \<open>run\<close> prints "Emulation failed at: " with the value of \<open>rip\<close>, read
  after the failed start, in upper-case hexadecimal, and throws the same exception.
\<close>

theorem start_failure_reported:
  "(\<forall>u w'. run emu pf w = (Inr u, w') \<longrightarrow> main emu pf w = (Some 0, w')) \<and>
   (\<forall>e w'. run emu pf w = (Inl (thrown e), w') \<longrightarrow>
      main emu pf w = (Some 1, puts (what e) w') \<and>
      stdout (puts (what e) w') = stdout w' @ [what e @ [CHR 0x0A]]) \<and>
   (\<forall>context w1 entry1 entry2 execution_context gs.
      build_process emu pf w = (Inr context, w1) \<and>
      std_map_at (exports (ntdll context)) ''LdrInitializeThunk'' = Inr entry1 \<and>
      std_map_at (exports (ntdll context)) ''RtlUserThreadStart'' = Inr entry2 \<and>
      reserve_struct pf CONTEXT_type (gs_segment context) = Inr (execution_context, gs) \<longrightarrow>
      (\<exists>w2 hooks.
         calls w2 = calls w1 @ hooks @
           [set_reg_call rcx execution_context,
            set_reg_call rdx (image_base (ntdll context))] \<and>
         list_all is_hook_call hooks \<and>
         stdout w2 = stdout w1 \<and>
         run emu pf w =
           (case start emu entry1 w2 of
              (None, w3) \<Rightarrow> (Inr (), printf (''Emulation done.'' @ [CHR 0x0A]) w3)
            | (Some e, w3) \<Rightarrow>
                (Inl (thrown e),
                 printf (''Emulation failed at: '' @ format_llX (reg emu rip w3) @ [CHR 0x0A])
                   w3))))"
proof (intro conjI allI impI)
  fix u w' assume "run emu pf w = (Inr u, w')"
  then show "main emu pf w = (Some 0, w')"
    by (simp add: main_def)
next
  fix e w' assume "run emu pf w = (Inl (thrown e), w')"
  then show "main emu pf w = (Some 1, puts (what e) w')"
    by (simp add: main_def)
  show "stdout (puts (what e) w') = stdout w' @ [what e @ [CHR 0x0A]]"
    by (simp add: puts_def)
next
  fix ctx w1 entry1 entry2 execution_context gs
  assume "build_process emu pf w = (Inr ctx, w1) \<and>
      std_map_at (exports (ntdll ctx)) ''LdrInitializeThunk'' = Inr entry1 \<and>
      std_map_at (exports (ntdll ctx)) ''RtlUserThreadStart'' = Inr entry2 \<and>
      reserve_struct pf CONTEXT_type (gs_segment ctx) = Inr (execution_context, gs)"
  then show "\<exists>w2 hooks.
         calls w2 = calls w1 @ hooks @
           [set_reg_call rcx execution_context,
            set_reg_call rdx (image_base (ntdll ctx))] \<and>
         list_all is_hook_call hooks \<and>
         stdout w2 = stdout w1 \<and>
         run emu pf w =
           (case start emu entry1 w2 of
              (None, w3) \<Rightarrow> (Inr (), printf (''Emulation done.'' @ [CHR 0x0A]) w3)
            | (Some e, w3) \<Rightarrow>
                (Inl (thrown e),
                 printf (''Emulation failed at: '' @ format_llX (reg emu rip w3) @ [CHR 0x0A])
                   w3))"
    using run_reaches_start [of emu pf w ctx w1 entry1 entry2 execution_context gs]
    by blast
qed

subsection \<open>Evaluating the examples\<close>

lemma test_image_headers:
  "nt_headers_of (test_image dc rva name1) = Inr 64"
  "ImageBase (test_image dc rva name1) 64 = Inr 0x180000000"
  "SizeOfImage (test_image dc rva name1) 64 = Inr 0x2000"
  by (simp_all add: nt_headers_of_def ImageBase_def SizeOfImage_def img_defs rd_defs)

lemma test_image_dll_characteristics:
  "DllCharacteristics (test_image 0 rva name1) 64 = Inr 0"
  "DllCharacteristics (test_image 0x40 rva name1) 64 = Inr 0x40"
  by (simp_all add: DllCharacteristics_def img_defs rd_defs)

lemma test_world_allocations:
  "fst (allocate_memory test_emu 0x180000000 0x2000 {perm_read}
          (test_world [(0x180000000, 0x1000)])) = False"
  "fst (find_free_allocation_base test_emu 0x2000
          (snd (allocate_memory test_emu 0x180000000 0x2000 {perm_read}
                  (test_world [(0x180000000, 0x1000)])))) = 0x180001000"
  "fst (allocate_memory test_emu 0x180001000 0x2000 {perm_read}
          (snd (find_free_allocation_base test_emu 0x2000
             (snd (allocate_memory test_emu 0x180000000 0x2000 {perm_read}
                  (test_world [(0x180000000, 0x1000)])))))) = True"
  by (simp_all add: emu_defs)

lemma full_world_allocations:
  "fst (allocate_memory test_emu 0x180000000 0x2000 {perm_read}
          (test_world [(0x180000000, 0x1000), (0x7FFFFFFFF000, 0x1000)])) = False"
  "fst (find_free_allocation_base test_emu 0x2000
          (snd (allocate_memory test_emu 0x180000000 0x2000 {perm_read}
                  (test_world [(0x180000000, 0x1000), (0x7FFFFFFFF000, 0x1000)])))) = 0x800000000000"
  "fst (allocate_memory test_emu 0x800000000000 0x2000 {perm_read}
          (snd (find_free_allocation_base test_emu 0x2000
             (snd (allocate_memory test_emu 0x180000000 0x2000 {perm_read}
                  (test_world [(0x180000000, 0x1000), (0x7FFFFFFFF000, 0x1000)])))))) = False"
  by (simp_all add: emu_defs)

theorem map_module_fallback_witness:
  "fst (map_module test_emu (test_image 0 0x600 460) ''a.exe''
          (test_world [(0x180000000, 0x1000)])) =
     Inl (thrown (runtime_error ''Failed to map binary'')) \<and>
   (case fst (map_module test_emu (test_image 0x40 0x600 460) ''a.exe''
                (test_world [(0x180000000, 0x1000)])) of
      Inr b \<Rightarrow> image_base b = 0x180001000
    | Inl a \<Rightarrow> a = out_of_bounds) \<and>
   fst (map_module test_emu (test_image 0x40 0x600 460) ''a.exe''
          (test_world [(0x180000000, 0x1000), (0x7FFFFFFFF000, 0x1000)])) =
     Inl (thrown (runtime_error ''Failed to map binary''))"
proof -
  note a = test_world_allocations [THEN pair_fst]
  note b = full_world_allocations [THEN pair_fst]
  have "(0x40 :: u16) AND IMAGE_DLLCHARACTERISTICS_DYNAMIC_BASE \<noteq> 0"
       "(0 :: u16) AND IMAGE_DLLCHARACTERISTICS_DYNAMIC_BASE = 0"
    by (simp_all add: IMAGE_DLLCHARACTERISTICS_DYNAMIC_BASE_def)
  moreover have u: "(ucast (0x2000 :: u32) :: u64) = 0x2000"
    by simp
  ultimately show ?thesis
    using map_module_fallback [OF test_image_headers [of 0 "0x600" 460]
              test_image_dll_characteristics(1) [of "0x600" 460],
            where emu = test_emu and name = "''a.exe''",
            unfolded u, OF a]
          map_module_fallback [OF test_image_headers [of "0x40" "0x600" 460]
              test_image_dll_characteristics(2) [of "0x600" 460],
            where emu = test_emu and name = "''a.exe''",
            unfolded u, OF a]
          map_module_fallback [OF test_image_headers [of "0x40" "0x600" 460]
              test_image_dll_characteristics(2) [of "0x600" 460],
            where emu = test_emu and name = "''a.exe''",
            unfolded u, OF b]
    by auto
qed


lemma fixed_base_image_fails:
  "map_module test_emu (test_image 0 0x600 460) ''a.exe'' (test_world [(0x180000000, 0x1000)]) =
     (Inl (thrown (runtime_error ''Failed to map binary'')),
      (test_world [(0x180000000, 0x1000)])
        \<lparr> calls := [allocate_memory_call 0x180000000 0x2000 {perm_read} False,
                    find_free_allocation_base_call 0x2000 0x180001000] \<rparr>)"
  by (simp add: map_module_def test_image_headers test_image_dll_characteristics
                allocate_image_def IMAGE_DLLCHARACTERISTICS_DYNAMIC_BASE_def and_then_def
                lift_def emu_defs)

theorem map_module_failure_atomic_witness:
  "fst (map_module test_emu (test_image 0 0x600 460) ''a.exe''
          (test_world [(0x180000000, 0x1000)])) =
     Inl (thrown (runtime_error ''Failed to map binary'')) \<and>
   stdout (snd (map_module test_emu (test_image 0 0x600 460) ''a.exe''
                  (test_world [(0x180000000, 0x1000)]))) = [] \<and>
   calls (snd (map_module test_emu (test_image 0 0x600 460) ''a.exe''
                 (test_world [(0x180000000, 0x1000)]))) =
     [allocate_memory_call 0x180000000 0x2000 {perm_read} False,
      find_free_allocation_base_call 0x2000 0x180001000]"
  using map_module_failure_atomic [OF fixed_base_image_fails] fixed_base_image_fails
  by (simp add: test_world_def)

lemma test_exports:
  "read_exports (test_image 0x40 0x600 460) 64 0x180000000 =
     Inr [(''bar'', 0x180000500), (''baz'', 0x180000600), (''foo'', 0x180000500)]"
  by (simp add: hdr_defs map_defs img_defs rd_defs eval_simps)

lemma test_image_mapped:
  "map_module test_emu (test_image 0x40 0x600 460) ''a.exe'' (test_world []) =
     (Inr \<lparr> image_base = 0x180000000, size_of_image = 0x2000,
             exports = [(''bar'', 0x180000500), (''baz'', 0x180000600),
                        (''foo'', 0x180000500)] \<rparr>,
      (test_world [(0x180000000, 0x2000)])
        \<lparr> calls := [allocate_memory_call 0x180000000 0x2000 {perm_read} True,
                    write_memory_call 0x180000000 (take 512 (test_image 0x40 0x600 460)),
                    write_memory_call 0x180001000 (replicate 8 0x90),
                    protect_memory_call 0x180001000 0x1000 {perm_read, perm_exec}],
          stdout := [''Mapping a.exe at 180000000'' @ [CHR 0x0A]] \<rparr>)"
  by (simp add: hdr_defs map_defs img_defs rd_defs emu_defs eval_simps)


lemma duplicate_names_mapped:
  "fst (map_module test_emu (test_image 0x40 0x600 456) ''a.exe'' (test_world [])) =
     Inr \<lparr> image_base = 0x180000000, size_of_image = 0x2000,
             exports = [(''bar'', 0x180000600), (''foo'', 0x180000500)] \<rparr>"
  by (simp add: hdr_defs map_defs img_defs rd_defs emu_defs eval_simps)

lemma far_export_mapped:
  "fst (map_module test_emu (test_image 0x40 0x3000 460) ''a.exe'' (test_world [])) =
     Inr \<lparr> image_base = 0x180000000, size_of_image = 0x2000,
             exports = [(''bar'', 0x180000500), (''baz'', 0x180003000),
                        (''foo'', 0x180000500)] \<rparr>"
  by (simp add: hdr_defs map_defs img_defs rd_defs emu_defs eval_simps)

lemma duplicate_names_first_entry:
  "read_export_directory (test_image 0x40 0x600 456) 384 =
     Inr \<lparr> NumberOfNames = 3, AddressOfFunctions = 444, AddressOfNames = 424,
             AddressOfNameOrdinals = 436 \<rparr>"
  "file_export_name (test_image 0x40 0x600 456)
     \<lparr> NumberOfNames = 3, AddressOfFunctions = 444, AddressOfNames = 424,
       AddressOfNameOrdinals = 436 \<rparr> 0 = Inr ''bar''"
  "file_export_rva (test_image 0x40 0x600 456)
     \<lparr> NumberOfNames = 3, AddressOfFunctions = 444, AddressOfNames = 424,
       AddressOfNameOrdinals = 436 \<rparr> 0 = Inr 0x500"
  by (simp_all add: hdr_defs file_export_name_def file_export_rva_def img_defs rd_defs eval_simps)

theorem map_module_sections_witness:
  "fst (map_module test_emu (test_image 0x40 0x600 460) ''a.exe'' (test_world [])) =
     Inr \<lparr> image_base = 0x180000000, size_of_image = 0x2000,
             exports = [(''bar'', 0x180000500), (''baz'', 0x180000600),
                        (''foo'', 0x180000500)] \<rparr> \<and>
   calls (snd (map_module test_emu (test_image 0x40 0x600 460) ''a.exe'' (test_world []))) =
     [allocate_memory_call 0x180000000 0x2000 {perm_read} True,
      write_memory_call 0x180000000 (take 512 (test_image 0x40 0x600 460)),
      write_memory_call 0x180001000 (replicate 8 0x90),
      protect_memory_call 0x180001000 0x1000 {perm_read, perm_exec}] \<and>
   (\<exists>secs allocs.
      section_headers (test_image 0x40 0x600 460) 328 1 = Inr secs \<and>
      calls (snd (map_module test_emu (test_image 0x40 0x600 460) ''a.exe'' (test_world []))) =
        allocs @ [write_memory_call 0x180000000 (take 512 (test_image 0x40 0x600 460))] @
        concat (map (section_calls (test_image 0x40 0x600 460) 0x180000000) secs))"
proof -
  have hdr: "nt_headers_of (test_image 0x40 0x600 460) = Inr 64"
            "SizeOfHeaders (test_image 0x40 0x600 460) 64 = Inr 512"
            "IMAGE_FIRST_SECTION (test_image 0x40 0x600 460) 64 = Inr 328"
            "NumberOfSections (test_image 0x40 0x600 460) 64 = Inr 1"
    by (simp_all add: hdr_defs img_defs rd_defs)
  from map_module_sections [OF test_image_mapped] hdr test_image_mapped show ?thesis
    by (auto simp: test_world_def)
qed

lemma test_image_length: "length (test_image dc rva name1) = 512"
  by (simp add: img_defs)

lemma test_image_layout:
  "image_layout (test_image dc rva name1) =
     Inr (512, [\<lparr> VirtualSize = 0x10, VirtualAddress = 0x1000, SizeOfRawData = 8,
                  PointerToRawData = 368, Characteristics = 0x60000000 \<rparr>])"
  by (simp add: image_layout_def hdr_defs img_defs rd_defs eval_simps)

lemma test_image_flat: "file_offsets_are_rvas (test_image dc rva name1)"
  by (simp add: file_offsets_are_rvas_def list_all_iff image_byte_def test_image_layout
                test_image_length rva_to_offset_def in_section_def)

lemma test_image_export_directory:
  "nt_headers_of (test_image dc rva name1) = Inr 64"
  "export_directory_entry (test_image dc rva name1) 64 = Inr (384, 80)"
  "read_export_directory (test_image dc rva name1) 384 =
     Inr \<lparr> NumberOfNames = 3, AddressOfFunctions = 444, AddressOfNames = 424,
             AddressOfNameOrdinals = 436 \<rparr>"
  by (simp_all add: hdr_defs img_defs rd_defs eval_simps)

lemma test_image_names:
  "file_export_name (test_image 0x40 0x600 460)
     \<lparr> NumberOfNames = 3, AddressOfFunctions = 444, AddressOfNames = 424,
       AddressOfNameOrdinals = 436 \<rparr> 0 = Inr ''bar''"
  "file_export_rva (test_image 0x40 0x600 460)
     \<lparr> NumberOfNames = 3, AddressOfFunctions = 444, AddressOfNames = 424,
       AddressOfNameOrdinals = 436 \<rparr> 0 = Inr 0x500"
  "file_export_name (test_image 0x40 0x600 460)
     \<lparr> NumberOfNames = 3, AddressOfFunctions = 444, AddressOfNames = 424,
       AddressOfNameOrdinals = 436 \<rparr> 1 = Inr ''baz''"
  "file_export_rva (test_image 0x40 0x600 460)
     \<lparr> NumberOfNames = 3, AddressOfFunctions = 444, AddressOfNames = 424,
       AddressOfNameOrdinals = 436 \<rparr> 1 = Inr 0x600"
  by (simp_all add: hdr_defs file_export_name_def file_export_rva_def img_defs rd_defs eval_simps)

theorem map_module_exports_counterexample:
  "file_offsets_are_rvas (test_image 0x40 0x600 456) \<and>
   fst (map_module test_emu (test_image 0x40 0x600 456) ''a.exe'' (test_world [])) =
     Inr \<lparr> image_base = 0x180000000, size_of_image = 0x2000,
             exports = [(''bar'', 0x180000600), (''foo'', 0x180000500)] \<rparr> \<and>
   nt_headers_of (test_image 0x40 0x600 456) = Inr 64 \<and>
   export_directory_entry (test_image 0x40 0x600 456) 64 = Inr (384, 80) \<and>
   image_export_directory (test_image 0x40 0x600 456) 384 =
     Some \<lparr> NumberOfNames = 3, AddressOfFunctions = 444, AddressOfNames = 424,
             AddressOfNameOrdinals = 436 \<rparr> \<and>
   image_export_name (test_image 0x40 0x600 456)
     \<lparr> NumberOfNames = 3, AddressOfFunctions = 444, AddressOfNames = 424,
       AddressOfNameOrdinals = 436 \<rparr> 0 = Some ''bar'' \<and>
   image_export_rva (test_image 0x40 0x600 456)
     \<lparr> NumberOfNames = 3, AddressOfFunctions = 444, AddressOfNames = 424,
       AddressOfNameOrdinals = 436 \<rparr> 0 = Some 0x500 \<and>
   map_of [(''bar'', 0x180000600), (''foo'', 0x180000500 :: u64)] ''bar'' \<noteq>
     Some (0x180000000 + ucast (0x500 :: u32))"
  using duplicate_names_mapped test_image_export_directory [of "0x40" "0x600" 456]
        flat_export_directory [OF test_image_flat test_image_export_directory(3), of "0x40" "0x600" 456]
        flat_export_name [OF test_image_flat duplicate_names_first_entry(2)]
        flat_export_rva [OF test_image_flat duplicate_names_first_entry(3)]
        test_image_flat [of "0x40" "0x600" 456]
  by simp

theorem map_module_exports_witness:
  "fst (map_module test_emu (test_image 0x40 0x600 460) ''a.exe'' (test_world [])) =
     Inr \<lparr> image_base = 0x180000000, size_of_image = 0x2000,
             exports = [(''bar'', 0x180000500), (''baz'', 0x180000600),
                        (''foo'', 0x180000500)] \<rparr> \<and>
   file_offsets_are_rvas (test_image 0x40 0x600 460) \<and>
   nt_headers_of (test_image 0x40 0x600 460) = Inr 64 \<and>
   export_directory_entry (test_image 0x40 0x600 460) 64 = Inr (384, 80) \<and>
   sorted_wrt (<) [''bar'', ''baz'', ''foo''] \<and>
   (\<exists>dir n j rva.
      image_export_directory (test_image 0x40 0x600 460) 384 = Some dir \<and>
      image_export_name (test_image 0x40 0x600 460) dir 1 = Some n \<and>
      image_export_name (test_image 0x40 0x600 460) dir j = Some n \<and>
      image_export_rva (test_image 0x40 0x600 460) dir j = Some rva \<and>
      map_of [(''bar'', 0x180000500), (''baz'', 0x180000600), (''foo'', 0x180000500 :: u64)] n =
        Some (0x180000000 + ucast rva))"
proof -
  note inst = map_module_exports [OF test_image_mapped]
  note hdr = test_image_export_directory [of "0x40" "0x600" 460]
  note flat = test_image_flat [of "0x40" "0x600" 460]
  note dir = flat_export_directory [OF flat hdr(3)]
  from inst [THEN conjunct1] have sorted: "sorted_wrt (<) [''bar'', ''baz'', ''foo'']"
    by simp
  from inst [THEN conjunct2] obtain nt va sz where
    nt: "nt_headers_of (test_image 0x40 0x600 460) = Inr nt" and
    entry: "export_directory_entry (test_image 0x40 0x600 460) nt = Inr (va, sz)" and
    cases: "if va = 0 \<or> sz = 0 then [(''bar'', 0x180000500), (''baz'', 0x180000600),
                        (''foo'', 0x180000500 :: u64)] = []
            else file_offsets_are_rvas (test_image 0x40 0x600 460) \<longrightarrow>
              (\<exists>dir. image_export_directory (test_image 0x40 0x600 460) (unat va) = Some dir \<and>
                 fst ` set [(''bar'', 0x180000500), (''baz'', 0x180000600),
                        (''foo'', 0x180000500 :: u64)] =
                   {n. \<exists>i<unat (NumberOfNames dir).
                         image_export_name (test_image 0x40 0x600 460) dir i = Some n} \<and>
                 (\<forall>i<unat (NumberOfNames dir). \<exists>n j rva.
                    image_export_name (test_image 0x40 0x600 460) dir i = Some n \<and>
                    i \<le> j \<and> j < unat (NumberOfNames dir) \<and>
                    image_export_name (test_image 0x40 0x600 460) dir j = Some n \<and>
                    (\<forall>l. j < l \<and> l < unat (NumberOfNames dir) \<longrightarrow>
                       image_export_name (test_image 0x40 0x600 460) dir l \<noteq> Some n) \<and>
                    image_export_rva (test_image 0x40 0x600 460) dir j = Some rva \<and>
                    map_of [(''bar'', 0x180000500), (''baz'', 0x180000600),
                            (''foo'', 0x180000500 :: u64)] n = Some (0x180000000 + ucast rva)))"
    unfolding mapped_binary.select_convs by (elim exE conjE)
  from nt hdr(1) have "nt = 64"
    by simp
  with entry hdr(2) have va: "va = 384" "sz = 80"
    by simp_all
  have c: "((384 :: u32) = 0) = False" "((80 :: u32) = 0) = False" "unat (384 :: u32) = 384"
    by simp_all
  from cases obtain d where
    d: "image_export_directory (test_image 0x40 0x600 460) 384 = Some d" and
    each: "\<forall>i<unat (NumberOfNames d). \<exists>n j rva.
                    image_export_name (test_image 0x40 0x600 460) d i = Some n \<and>
                    i \<le> j \<and> j < unat (NumberOfNames d) \<and>
                    image_export_name (test_image 0x40 0x600 460) d j = Some n \<and>
                    (\<forall>l. j < l \<and> l < unat (NumberOfNames d) \<longrightarrow>
                       image_export_name (test_image 0x40 0x600 460) d l \<noteq> Some n) \<and>
                    image_export_rva (test_image 0x40 0x600 460) d j = Some rva \<and>
                    map_of [(''bar'', 0x180000500), (''baz'', 0x180000600),
                            (''foo'', 0x180000500 :: u64)] n = Some (0x180000000 + ucast rva)"
    unfolding va by (simp only: c flat if_False simp_thms) blast
  from d dir have "d = \<lparr> NumberOfNames = 3, AddressOfFunctions = 444, AddressOfNames = 424,
                        AddressOfNameOrdinals = 436 \<rparr>"
    by simp
  then have "unat (NumberOfNames d) = 3"
    by simp
  with each [THEN spec, of 1] obtain n j rva where
    "image_export_name (test_image 0x40 0x600 460) d 1 = Some n"
    "image_export_name (test_image 0x40 0x600 460) d j = Some n"
    "image_export_rva (test_image 0x40 0x600 460) d j = Some rva"
    "map_of [(''bar'', 0x180000500), (''baz'', 0x180000600),
             (''foo'', 0x180000500 :: u64)] n = Some (0x180000000 + ucast rva)"
    by auto
  with d have "\<exists>dir n j rva.
      image_export_directory (test_image 0x40 0x600 460) 384 = Some dir \<and>
      image_export_name (test_image 0x40 0x600 460) dir 1 = Some n \<and>
      image_export_name (test_image 0x40 0x600 460) dir j = Some n \<and>
      image_export_rva (test_image 0x40 0x600 460) dir j = Some rva \<and>
      map_of [(''bar'', 0x180000500), (''baz'', 0x180000600), (''foo'', 0x180000500 :: u64)] n =
        Some (0x180000000 + ucast rva)"
    by blast
  with sorted hdr(1,2) flat show ?thesis
    by (simp only: test_image_mapped fst_conv simp_thms)
qed

theorem map_module_export_address_counterexample:
  "fst (map_module test_emu (test_image 0x40 0x3000 460) ''a.exe'' (test_world [])) =
     Inr \<lparr> image_base = 0x180000000, size_of_image = 0x2000,
             exports = [(''bar'', 0x180000500), (''baz'', 0x180003000),
                        (''foo'', 0x180000500)] \<rparr> \<and>
   map_of [(''bar'', 0x180000500), (''baz'', 0x180003000), (''foo'', 0x180000500 :: u64)] ''baz'' =
     Some 0x180003000 \<and>
   \<not> (0x180003000 :: u64) < 0x180000000 + 0x2000"
  using far_export_mapped by simp

theorem map_module_export_address_witness:
  "fst (map_module test_emu (test_image 0x40 0x600 460) ''a.exe'' (test_world [])) =
     Inr \<lparr> image_base = 0x180000000, size_of_image = 0x2000,
             exports = [(''bar'', 0x180000500), (''baz'', 0x180000600),
                        (''foo'', 0x180000500)] \<rparr> \<and>
   file_offsets_are_rvas (test_image 0x40 0x600 460) \<and>
   (\<exists>rva :: u32. (0x180000600 :: u64) = 0x180000000 + ucast rva \<and>
      ((0x180000000 :: u64) \<le> 0x180000600 \<and>
       unat (0x180000600 :: u64) < unat (0x180000000 :: u64) + unat (0x2000 :: u64)
         \<longleftrightarrow> unat rva < unat (0x2000 :: u64)) \<and>
      (\<exists>nt va sz dir i.
         nt_headers_of (test_image 0x40 0x600 460) = Inr nt \<and>
         export_directory_entry (test_image 0x40 0x600 460) nt = Inr (va, sz) \<and>
         image_export_directory (test_image 0x40 0x600 460) (unat va) = Some dir \<and>
         i < unat (NumberOfNames dir) \<and>
         image_export_name (test_image 0x40 0x600 460) dir i = Some ''baz'' \<and>
         image_export_rva (test_image 0x40 0x600 460) dir i = Some rva))"
proof -
  note flat = test_image_flat [of "0x40" "0x600" 460]
  have "(''baz'', 0x180000600) \<in> set (exports \<lparr> image_base = 0x180000000, size_of_image = 0x2000,
             exports = [(''bar'', 0x180000500), (''baz'', 0x180000600),
                        (''foo'', 0x180000500)] \<rparr>)"
    by simp
  from map_module_export_address [OF test_image_mapped this] obtain rva :: u32 where
    a: "(0x180000600 :: u64) = 0x180000000 + ucast rva" and
    range: "unat (0x180000000 :: u64) + unat (0x2000 :: u64) \<le> 2 ^ 64 \<longrightarrow>
              ((0x180000000 :: u64) \<le> 0x180000600 \<and>
               unat (0x180000600 :: u64) < unat (0x180000000 :: u64) + unat (0x2000 :: u64)
                 \<longleftrightarrow> unat rva < unat (0x2000 :: u64))" and
    pe: "file_offsets_are_rvas (test_image 0x40 0x600 460) \<longrightarrow>
              (\<exists>nt va sz dir i.
                 nt_headers_of (test_image 0x40 0x600 460) = Inr nt \<and>
                 export_directory_entry (test_image 0x40 0x600 460) nt = Inr (va, sz) \<and>
                 image_export_directory (test_image 0x40 0x600 460) (unat va) = Some dir \<and>
                 i < unat (NumberOfNames dir) \<and>
                 image_export_name (test_image 0x40 0x600 460) dir i = Some ''baz'' \<and>
                 image_export_rva (test_image 0x40 0x600 460) dir i = Some rva)"
    unfolding mapped_binary.select_convs by (elim exE conjE)
  have "unat (0x180000000 :: u64) + unat (0x2000 :: u64) \<le> 2 ^ 64"
    by simp
  with range have in_range: "(0x180000000 :: u64) \<le> 0x180000600 \<and>
               unat (0x180000600 :: u64) < unat (0x180000000 :: u64) + unat (0x2000 :: u64)
                 \<longleftrightarrow> unat rva < unat (0x2000 :: u64)"
    by (rule mp)
  from pe flat have table: "\<exists>nt va sz dir i.
                 nt_headers_of (test_image 0x40 0x600 460) = Inr nt \<and>
                 export_directory_entry (test_image 0x40 0x600 460) nt = Inr (va, sz) \<and>
                 image_export_directory (test_image 0x40 0x600 460) (unat va) = Some dir \<and>
                 i < unat (NumberOfNames dir) \<and>
                 image_export_name (test_image 0x40 0x600 460) dir i = Some ''baz'' \<and>
                 image_export_rva (test_image 0x40 0x600 460) dir i = Some rva"
    by (rule mp)
  show ?thesis
    unfolding test_image_mapped fst_conv
    by (intro conjI refl flat exI [of _ rva] a in_range table)
qed

theorem export_hooks_smallest_name_witness:
  "fst (map_module test_emu (test_image 0x40 0x600 460) ''a.exe'' (test_world [])) =
     Inr \<lparr> image_base = 0x180000000, size_of_image = 0x2000,
             exports = [(''bar'', 0x180000500), (''baz'', 0x180000600),
                        (''foo'', 0x180000500)] \<rparr> \<and>
   export_remap [(''bar'', 0x180000500), (''baz'', 0x180000600), (''foo'', 0x180000500)] =
     [(0x180000500, ''bar''), (0x180000600, ''baz'')] \<and>
   calls (install_export_hooks test_emu
            (export_remap [(''bar'', 0x180000500), (''baz'', 0x180000600),
                           (''foo'', 0x180000500)]) (test_world [])) =
     [hook_memory_execution_call 0x180000500 0 (export_trace ''bar''),
      hook_memory_execution_call 0x180000600 0 (export_trace ''baz'')] \<and>
   ''bar'' \<le> ''foo''"
proof -
  have remap: "export_remap [(''bar'', 0x180000500), (''baz'', 0x180000600), (''foo'', 0x180000500 :: u64)] =
     [(0x180000500, ''bar''), (0x180000600, ''baz'')]"
    by (simp add: export_remap_def try_emplace_def)
  from export_hooks_smallest_name [OF test_image_mapped, of "test_world []"] remap
       test_image_mapped
  show ?thesis
    by (simp add: test_world_def)
qed

end
